theory Spec2Isabelle
  imports Complex_Main "HOL-Library.Multiset" "HOL-Library.Char_ord" "HOL-Library.List_Lexorder"
begin

section \<open>EasyPAML: batch engine and result-text parser\<close>

text \<open>
  A shallow embedding of the parts of \<^verbatim>\<open>src/backend/codeml_backend.py\<close> and
  \<^verbatim>\<open>src/backend/sites_parser.py\<close> that the claims are about.

  Conventions of the embedding:
  \<^item> Python \<^verbatim>\<open>str\<close> is \<^typ>\<open>string\<close>; only code points below 256 are
    represented.
  \<^item> Python \<^verbatim>\<open>float\<close> is \<^typ>\<open>real\<close>: decimal literals denote their exact value
    and arithmetic is exact (no rounding, no \<^verbatim>\<open>inf\<close>, no \<^verbatim>\<open>nan\<close> as a number).
  \<^item> \<^verbatim>\<open>None\<close> is \<^term>\<open>None\<close>; an exception is a value of a sum type or, where the
    source catches it and returns \<^verbatim>\<open>None\<close>, the value \<^term>\<open>None\<close>.
\<close>

section \<open>The embedding\<close>

subsection \<open>Model catalogue\<close>

text \<open>\<^verbatim>\<open>NULL_MODEL_PAIRS\<close>: alternative model \<open>\<rightarrow>\<close> null model.\<close>

definition NULL_MODEL_PAIRS :: "(string \<times> string) list" where
  "NULL_MODEL_PAIRS =
    [(''M2a'', ''M1a''),
     (''M8'', ''M7''),
     (''Branch'', ''M0''),
     (''Branch-site'', ''Branch-site_null'')]"

text \<open>\<^verbatim>\<open>NEUTRAL_MODELS\<close>: only the keys matter to the code modelled here.\<close>

definition NEUTRAL_MODELS :: "string list" where
  "NEUTRAL_MODELS = [''M0'', ''M1a'', ''BranchSite_A_null'']"

subsection \<open>\<^verbatim>\<open>auto_complete_null_models\<close>\<close>

text \<open>
  A Python \<^verbatim>\<open>set\<close> of strings is modelled by the duplicate-free list of its elements
  in insertion order. The order in which \<^verbatim>\<open>list(s)\<close> enumerates a set is not
  specified by Python; it is the parameter \<open>iter\<close> of the function below, a
  rearrangement of the elements.
\<close>

definition set_add :: "'a \<Rightarrow> 'a list \<Rightarrow> 'a list" where
  "set_add x s = (if x \<in> set s then s else s @ [x])"

definition py_set :: "'a list \<Rightarrow> 'a list" where
  "py_set xs = fold set_add xs []"

text \<open>\<^verbatim>\<open>xs.index(x)\<close>, used by the source only under \<^verbatim>\<open>x in xs\<close>.\<close>

fun index_of :: "'a list \<Rightarrow> 'a \<Rightarrow> nat" where
  "index_of [] x = 0"
| "index_of (y # ys) x = (if x = y then 0 else Suc (index_of ys x))"

definition add_null_models :: "string list \<Rightarrow> string list \<Rightarrow> string list" where
  "add_null_models selected_models completed_models =
     fold (\<lambda>model c. case map_of NULL_MODEL_PAIRS model of
                        Some null_model \<Rightarrow> set_add null_model c
                      | None \<Rightarrow> c)
          selected_models completed_models"

definition add_neutral_models :: "string list \<Rightarrow> string list \<Rightarrow> string list" where
  "add_neutral_models selected_models completed_models =
     (let c1 = (if ''M2a'' \<in> set selected_models \<and> ''M1a'' \<notin> set completed_models
                then set_add ''M1a'' completed_models else completed_models);
          c2 = (if ''Branch-site'' \<in> set selected_models \<and> ''Branch-site_null'' \<notin> set c1
                then set_add ''Branch-site_null'' c1 else c1)
      in c2)"

definition sort_position :: "string list \<Rightarrow> string \<Rightarrow> nat" where
  "sort_position selected_models x =
     (if x \<in> set selected_models then index_of selected_models x else 999)"

definition auto_complete_null_models ::
  "(string list \<Rightarrow> string list) \<Rightarrow> string list \<Rightarrow> bool \<Rightarrow> string list" where
  "auto_complete_null_models iter selected_models include_neutral =
     (let completed_models = py_set selected_models;
          completed_models = add_null_models selected_models completed_models;
          completed_models = (if include_neutral
                              then add_neutral_models selected_models completed_models
                              else completed_models)
      in sort_key (sort_position selected_models) (iter completed_models))"

text \<open>
  Two notions used to state the result: the distinct entries of a list in order of first
  occurrence, and the null models of the selected alternatives that the selection lacks.
\<close>

fun first_occurrences :: "'a list \<Rightarrow> 'a list" where
  "first_occurrences [] = []"
| "first_occurrences (x # xs) = x # filter (\<lambda>y. y \<noteq> x) (first_occurrences xs)"

definition new_nulls :: "string list \<Rightarrow> string list" where
  "new_nulls S = filter (\<lambda>x. x \<notin> set S)
                   (first_occurrences (List.map_filter (map_of NULL_MODEL_PAIRS) S))"

subsection \<open>Python string operations\<close>

text \<open>
  \<^verbatim>\<open>str.isspace\<close> on one character, for code points below 256: TAB, LF, VT, FF, CR,
  the separators 0x1C to 0x1F, the space, NEL (0x85) and the no-break space (0xA0).
\<close>

definition py_isspace :: "char \<Rightarrow> bool" where
  "py_isspace c =
     (let n = (of_char c :: nat)
      in (9 \<le> n \<and> n \<le> 13) \<or> (28 \<le> n \<and> n \<le> 32) \<or> n = 133 \<or> n = 160)"

text \<open>
  \<^verbatim>\<open>str.lower\<close> on one character, for code points below 256: \<^verbatim>\<open>A\<close> to \<^verbatim>\<open>Z\<close> and
  the Latin-1 capitals 0xC0 to 0xDE (without the multiplication sign 0xD7) move up by 32.
\<close>

definition py_lower_char :: "char \<Rightarrow> char" where
  "py_lower_char c =
     (let n = (of_char c :: nat)
      in if (65 \<le> n \<and> n \<le> 90) \<or> (192 \<le> n \<and> n \<le> 222 \<and> n \<noteq> 215)
         then char_of (n + 32) else c)"

definition py_lower :: "string \<Rightarrow> string" where
  "py_lower s = map py_lower_char s"

text \<open>\<^verbatim>\<open>s.startswith(p)\<close> and the substring test \<^verbatim>\<open>sub in s\<close>.\<close>

fun startswith :: "string \<Rightarrow> string \<Rightarrow> bool" where
  "startswith s [] = True"
| "startswith [] (p # ps) = False"
| "startswith (c # cs) (p # ps) = (c = p \<and> startswith cs ps)"

fun py_in :: "string \<Rightarrow> string \<Rightarrow> bool" where
  "py_in sub [] = (sub = [])"
| "py_in sub (c # cs) = (startswith (c # cs) sub \<or> py_in sub cs)"

text \<open>\<^verbatim>\<open>s.rstrip()\<close>, \<^verbatim>\<open>s.strip()\<close>, \<^verbatim>\<open>s.split()\<close> and \<^verbatim>\<open>s.split('\n')\<close>.\<close>

definition py_rstrip :: "string \<Rightarrow> string" where
  "py_rstrip s = rev (dropWhile py_isspace (rev s))"

definition py_strip :: "string \<Rightarrow> string" where
  "py_strip s = py_rstrip (dropWhile py_isspace s)"

fun split_ws_from :: "string \<Rightarrow> string \<Rightarrow> string list" where
  "split_ws_from cur [] = (if cur = [] then [] else [rev cur])"
| "split_ws_from cur (c # cs) =
     (if py_isspace c
      then (if cur = [] then split_ws_from [] cs else rev cur # split_ws_from [] cs)
      else split_ws_from (c # cur) cs)"

text \<open>The word being read is kept in reverse.\<close>

definition py_split :: "string \<Rightarrow> string list" where
  "py_split s = split_ws_from [] s"

fun split_lines_from :: "string \<Rightarrow> string \<Rightarrow> string list" where
  "split_lines_from cur [] = [rev cur]"
| "split_lines_from cur (c # cs) =
     (if c = CHR 0x0A then rev cur # split_lines_from [] cs
      else split_lines_from (c # cur) cs)"

definition split_newline :: "string \<Rightarrow> string list" where
  "split_newline s = split_lines_from [] s"

text \<open>\<^verbatim>\<open>str(n)\<close> for a non-negative and for an arbitrary integer.\<close>

definition digit_char :: "nat \<Rightarrow> char" where
  "digit_char d = char_of (48 + d)"

fun str_nat :: "nat \<Rightarrow> string" where
  "str_nat n = (if n < 10 then [digit_char n] else str_nat (n div 10) @ [digit_char (n mod 10)])"

declare str_nat.simps [simp del]

text \<open>The same digits, computed on integers; meant for \<open>0 \<le> i\<close>.\<close>

function str_pos :: "int \<Rightarrow> string" where
  "str_pos i = (if i < 10 then [digit_char (nat i)]
                else str_pos (i div 10) @ [digit_char (nat (i mod 10))])"
  by pat_completeness auto
termination
  by (relation "measure nat") auto

declare str_pos.simps [simp del]

definition str_int :: "int \<Rightarrow> string" where
  "str_int i = (if i < 0 then CHR ''-'' # str_pos (- i) else str_pos i)"

subsection \<open>Prompt detection in \<^verbatim>\<open>read_stream\<close>\<close>

text \<open>
  For every line read from a stream, \<^verbatim>\<open>read_stream\<close> computes
  \<^verbatim>\<open>text_line = line.rstrip()\<close>, \<^verbatim>\<open>lower = text_line.lower()\<close> and the two flags
  below; the line is handled as a prompt when one of them holds.
\<close>

definition is_stop_codon :: "string \<Rightarrow> bool" where
  "is_stop_codon line =
     (let lower = py_lower (py_rstrip line)
      in py_in ''stop'' lower \<and> py_in ''codon'' lower)"

definition is_press_enter :: "string \<Rightarrow> bool" where
  "is_press_enter line =
     (let lower = py_lower (py_rstrip line)
      in py_in ''press'' lower \<and> py_in ''enter'' lower)"

definition detected_prompt :: "string \<Rightarrow> bool" where
  "detected_prompt line = (is_stop_codon line \<or> is_press_enter line)"

text \<open>
  The wording of the specification: a word occurs in a line case-insensitively when some
  stretch of the line, of the word's length, agrees with it after lowering both.
\<close>

definition occurs_ci :: "string \<Rightarrow> string \<Rightarrow> bool" where
  "occurs_ci word line =
     (\<exists>pre u post. line = pre @ u @ post \<and> py_lower u = py_lower word)"

subsection \<open>\<^verbatim>\<open>float(s)\<close>\<close>

text \<open>
  The grammar of Python's \<^verbatim>\<open>float\<close> constructor: surrounding whitespace is removed, then
  an optional sign, then \<^verbatim>\<open>inf\<close>, \<^verbatim>\<open>infinity\<close> or \<^verbatim>\<open>nan\<close> in any case, or a decimal
  number \<^verbatim>\<open>[digitpart] . digitpart | digitpart [.]\<close> with an optional exponent, where a
  \<^verbatim>\<open>digitpart\<close> is a run of digits that may have single underscores between digits. A
  string outside the grammar raises \<^verbatim>\<open>ValueError\<close>, here \<^term>\<open>None\<close>. Infinities and
  \<^verbatim>\<open>nan\<close> are not real numbers; they are the value \<open>NonFinite\<close>, which fails every
  comparison the code makes.
\<close>

datatype floatval = Number real | NonFinite

definition is_digit :: "char \<Rightarrow> bool" where
  "is_digit c = (let n = (of_char c :: nat) in 48 \<le> n \<and> n \<le> 57)"

definition digit_val :: "char \<Rightarrow> nat" where
  "digit_val c = of_char c - 48"

fun digitpart :: "string \<Rightarrow> bool" where
  "digitpart [] = False"
| "digitpart [c] = is_digit c"
| "digitpart (c # d # cs) =
     (is_digit c \<and> (if d = CHR ''_'' then digitpart cs else digitpart (d # cs)))"

definition digits_val :: "string \<Rightarrow> nat" where
  "digits_val s = foldl (\<lambda>a c. 10 * a + digit_val c) 0 (filter is_digit s)"

definition digits_real :: "string \<Rightarrow> real" where
  "digits_real s = foldl (\<lambda>a c. 10 * a + real (digit_val c)) 0 (filter is_digit s)"

definition parse_number :: "string \<Rightarrow> real option" where
  "parse_number mant =
     (let ip = takeWhile (\<lambda>c. c \<noteq> CHR ''.'') mant;
          r = dropWhile (\<lambda>c. c \<noteq> CHR ''.'') mant
      in case r of
           [] \<Rightarrow> if digitpart ip then Some (digits_real ip) else None
         | _ # fp \<Rightarrow>
             if (ip = [] \<or> digitpart ip) \<and> (fp = [] \<or> digitpart fp) \<and> \<not> (ip = [] \<and> fp = [])
             then Some (digits_real ip + digits_real fp / 10 ^ length (filter is_digit fp))
             else None)"

definition parse_exponent :: "string \<Rightarrow> int option" where
  "parse_exponent ex =
     (case ex of
        [] \<Rightarrow> None
      | c # cs \<Rightarrow>
          if c = CHR ''-'' then (if digitpart cs then Some (- int (digits_val cs)) else None)
          else if c = CHR ''+'' then (if digitpart cs then Some (int (digits_val cs)) else None)
          else (if digitpart ex then Some (int (digits_val ex)) else None))"

definition scale10 :: "real \<Rightarrow> int \<Rightarrow> real" where
  "scale10 m e = (if 0 \<le> e then m * 10 ^ nat e else m / 10 ^ nat (- e))"

definition py_float :: "string \<Rightarrow> floatval option" where
  "py_float s =
     (let t = py_strip s;
          neg = (case t of [] \<Rightarrow> False | c # _ \<Rightarrow> c = CHR ''-'');
          body = (case t of [] \<Rightarrow> [] | c # cs \<Rightarrow> if c = CHR ''-'' \<or> c = CHR ''+'' then cs else t);
          low = py_lower body
      in if low = ''inf'' \<or> low = ''infinity'' \<or> low = ''nan'' then Some NonFinite
         else
           (let mant = takeWhile (\<lambda>c. c \<noteq> CHR ''e'' \<and> c \<noteq> CHR ''E'') body;
                rest = dropWhile (\<lambda>c. c \<noteq> CHR ''e'' \<and> c \<noteq> CHR ''E'') body
            in case parse_number mant of
                 None \<Rightarrow> None
               | Some m \<Rightarrow>
                   (case rest of
                      [] \<Rightarrow> Some (Number (if neg then - m else m))
                    | _ # ex \<Rightarrow>
                        (case parse_exponent ex of
                           None \<Rightarrow> None
                         | Some e \<Rightarrow> Some (Number (if neg then - scale10 m e else scale10 m e))))))"

subsection \<open>Regular expressions\<close>

text \<open>
  The patterns of the source use literals, character classes, greedy and lazy repetition
  of a class, an optional character, one capture group, a word boundary and the
  alternative \<^verbatim>\<open>(?:\n|$)\<close>. A pattern is a list of such items, matched by backtracking
  in the order Python's \<^verbatim>\<open>re\<close> tries the alternatives; \<^verbatim>\<open>re.search\<close> takes the first
  start position at which the pattern matches. Only \<^verbatim>\<open>group(1)\<close> is returned, which is
  all the source reads.
\<close>

datatype cclass =
    Lit char              \<comment> \<open>the character itself\<close>
  | LitI char             \<comment> \<open>the character, under \<^verbatim>\<open>re.IGNORECASE\<close>\<close>
  | Digit                 \<comment> \<open>\<^verbatim>\<open>\d\<close>\<close>
  | DigitDot              \<comment> \<open>\<^verbatim>\<open>[\d.]\<close>\<close>
  | DigitDotSpace         \<comment> \<open>\<^verbatim>\<open>[\d.\s]\<close>\<close>
  | MinusDigitDot         \<comment> \<open>\<^verbatim>\<open>[-\d.]\<close>\<close>
  | Space                 \<comment> \<open>\<^verbatim>\<open>\s\<close>\<close>
  | AnyChar               \<comment> \<open>\<^verbatim>\<open>.\<close> without \<^verbatim>\<open>re.DOTALL\<close>\<close>
  | OneOf string          \<comment> \<open>\<^verbatim>\<open>[...]\<close> of the listed characters\<close>
  | NoneOf string         \<comment> \<open>\<^verbatim>\<open>[^...]\<close> of the listed characters\<close>

fun in_class :: "cclass \<Rightarrow> char \<Rightarrow> bool" where
  "in_class (Lit p) c = (c = p)"
| "in_class (LitI p) c = (py_lower_char c = py_lower_char p)"
| "in_class Digit c = is_digit c"
| "in_class DigitDot c = (is_digit c \<or> c = CHR ''.'')"
| "in_class DigitDotSpace c = (is_digit c \<or> c = CHR ''.'' \<or> py_isspace c)"
| "in_class MinusDigitDot c = (c = CHR ''-'' \<or> is_digit c \<or> c = CHR ''.'')"
| "in_class Space c = py_isspace c"
| "in_class AnyChar c = (c \<noteq> CHR 0x0A)"
| "in_class (OneOf cs) c = (c \<in> set cs)"
| "in_class (NoneOf cs) c = (c \<notin> set cs)"

text \<open>
  \<^verbatim>\<open>\w\<close> for code points below 256: letters, digits and the underscore, with the
  Latin-1 letters and numeric characters.
\<close>

definition is_word_char :: "char \<Rightarrow> bool" where
  "is_word_char c =
     (let n = (of_char c :: nat)
      in (48 \<le> n \<and> n \<le> 57) \<or> (65 \<le> n \<and> n \<le> 90) \<or> n = 95 \<or> (97 \<le> n \<and> n \<le> 122)
         \<or> n = 170 \<or> n = 178 \<or> n = 179 \<or> n = 181 \<or> n = 185 \<or> n = 186
         \<or> (188 \<le> n \<and> n \<le> 190) \<or> (192 \<le> n \<and> n \<le> 214) \<or> (216 \<le> n \<and> n \<le> 246)
         \<or> 248 \<le> n)"

datatype rx_item =
    One cclass            \<comment> \<open>one character of the class\<close>
  | Rep cclass nat bool   \<comment> \<open>at least so many characters of the class; greedy or lazy\<close>
  | Opt cclass            \<comment> \<open>\<^verbatim>\<open>c?\<close>\<close>
  | GroupOpen
  | GroupClose
  | NewlineOrEnd          \<comment> \<open>\<^verbatim>\<open>(?:\n|$)\<close>\<close>
  | WordBoundary          \<comment> \<open>\<^verbatim>\<open>\b\<close>\<close>

datatype capture = Before | During string | Done string

fun take_char :: "char \<Rightarrow> capture \<Rightarrow> capture" where
  "take_char c (During g) = During (g @ [c])"
| "take_char c cap = cap"

fun captured :: "capture \<Rightarrow> string" where
  "captured (Done g) = g"
| "captured (During g) = g"
| "captured Before = []"

fun rx_match :: "rx_item list \<Rightarrow> char option \<Rightarrow> string \<Rightarrow> capture \<Rightarrow> string option" where
  "rx_match [] prev s cap = Some (captured cap)"
| "rx_match (One k # its) prev [] cap = None"
| "rx_match (One k # its) prev (c # cs) cap =
     (if in_class k c then rx_match its (Some c) cs (take_char c cap) else None)"
| "rx_match (Rep k (Suc n) g # its) prev [] cap = None"
| "rx_match (Rep k (Suc n) g # its) prev (c # cs) cap =
     (if in_class k c then rx_match (Rep k n g # its) (Some c) cs (take_char c cap) else None)"
| "rx_match (Rep k 0 g # its) prev [] cap = rx_match its prev [] cap"
| "rx_match (Rep k 0 True # its) prev (c # cs) cap =
     (if in_class k c
      then (case rx_match (Rep k 0 True # its) (Some c) cs (take_char c cap) of
              Some r \<Rightarrow> Some r
            | None \<Rightarrow> rx_match its prev (c # cs) cap)
      else rx_match its prev (c # cs) cap)"
| "rx_match (Rep k 0 False # its) prev (c # cs) cap =
     (case rx_match its prev (c # cs) cap of
        Some r \<Rightarrow> Some r
      | None \<Rightarrow>
          if in_class k c then rx_match (Rep k 0 False # its) (Some c) cs (take_char c cap)
          else None)"
| "rx_match (Opt k # its) prev [] cap = rx_match its prev [] cap"
| "rx_match (Opt k # its) prev (c # cs) cap =
     (if in_class k c
      then (case rx_match its (Some c) cs (take_char c cap) of
              Some r \<Rightarrow> Some r
            | None \<Rightarrow> rx_match its prev (c # cs) cap)
      else rx_match its prev (c # cs) cap)"
| "rx_match (GroupOpen # its) prev s cap = rx_match its prev s (During [])"
| "rx_match (GroupClose # its) prev s cap = rx_match its prev s (Done (captured cap))"
| "rx_match (NewlineOrEnd # its) prev [] cap = rx_match its prev [] cap"
| "rx_match (NewlineOrEnd # its) prev (c # cs) cap =
     (if c = CHR 0x0A
      then (case rx_match its (Some c) cs (take_char c cap) of
              Some r \<Rightarrow> Some r
            | None \<Rightarrow> if cs = [] then rx_match its prev (c # cs) cap else None)
      else None)"
| "rx_match (WordBoundary # its) prev s cap =
     (let word_left = (case prev of None \<Rightarrow> False | Some p \<Rightarrow> is_word_char p);
          word_right = (case s of [] \<Rightarrow> False | c # _ \<Rightarrow> is_word_char c)
      in if word_left \<noteq> word_right then rx_match its prev s cap else None)"

fun rx_search_from :: "rx_item list \<Rightarrow> char option \<Rightarrow> string \<Rightarrow> string option" where
  "rx_search_from p prev [] = rx_match p prev [] Before"
| "rx_search_from p prev (c # cs) =
     (case rx_match p prev (c # cs) Before of
        Some g \<Rightarrow> Some g
      | None \<Rightarrow> rx_search_from p (Some c) cs)"

text \<open>\<^verbatim>\<open>re.search(p, s)\<close>, returning \<^verbatim>\<open>group(1)\<close> of the match, if any.\<close>

definition re_search :: "rx_item list \<Rightarrow> string \<Rightarrow> string option" where
  "re_search p s = rx_search_from p None s"

definition lit :: "string \<Rightarrow> rx_item list" where
  "lit w = map (\<lambda>c. One (Lit c)) w"

definition liti :: "string \<Rightarrow> rx_item list" where
  "liti w = map (\<lambda>c. One (LitI c)) w"

subsection \<open>\<^verbatim>\<open>SitesParser\<close>: selection-ratio extraction\<close>

text \<open>
  Every extractor opens and reads the output file itself. A file is the text read from
  it, or \<^term>\<open>None\<close> when opening or reading raises; the extractors catch that exception.
  The text is what Python's text mode delivers (line ends already translated to
  \<^verbatim>\<open>\n\<close>). A function that reads the file more than once sees the same text each time.
\<close>

type_synonym text_file = "string option"

text \<open>
  \<^verbatim>\<open>numpy.median\<close> of a non-empty list: the middle element of the sorted list, or the
  mean of the two middle elements.
\<close>

definition median :: "real list \<Rightarrow> real" where
  "median xs =
     (let s = sort xs; n = length s
      in if odd n then s ! (n div 2) else (s ! (n div 2 - 1) + s ! (n div 2)) / 2)"

text \<open>A dictionary with string keys, in insertion order: \<^verbatim>\<open>d[k] = v\<close>.\<close>

fun dict_set :: "'k \<Rightarrow> 'v \<Rightarrow> ('k \<times> 'v) list \<Rightarrow> ('k \<times> 'v) list" where
  "dict_set k v [] = [(k, v)]"
| "dict_set k v ((k', v') # d) = (if k' = k then (k, v) # d else (k', v') # dict_set k v d)"

definition table_marker :: string where
  "table_marker = ''dN & dS for each branch''"

text \<open>
  The outer loop of the table scans stops at the first line that contains the marker;
  what it hands to the inner loop are the lines after that one.
\<close>

fun lines_after_marker :: "string list \<Rightarrow> string list option" where
  "lines_after_marker [] = None"
| "lines_after_marker (l # ls) =
     (if py_in table_marker l then Some ls else lines_after_marker ls)"

text \<open>
  \<^verbatim>\<open>extract_omega_global\<close>. The inner loop runs over
  \<^verbatim>\<open>range(i + 1, min(i + 200, len(lines)))\<close>, the first 199 lines after the marker line.
\<close>

fun scan_global :: "string list \<Rightarrow> real list \<Rightarrow> real list" where
  "scan_global [] omegas = omegas"
| "scan_global (l # ls) omegas =
     (let data_line = py_strip l
      in if data_line = [] \<or> py_in ''branch'' (py_lower data_line) then scan_global ls omegas
         else if list_ex (\<lambda>x. py_in x (py_lower data_line))
                   [''tree length'', ''mlc'', ''model'', ''---'', ''dS tree'', ''dN tree'']
         then omegas
         else (let parts = py_split data_line
               in if length parts \<ge> 5
                  then (case py_float (parts ! 4) of
                          Some (Number omega) \<Rightarrow>
                            if - 10 \<le> omega \<and> omega \<le> 100
                            then scan_global ls (omegas @ [omega])
                            else scan_global ls omegas
                        | _ \<Rightarrow> scan_global ls omegas)
                  else scan_global ls omegas))"

definition extract_omega_global :: "text_file \<Rightarrow> real option" where
  "extract_omega_global f =
     (case f of
        None \<Rightarrow> None
      | Some content \<Rightarrow>
          if \<not> py_in table_marker content then None
          else (let lines = split_newline content;
                    omegas = (case lines_after_marker lines of
                                None \<Rightarrow> []
                              | Some rest \<Rightarrow> scan_global (take 199 rest) [])
                in if omegas \<noteq> [] then Some (median omegas) else None))"

text \<open>\<^verbatim>\<open>extract_omega_by_branches\<close>: the same scan, keeping branch \<open>\<rightarrow>\<close> ratio.\<close>

fun scan_branches :: "string list \<Rightarrow> (string \<times> real) list \<Rightarrow> (string \<times> real) list" where
  "scan_branches [] branch_omegas = branch_omegas"
| "scan_branches (l # ls) branch_omegas =
     (let data_line = py_strip l
      in if data_line = [] \<or> py_in ''branch'' (py_lower data_line)
         then scan_branches ls branch_omegas
         else if list_ex (\<lambda>x. py_in x (py_lower data_line))
                   [''tree length'', ''dS tree'', ''dN tree'', ''---'']
         then branch_omegas
         else (let parts = py_split data_line
               in if length parts \<ge> 5
                  then (case py_float (parts ! 4) of
                          Some (Number omega) \<Rightarrow>
                            if - 10 \<le> omega \<and> omega \<le> 100
                            then scan_branches ls (dict_set (parts ! 0) omega branch_omegas)
                            else scan_branches ls branch_omegas
                        | _ \<Rightarrow> scan_branches ls branch_omegas)
                  else scan_branches ls branch_omegas))"

definition extract_omega_by_branches :: "text_file \<Rightarrow> (string \<times> real) list" where
  "extract_omega_by_branches f =
     (case f of
        None \<Rightarrow> []
      | Some content \<Rightarrow>
          if \<not> py_in table_marker content then []
          else (case lines_after_marker (split_newline content) of
                  None \<Rightarrow> []
                | Some rest \<Rightarrow> scan_branches (take 199 rest) []))"

text \<open>
  \<^verbatim>\<open>extract_omega_values_from_model_params\<close>: the five patterns, tried in order under
  \<^verbatim>\<open>re.IGNORECASE\<close>. A captured text that \<^verbatim>\<open>float\<close> rejects raises inside the
  function's \<^verbatim>\<open>try\<close>, which returns \<^verbatim>\<open>None\<close>.
\<close>

definition omega_patterns :: "rx_item list list" where
  "omega_patterns =
    [liti ''omega (w) for branches:'' @ [Rep Space 0 True, GroupOpen, Rep DigitDot 1 True, GroupClose],
     liti ''w'' @ [Rep Space 0 True] @ liti ''='' @ [Rep Space 0 True, GroupOpen, Rep DigitDot 1 True, GroupClose],
     liti ''dN/dS'' @ [Rep AnyChar 0 False] @ liti ''='' @ [Rep Space 0 True, GroupOpen, Rep DigitDot 1 True, GroupClose],
     liti ''w (dN/dS)'' @ [Rep Space 0 True] @ liti ''='' @ [Rep Space 0 True, GroupOpen, Rep DigitDot 1 True, GroupClose],
     [WordBoundary] @ liti ''w'' @ [Rep Space 1 True] @ liti ''='' @ [Rep Space 0 True, GroupOpen, Rep DigitDot 1 True, GroupClose]]"

fun try_omega_patterns :: "rx_item list list \<Rightarrow> string \<Rightarrow> real option" where
  "try_omega_patterns [] content = None"
| "try_omega_patterns (pattern # ps) content =
     (case re_search pattern content of
        None \<Rightarrow> try_omega_patterns ps content
      | Some g \<Rightarrow>
          (case py_float g of
             None \<Rightarrow> None
           | Some NonFinite \<Rightarrow> try_omega_patterns ps content
           | Some (Number omega) \<Rightarrow>
               if - 10 \<le> omega \<and> omega \<le> 100 then Some omega
               else try_omega_patterns ps content))"

definition extract_omega_values_from_model_params :: "text_file \<Rightarrow> real option" where
  "extract_omega_values_from_model_params f =
     (case f of None \<Rightarrow> None | Some content \<Rightarrow> try_omega_patterns omega_patterns content)"

text \<open>\<^verbatim>\<open>extract_omega_robust\<close>.\<close>

definition extract_omega_robust :: "text_file \<Rightarrow> real option" where
  "extract_omega_robust f =
     (let branch_site =
            (case f of
               None \<Rightarrow> False
             | Some content \<Rightarrow>
                 py_in ''site class'' content \<and> py_in ''background w'' content
                 \<and> py_in ''foreground w'' content)
      in if branch_site then None
         else (case extract_omega_global f of
                 Some omega \<Rightarrow> Some omega
               | None \<Rightarrow>
                   (case extract_omega_values_from_model_params f of
                      Some omega \<Rightarrow> Some omega
                    | None \<Rightarrow> None)))"

text \<open>\<^verbatim>\<open>extract_omega_by_tags\<close>.\<close>

definition branchsite_bg_pattern :: "rx_item list" where
  "branchsite_bg_pattern =
     lit ''background'' @ [Rep Space 1 True] @ lit ''w''
     @ [Rep Space 1 True, GroupOpen, Rep DigitDotSpace 1 False, GroupClose, NewlineOrEnd]"

definition branchsite_fg_pattern :: "rx_item list" where
  "branchsite_fg_pattern =
     lit ''foreground'' @ [Rep Space 1 True] @ lit ''w''
     @ [Rep Space 1 True, GroupOpen, Rep DigitDotSpace 1 False, GroupClose, NewlineOrEnd]"

definition multi_omega_pattern :: "rx_item list" where
  "multi_omega_pattern =
     liti ''w'' @ [Rep Space 0 True] @ liti ''(dN/dS)'' @ [Rep Space 0 True] @ liti ''for''
     @ [Rep Space 1 True] @ liti ''branche'' @ [Opt (LitI CHR ''s''), Rep Space 0 True]
     @ liti '':''
     @ [Rep Space 0 True, GroupOpen, Rep DigitDotSpace 1 False, GroupClose, NewlineOrEnd]"

definition in_bounds :: "real \<Rightarrow> bool" where
  "in_bounds v = (- 10 \<le> v \<and> v \<le> 100)"

text \<open>
  The BranchSite block: \<^term>\<open>Some\<close> of the returned dictionary, or \<^term>\<open>None\<close> when the
  code goes on to the next block (with \<^verbatim>\<open>tag_omegas\<close> still empty).
\<close>

definition branchsite_tags :: "string \<Rightarrow> (string \<times> real) list option" where
  "branchsite_tags content =
     (case (re_search branchsite_bg_pattern content, re_search branchsite_fg_pattern content) of
        (Some bg, Some fg) \<Rightarrow>
          (let bg_vals = py_split (py_strip bg); fg_vals = py_split (py_strip fg)
           in if bg_vals \<noteq> [] \<and> fg_vals \<noteq> []
              then (case (py_float (last bg_vals), py_float (last fg_vals)) of
                      (Some bg_omega, Some fg_omega) \<Rightarrow>
                        (let d1 = (case bg_omega of
                                     Number v \<Rightarrow> if in_bounds v then dict_set ''background'' v [] else []
                                   | NonFinite \<Rightarrow> []);
                             d2 = (case fg_omega of
                                     Number v \<Rightarrow> if in_bounds v then dict_set ''foreground'' v d1 else d1
                                   | NonFinite \<Rightarrow> d1)
                         in if d2 \<noteq> [] then Some d2 else None)
                    | _ \<Rightarrow> None)
              else None)
      | _ \<Rightarrow> None)"

text \<open>The values kept from the multi-value line: each token that parses and is in bounds or 999.\<close>

fun multi_values :: "string list \<Rightarrow> real list" where
  "multi_values [] = []"
| "multi_values (val_str # rest) =
     (case py_float val_str of
        Some (Number val) \<Rightarrow>
          if in_bounds val \<or> val = 999 then val # multi_values rest else multi_values rest
      | _ \<Rightarrow> multi_values rest)"

text \<open>\<^verbatim>\<open>for i, omega in enumerate(values, start): tag_omegas[f'#{i}'] = omega\<close>.\<close>

fun number_tags :: "nat \<Rightarrow> real list \<Rightarrow> (string \<times> real) list \<Rightarrow> (string \<times> real) list" where
  "number_tags i [] d = d"
| "number_tags i (omega # rest) d =
     number_tags (Suc i) rest (dict_set (CHR ''#'' # str_nat i) omega d)"

definition multi_tags :: "string \<Rightarrow> (string \<times> real) list option" where
  "multi_tags content =
     (case re_search multi_omega_pattern content of
        None \<Rightarrow> None
      | Some g \<Rightarrow>
          (let omega_values = multi_values (py_split (py_strip g))
           in if length omega_values \<ge> 2
              then Some (number_tags 1 (tl omega_values)
                           (dict_set ''background'' (hd omega_values) []))
              else if length omega_values = 1
              then Some (dict_set ''background'' (hd omega_values) [])
              else None))"

text \<open>
  The fallback groups the branch ratios by their text \<^verbatim>\<open>f"{omega:.6f}"\<close> and reads the
  text back with \<^verbatim>\<open>float\<close>. The text is represented by the ratio rounded to six decimals,
  together with the sign that distinguishes \<^verbatim>\<open>-0.000000\<close> from \<^verbatim>\<open>0.000000\<close>.
\<close>

definition six_decimals :: "real \<Rightarrow> bool \<times> real" where
  "six_decimals omega =
     (let r = real_of_int (round (omega * 10 ^ 6)) / 10 ^ 6 in (omega < 0 \<and> r = 0, r))"

fun unique_omega_keys :: "(string \<times> real) list \<Rightarrow> (bool \<times> real) list \<Rightarrow> (bool \<times> real) list" where
  "unique_omega_keys [] keys = keys"
| "unique_omega_keys ((branch, omega) # rest) keys =
     unique_omega_keys rest (set_add (six_decimals omega) keys)"

definition fallback_tags :: "text_file \<Rightarrow> (string \<times> real) list" where
  "fallback_tags f =
     (let branches_dict = extract_omega_by_branches f
      in if branches_dict \<noteq> []
         then (let unique_omegas = unique_omega_keys branches_dict [];
                   sorted_omegas = sort (map snd unique_omegas)
               in if length unique_omegas > 1
                  then number_tags 1 (tl sorted_omegas)
                         (dict_set ''background'' (hd sorted_omegas) [])
                  else dict_set ''background'' (snd (hd unique_omegas)) [])
         else [])"

definition extract_omega_by_tags :: "text_file \<Rightarrow> (string \<times> real) list" where
  "extract_omega_by_tags f =
     (case f of
        None \<Rightarrow> []
      | Some content \<Rightarrow>
          (case branchsite_tags content of
             Some tag_omegas \<Rightarrow> tag_omegas
           | None \<Rightarrow>
               (case multi_tags content of
                  Some tag_omegas \<Rightarrow> tag_omegas
                | None \<Rightarrow> fallback_tags f)))"







text \<open>
  Sample output texts used to run the extractors: a branch table in the layout the
  external program prints, built from the texts of its \<^verbatim>\<open>dN/dS\<close> column.
\<close>

definition table_row :: "string \<Rightarrow> string" where
  "table_row v =
     ''   4..1       0.010   100.0    50.0   '' @ v @ ''  0.001  0.002   0.1   0.1'' @ [CHR 0x0A]"

definition table_text :: "string list \<Rightarrow> string" where
  "table_text vals =
     ''dN & dS for each branch'' @ [CHR 0x0A, CHR 0x0A]
     @ '' branch          t       N       S   dN/dS      dN      dS  N*dN  S*dS'' @ [CHR 0x0A, CHR 0x0A]
     @ concat (map table_row vals)
     @ [CHR 0x0A] @ ''tree length for dN:       0.0339'' @ [CHR 0x0A]"

text \<open>
  A branch-site report: the site-class block, a labelled ratio line and a branch table.
\<close>

definition branch_site_text :: string where
  "branch_site_text =
     ''site class             0        1       2a       2b'' @ [CHR 0x0A]
     @ ''proportion       0.85000  0.10000  0.04000  0.01000'' @ [CHR 0x0A]
     @ ''background w     0.09233  1.00000  0.09233  1.00000'' @ [CHR 0x0A]
     @ ''foreground w     0.09233  1.00000  1.81018  1.81018'' @ [CHR 0x0A, CHR 0x0A]
     @ ''omega (w) for branches:  0.35052'' @ [CHR 0x0A, CHR 0x0A]
     @ table_text [''0.42'']"

subsection \<open>Python values and their text\<close>

text \<open>
  The values a configuration dictionary holds (the parameter editor stores an \<^verbatim>\<open>int\<close>, a
  \<^verbatim>\<open>float\<close> or the raw text) and \<^verbatim>\<open>None\<close>.
\<close>

datatype pyval = PyInt int | PyFloat real | PyStr string | PyNone

datatype py_error = KeyError string | TypeError | ZeroDivisionError | ValueError

text \<open>
  \<^verbatim>\<open>str(x)\<close> of a float is the shortest decimal text that reads back as the same float.
  For a float given by a short decimal literal that is the literal in positional
  notation with at least one digit after the point (\<^verbatim>\<open>1.0\<close>, \<^verbatim>\<open>0.5\<close>); this is what
  \<open>float_repr\<close> computes, up to 17 fraction digits. The exponent notation Python uses
  below \<open>10\<^sup>-\<^sup>4\<close> and from \<open>10\<^sup>1\<^sup>6\<close> on is not modelled.
\<close>

fun frac_digits :: "nat \<Rightarrow> real \<Rightarrow> string" where
  "frac_digits 0 f = []"
| "frac_digits (Suc n) f =
     (if f = 0 then []
      else (let d = \<lfloor>10 * f\<rfloor> in digit_char (nat d) # frac_digits n (10 * f - of_int d)))"

definition float_repr :: "real \<Rightarrow> string" where
  "float_repr x =
     (let a = \<bar>x\<bar>; ip = \<lfloor>a\<rfloor>; fr = frac_digits 17 (a - of_int ip)
      in (if x < 0 then ''-'' else []) @ str_pos ip @ ''.'' @ (if fr = [] then ''0'' else fr))"

fun py_str :: "pyval \<Rightarrow> string" where
  "py_str (PyInt i) = str_int i"
| "py_str (PyFloat x) = float_repr x"
| "py_str (PyStr s) = s"
| "py_str PyNone = ''None''"

text \<open>Truthiness, as \<^verbatim>\<open>if x\<close> tests it.\<close>

fun py_truthy :: "pyval \<Rightarrow> bool" where
  "py_truthy (PyInt i) = (i \<noteq> 0)"
| "py_truthy (PyFloat x) = (x \<noteq> 0)"
| "py_truthy (PyStr s) = (s \<noteq> [])"
| "py_truthy PyNone = False"

text \<open>
  \<^verbatim>\<open>f"{x:.nf}"\<close>: \<open>x\<close> rounded to \<open>n\<close> decimals, a tie going to the even neighbour (as
  Python rounds a float that lies exactly half way), printed with the sign of \<open>x\<close>.
\<close>

definition round_half_even :: "real \<Rightarrow> int" where
  "round_half_even y =
     (let f = \<lfloor>y\<rfloor>; r = y - of_int f
      in if r < 1 / 2 then f else if 1 / 2 < r then f + 1 else if even f then f else f + 1)"

definition zero_pad :: "nat \<Rightarrow> string \<Rightarrow> string" where
  "zero_pad n s = replicate (n - length s) (CHR ''0'') @ s"

definition format_fixed :: "nat \<Rightarrow> real \<Rightarrow> string" where
  "format_fixed n x =
     (let m = round_half_even (\<bar>x\<bar> * 10 ^ n)
      in (if x < 0 then ''-'' else []) @ str_pos (m div 10 ^ n)
         @ (if n = 0 then [] else CHR ''.'' # zero_pad n (str_pos (m mod 10 ^ n))))"

text \<open>\<^verbatim>\<open>d.get(k)\<close> on a dictionary kept as a list of pairs.\<close>

definition dict_get :: "('k \<times> 'v) list \<Rightarrow> 'k \<Rightarrow> 'v option" where
  "dict_get d k = map_of d k"

subsection \<open>\<^verbatim>\<open>generate_ctl_content\<close>\<close>

text \<open>
  \<^verbatim>\<open>MODEL_CONFIGS\<close>, without the descriptions, which no modelled code reads.
\<close>

definition model_profile :: "int \<Rightarrow> int \<Rightarrow> int \<Rightarrow> real \<Rightarrow> int \<Rightarrow> (string \<times> pyval) list" where
  "model_profile m ns fo om cf =
     [(''model'', PyInt m), (''NSsites'', PyInt ns), (''fix_omega'', PyInt fo),
      (''omega'', PyFloat om), (''CodonFreq'', PyInt cf)]"

definition MODEL_CONFIGS :: "(string \<times> (string \<times> pyval) list) list" where
  "MODEL_CONFIGS =
    [(''M0'', model_profile 0 0 0 0.5 2),
     (''M1a'', model_profile 0 1 0 0.5 2),
     (''M2a'', model_profile 0 2 0 0.5 2),
     (''M7'', model_profile 0 7 0 0.5 2),
     (''M8'', model_profile 0 8 0 0.5 2),
     (''Branch'', model_profile 2 0 0 0.5 2),
     (''Branch-site'', model_profile 2 2 0 0.5 7),
     (''Branch-site_null'', model_profile 2 2 1 1.0 7)]"

text \<open>Lines, each followed by a newline, joined into one text.\<close>

definition unlines :: "string list \<Rightarrow> string" where
  "unlines ls = concat (map (\<lambda>l. l @ [CHR 0x0A]) ls)"

text \<open>
  The template of the control file, line by line; the f-string turns each value into
  text where it stands. The two \<open>\<omega>\<close> of its comments are given by their UTF-8 bytes, as
  the file is written.
\<close>

definition ctl_template ::
  "string \<Rightarrow> string \<Rightarrow> string \<Rightarrow> int \<Rightarrow> pyval \<Rightarrow> pyval \<Rightarrow> pyval \<Rightarrow> pyval \<Rightarrow> pyval
   \<Rightarrow> string" where
  "ctl_template seqfile treefile outfile cleandata model NSsites CodonFreq fix_omega final_omega =
     unlines
      [''      seqfile = '' @ seqfile,
       ''     treefile = '' @ treefile,
       ''      outfile = '' @ outfile,
       ''   '',
       ''        noisy = 3              * How much rubbish on the screen'',
       ''      verbose = 1              * More or less detailed report'',
       ''      seqtype = 1              * Data type'',
       ''        ndata = 1              * Number of data sets or loci'',
       ''        icode = 0              * Genetic code '',
       ''    cleandata = '' @ str_int cleandata @ ''              * Remove sites with ambiguity data?'',
       [CHR 0x09, CHR 0x09],
       ''        model = '' @ py_str model @ ''         * Models for '' @ [CHR 0xCF, CHR 0x89] @ '' varying across lineages'',
       [CHR 0x09] @ ''  NSsites = '' @ py_str NSsites @ ''          * Models for '' @ [CHR 0xCF, CHR 0x89] @ '' varying across sites'',
       ''    CodonFreq = '' @ py_str CodonFreq @ ''        * Codon frequencies'',
       [CHR 0x09] @ ''  estFreq = 0              * Use observed freqs or estimate freqs by ML'',
       ''        clock = 0              * Clock model'',
       ''    fix_omega = '' @ py_str fix_omega @ ''         * Estimate or fix omega'',
       ''        omega = '' @ py_str final_omega @ ''        * Initial or fixed omega'']"

text \<open>
  A missing key of \<^verbatim>\<open>model_config\<close> raises \<^verbatim>\<open>KeyError\<close>; the keys are read in the order
  \<^verbatim>\<open>fix_omega\<close>, \<^verbatim>\<open>model\<close>, \<^verbatim>\<open>NSsites\<close>, \<^verbatim>\<open>CodonFreq\<close>.
\<close>

definition generate_ctl_content ::
  "string \<Rightarrow> string \<Rightarrow> string \<Rightarrow> (string \<times> pyval) list \<Rightarrow> real \<Rightarrow> int \<Rightarrow> string option
   \<Rightarrow> py_error + string" where
  "generate_ctl_content seqfile treefile outfile model_config omega cleandata model_name =
     (case dict_get model_config ''fix_omega'' of
        None \<Rightarrow> Inl (KeyError ''fix_omega'')
      | Some fo \<Rightarrow>
          (let neutral = (case model_name of None \<Rightarrow> False | Some n \<Rightarrow> n \<in> set NEUTRAL_MODELS);
               fix_omega = (if neutral then PyInt 1 else fo);
               final_omega = (if neutral then PyFloat 1.0 else PyFloat omega)
           in case dict_get model_config ''model'' of
                None \<Rightarrow> Inl (KeyError ''model'')
              | Some m \<Rightarrow>
                  (case dict_get model_config ''NSsites'' of
                     None \<Rightarrow> Inl (KeyError ''NSsites'')
                   | Some ns \<Rightarrow>
                       (case dict_get model_config ''CodonFreq'' of
                          None \<Rightarrow> Inl (KeyError ''CodonFreq'')
                        | Some cf \<Rightarrow>
                            Inr (ctl_template seqfile treefile outfile cleandata m ns cf
                                   fix_omega final_omega)))))"

text \<open>
  The configuration \<^verbatim>\<open>_run_single_analysis\<close> passes on: the catalogue entry of the model
  (an empty dictionary for an unknown model) with the caller's overrides for that model
  written over it.
\<close>

definition merged_config ::
  "(string \<times> (string \<times> pyval) list) list \<Rightarrow> string \<Rightarrow> (string \<times> pyval) list" where
  "merged_config custom_configs model_name =
     (let model_config = (case dict_get MODEL_CONFIGS model_name of None \<Rightarrow> [] | Some c \<Rightarrow> c)
      in case dict_get custom_configs model_name of
           None \<Rightarrow> model_config
         | Some overrides \<Rightarrow> fold (\<lambda>(k, v) c. dict_set k v c) overrides model_config)"

subsection \<open>One run: \<^verbatim>\<open>_run_single_analysis\<close>\<close>

text \<open>
  The outcome of a run as the batch stores it: the dictionary returned by
  \<^verbatim>\<open>_run_single_analysis\<close>. Its key \<^verbatim>\<open>results_file\<close> is an alias of \<^verbatim>\<open>output_file\<close>. The
  only values of \<^verbatim>\<open>status\<close> the source writes are \<^verbatim>\<open>success\<close> and \<^verbatim>\<open>partial\<close>.
\<close>

record run_result =
  res_output_file :: "string option"
  res_lnL :: "real option"
  res_np :: "int option"
  res_omega :: "real option"
  res_execution_time :: real
  res_status :: string
  res_stop_count :: nat

text \<open>\<^verbatim>\<open>for line in f\<close>: the lines of a text, each with its newline.\<close>

fun lines_keepends_from :: "string \<Rightarrow> string \<Rightarrow> string list" where
  "lines_keepends_from cur [] = (if cur = [] then [] else [rev cur])"
| "lines_keepends_from cur (c # cs) =
     (if c = CHR 0x0A then rev (c # cur) # lines_keepends_from [] cs
      else lines_keepends_from (c # cur) cs)"

definition file_lines :: "string \<Rightarrow> string list" where
  "file_lines content = lines_keepends_from [] content"

text \<open>\<^verbatim>\<open>_extract_likelihood\<close>: the three patterns, on the first line that one of them matches.\<close>

definition signed_decimal :: "rx_item list" where
  "signed_decimal =
     [GroupOpen, Opt (OneOf ''+-''), Rep Digit 1 True, One (Lit CHR ''.''), Rep Digit 1 True,
      GroupClose]"

definition lnL_patterns :: "rx_item list list" where
  "lnL_patterns =
    [lit ''lnL'' @ [Rep (NoneOf '':'') 0 True] @ lit '':'' @ [Rep Space 0 True] @ signed_decimal,
     lit ''lnL('' @ [Rep (NoneOf '')'') 0 True] @ lit ''):'' @ [Rep Space 0 True] @ signed_decimal,
     lit ''lnL'' @ [Rep Space 0 True, One (OneOf '':=''), Rep Space 0 True] @ signed_decimal]"

fun first_likelihood :: "rx_item list list \<Rightarrow> string \<Rightarrow> real option" where
  "first_likelihood [] line = None"
| "first_likelihood (pat # pats) line =
     (case re_search pat line of
        None \<Rightarrow> first_likelihood pats line
      | Some g \<Rightarrow>
          (case py_float g of
             Some (Number v) \<Rightarrow> Some v
           | _ \<Rightarrow> first_likelihood pats line))"

fun likelihood_of_lines :: "string list \<Rightarrow> real option" where
  "likelihood_of_lines [] = None"
| "likelihood_of_lines (line # rest) =
     (if py_in ''lnL'' line
      then (case first_likelihood lnL_patterns line of
              Some v \<Rightarrow> Some v
            | None \<Rightarrow> likelihood_of_lines rest)
      else likelihood_of_lines rest)"

definition extract_likelihood :: "text_file \<Rightarrow> real option" where
  "extract_likelihood f =
     (case f of None \<Rightarrow> None | Some content \<Rightarrow> likelihood_of_lines (file_lines content))"

text \<open>\<^verbatim>\<open>_extract_np\<close>.\<close>

definition np_pattern :: "rx_item list" where
  "np_pattern = lit ''np:'' @ [Rep Space 0 True, GroupOpen, Rep Digit 1 True, GroupClose]"

fun np_of_lines :: "string list \<Rightarrow> int option" where
  "np_of_lines [] = None"
| "np_of_lines (line # rest) =
     (if py_in ''lnL'' line \<and> py_in ''np:'' line
      then (case re_search np_pattern line of
              Some g \<Rightarrow> Some (int (digits_val g))
            | None \<Rightarrow> np_of_lines rest)
      else np_of_lines rest)"

definition extract_np :: "text_file \<Rightarrow> int option" where
  "extract_np f = (case f of None \<Rightarrow> None | Some content \<Rightarrow> np_of_lines (file_lines content))"

text \<open>
  What the batch is configured with: the keys of \<^verbatim>\<open>self.config\<close> that the modelled code
  reads. \<open>cfg_provided_ctl\<close> lists the models for which the caller supplied a control
  file that exists.
\<close>

record batch_config =
  cfg_models :: "string list"
  cfg_custom_model_params :: "(string \<times> (string \<times> pyval) list) list"
  cfg_omega :: "real option"
  cfg_cleandata :: int
  cfg_timeout :: int
  cfg_run_lrt :: bool
  cfg_tree_file :: string
  cfg_labeled_tree_content :: "string option"
  cfg_labeled_tree_branchsite :: "string option"
  cfg_provided_ctl :: "string list"

text \<open>
  What the outside world does in one run: how waiting for the external process ends, the
  lines the two reader threads have stored by then, the output file the process left (if
  any), the elapsed time, and the texts of the command and of the working directory that
  go to the log. \<open>ProcessError\<close> stands for any other exception raised between the
  creation of the working directory and the end of the run.
\<close>

datatype proc_outcome = Exited int | TimeoutExpired | ProcessError string

record process_run =
  pr_outcome :: proc_outcome
  pr_stdout :: "string list"
  pr_stderr :: "string list"
  pr_output :: text_file
  pr_elapsed :: real
  pr_command :: string
  pr_temp_dir :: string

record gene_file =
  gene_stem :: string
  gene_path :: string

text \<open>The tree file name written into the control file.\<close>

definition tree_filename :: "batch_config \<Rightarrow> string \<Rightarrow> string" where
  "tree_filename cfg model_name =
     (let labeled_full = cfg_labeled_tree_content cfg;
          labeled_branchsite = cfg_labeled_tree_branchsite cfg;
          full_truthy = (case labeled_full of None \<Rightarrow> False | Some t \<Rightarrow> t \<noteq> []);
          full_tagged = (case labeled_full of None \<Rightarrow> False
                         | Some t \<Rightarrow> t \<noteq> [] \<and> py_in ''#1'' t);
          labeled_content =
            (if startswith model_name ''BranchSite'' \<or> startswith model_name ''Branch-site''
             then (case labeled_branchsite of
                     Some t \<Rightarrow> t \<noteq> [] \<or> full_tagged
                   | None \<Rightarrow> full_tagged)
             else if model_name = ''Branch'' then full_truthy
             else False)
      in if labeled_content then ''labeled.nwk'' else cfg_tree_file cfg)"

text \<open>
  \<^verbatim>\<open>float(self.config.get('omega', model_config.get('omega', 0.5) or 0.5))\<close>.
\<close>

definition initial_omega :: "batch_config \<Rightarrow> (string \<times> pyval) list \<Rightarrow> py_error + real" where
  "initial_omega cfg model_config =
     (case cfg_omega cfg of
        Some w \<Rightarrow> Inr w
      | None \<Rightarrow>
          (let v = (case dict_get model_config ''omega'' of None \<Rightarrow> PyFloat 0.5 | Some v \<Rightarrow> v);
               v = (if py_truthy v then v else PyFloat 0.5)
           in case v of
                PyInt i \<Rightarrow> Inr (of_int i)
              | PyFloat x \<Rightarrow> Inr x
              | PyStr s \<Rightarrow> (case py_float s of Some (Number x) \<Rightarrow> Inr x | _ \<Rightarrow> Inl ValueError)
              | PyNone \<Rightarrow> Inl TypeError))"

text \<open>
  The control file of a run: the caller's file when there is one, otherwise the generated
  text. An exception here is logged and ends the run with \<^verbatim>\<open>None\<close>.
\<close>

definition make_ctl :: "batch_config \<Rightarrow> gene_file \<Rightarrow> string \<Rightarrow> py_error + unit" where
  "make_ctl cfg fas_file model_name =
     (if model_name \<in> set (cfg_provided_ctl cfg) then Inr ()
      else (let model_config = merged_config (cfg_custom_model_params cfg) model_name
            in case initial_omega cfg model_config of
                 Inl e \<Rightarrow> Inl e
               | Inr w \<Rightarrow>
                   (case generate_ctl_content (gene_path fas_file) (tree_filename cfg model_name)
                           (gene_stem fas_file @ ''_'' @ model_name @ ''_results.txt'')
                           model_config w (cfg_cleandata cfg) (Some model_name) of
                      Inl e \<Rightarrow> Inl e
                    | Inr ctl \<Rightarrow> Inr ())))"

fun error_text :: "py_error \<Rightarrow> string" where
  "error_text (KeyError k) = [CHR 0x27] @ k @ [CHR 0x27]"
| "error_text TypeError = ''TypeError''"
| "error_text ZeroDivisionError = ''division by zero''"
| "error_text ValueError = ''ValueError''"

text \<open>\<^verbatim>\<open>lines[-200:]\<close>.\<close>

definition last_lines :: "nat \<Rightarrow> string list \<Rightarrow> string list" where
  "last_lines n ls = drop (length ls - n) ls"

definition run_tag :: "string \<Rightarrow> string \<Rightarrow> string" where
  "run_tag model_name base_name = ''['' @ model_name @ ''] '' @ base_name @ '': ''"

text \<open>The lines appended to the log when the wait times out.\<close>

definition timeout_log :: "batch_config \<Rightarrow> string \<Rightarrow> string \<Rightarrow> process_run \<Rightarrow> string list" where
  "timeout_log cfg model_name base_name run =
     [run_tag model_name base_name @ ''TIMEOUT after '' @ str_int (cfg_timeout cfg) @ ''s'',
      ''  Captured stdout (last 200 lines):'']
     @ last_lines 200 (pr_stdout run)
     @ [''  Captured stderr (last 200 lines):'']
     @ last_lines 200 (pr_stderr run)"

definition returncode_log :: "string \<Rightarrow> string \<Rightarrow> process_run \<Rightarrow> int \<Rightarrow> string list" where
  "returncode_log model_name base_name run rc =
     [run_tag model_name base_name @ ''process returncode='' @ str_int rc]
     @ (if pr_stdout run \<noteq> [] then ''  stdout (last 200 lines):'' # last_lines 200 (pr_stdout run)
        else [])
     @ (if pr_stderr run \<noteq> [] then ''  stderr (last 200 lines):'' # last_lines 200 (pr_stderr run)
        else [])
     @ (if rc \<noteq> 0
        then [run_tag model_name base_name @ ''Non-zero return code '' @ str_int rc]
        else [])"

text \<open>
  The line \<^verbatim>\<open>FINISHED (...)\<close> that closes the log of every run that was waited for to its
  end; \<^verbatim>\<open>None\<close> is printed for a value that was not found.
\<close>

definition optional_text :: "('a \<Rightarrow> string) \<Rightarrow> 'a option \<Rightarrow> string" where
  "optional_text show_value v = (case v of None \<Rightarrow> ''None'' | Some x \<Rightarrow> show_value x)"

definition finished_log ::
  "string \<Rightarrow> string \<Rightarrow> real option \<Rightarrow> int option \<Rightarrow> real option \<Rightarrow> real \<Rightarrow> nat
   \<Rightarrow> string" where
  "finished_log model_name base_name lnL np_params omega execution_time stop_count =
     run_tag model_name base_name @ ''FINISHED (lnL='' @ optional_text float_repr lnL
     @ '', np='' @ optional_text str_int np_params
     @ '', '' @ [CHR 0xCF, CHR 0x89] @ ''='' @ optional_text float_repr omega
     @ '', time='' @ format_fixed 1 execution_time @ ''s, stop_count='' @ str_nat stop_count
     @ '')''"

text \<open>
  \<^verbatim>\<open>_run_single_analysis\<close>: the result (\<^verbatim>\<open>None\<close> or the dictionary) and the lines appended
  to the log. Left out of the log are: the warnings about the working directory and about
  a control file that was not found, the messages of the prompt handling
  (\<^verbatim>\<open>Detected prompt line\<close>, the sending of Enter), the lines \<^verbatim>\<open>Failed to move\<close>, the block
  \<^verbatim>\<open>Stop details\<close> after the \<^verbatim>\<open>FINISHED\<close> line, the traceback after the \<^verbatim>\<open>EXCEPTION\<close> line,
  and the clean-up warnings. For a run that ends in another exception only the
  \<^verbatim>\<open>EXCEPTION\<close> line is kept. None of these bears on the result.
\<close>

definition run_single_analysis ::
  "batch_config \<Rightarrow> process_run \<Rightarrow> gene_file \<Rightarrow> string \<Rightarrow> run_result option \<times> string list" where
  "run_single_analysis cfg run fas_file model_name =
     (let base_name = gene_stem fas_file
      in case make_ctl cfg fas_file model_name of
           Inl e \<Rightarrow>
             (None, [''ERROR creating .ctl ['' @ model_name @ ''] '' @ base_name @ '': ''
                      @ error_text e])
         | Inr _ \<Rightarrow>
             (case pr_outcome run of
                ProcessError msg \<Rightarrow>
                  (None, [run_tag model_name base_name @ ''EXCEPTION - '' @ msg])
              | TimeoutExpired \<Rightarrow>
                  (None,
                   [run_tag model_name base_name @ ''Running command: '' @ pr_command run
                      @ '' in '' @ pr_temp_dir run]
                   @ timeout_log cfg model_name base_name run)
              | Exited rc \<Rightarrow>
                  (let output_exists = (pr_output run \<noteq> None);
                       output_path = ''results/'' @ model_name @ ''/'' @ base_name @ ''_''
                                     @ model_name @ ''_results.txt'';
                       lnL = (if output_exists then extract_likelihood (pr_output run) else None);
                       np_params = (if output_exists then extract_np (pr_output run) else None);
                       omega = (if output_exists then extract_omega_robust (pr_output run)
                                else None);
                       stop_count = length (filter detected_prompt (pr_stdout run @ pr_stderr run))
                   in (Some \<lparr>res_output_file = (if output_exists then Some output_path else None),
                             res_lnL = lnL, res_np = np_params, res_omega = omega,
                             res_execution_time = pr_elapsed run,
                             res_status = (if rc = 0 \<and> output_exists then ''success''
                                           else ''partial''),
                             res_stop_count = stop_count\<rparr>,
                       [run_tag model_name base_name @ ''Running command: '' @ pr_command run
                          @ '' in '' @ pr_temp_dir run]
                       @ returncode_log model_name base_name run rc
                       @ (if output_exists then []
                          else [run_tag model_name base_name
                                @ ''expected output file not found: '' @ output_path])
                       @ [finished_log model_name base_name lnL np_params omega
                            (pr_elapsed run) stop_count]))))"

subsection \<open>The batch: \<^verbatim>\<open>run_batch_analysis\<close>\<close>

text \<open>
  The world of a batch gives the run of every (gene, model) pair. The results are the
  dictionary \<^verbatim>\<open>self.results\<close>: gene \<open>\<rightarrow>\<close> (model \<open>\<rightarrow>\<close> result); a run that returned \<^verbatim>\<open>None\<close>
  leaves no entry.
\<close>

type_synonym gene_results = "(string \<times> run_result) list"

type_synonym batch_results = "(string \<times> gene_results) list"

fun run_models ::
  "batch_config \<Rightarrow> (string \<Rightarrow> string \<Rightarrow> process_run) \<Rightarrow> gene_file \<Rightarrow> string list
   \<Rightarrow> gene_results \<times> string list \<Rightarrow> gene_results \<times> string list" where
  "run_models cfg world fas_file [] (gene_res, logf) = (gene_res, logf)"
| "run_models cfg world fas_file (model_name # rest) (gene_res, logf) =
     (case run_single_analysis cfg (world (gene_stem fas_file) model_name) fas_file model_name of
        (None, lines) \<Rightarrow> run_models cfg world fas_file rest (gene_res, logf @ lines)
      | (Some result, lines) \<Rightarrow>
          run_models cfg world fas_file rest (dict_set model_name result gene_res, logf @ lines))"

fun run_genes ::
  "batch_config \<Rightarrow> (string \<Rightarrow> string \<Rightarrow> process_run) \<Rightarrow> gene_file list
   \<Rightarrow> batch_results \<times> string list \<Rightarrow> batch_results \<times> string list" where
  "run_genes cfg world [] (results, logf) = (results, logf)"
| "run_genes cfg world (fas_file # rest) (results, logf) =
     (case run_models cfg world fas_file (cfg_models cfg) ([], logf) of
        (gene_res, logf') \<Rightarrow>
          run_genes cfg world rest (dict_set (gene_stem fas_file) gene_res results, logf'))"

subsection \<open>The summary table: \<^verbatim>\<open>_save_summary\<close>\<close>

text \<open>
  The likelihood-ratio columns of the summary, as (null model, alternative model, column
  name); the source computes this list twice, for the header and for every row.
\<close>

definition summary_lrt_columns :: "string list \<Rightarrow> (string \<times> string \<times> string) list" where
  "summary_lrt_columns selected_models =
     (if ''M0'' \<in> set selected_models \<and> ''M1a'' \<in> set selected_models
      then [(''M0'', ''M1a'', ''lrt_M0_vs_M1a'')] else [])
     @ (if ''M1a'' \<in> set selected_models \<and> ''M2a'' \<in> set selected_models
        then [(''M1a'', ''M2a'', ''lrt_M1a_vs_M2a'')] else [])
     @ (if ''M7'' \<in> set selected_models \<and> ''M8'' \<in> set selected_models
        then [(''M7'', ''M8'', ''lrt_M7_vs_M8'')] else [])
     @ (if ''M0'' \<in> set selected_models \<and> ''Branch'' \<in> set selected_models
        then [(''M0'', ''Branch'', ''lrt_M0_vs_Branch'')] else [])
     @ (if (''BranchSite_A_null'' \<in> set selected_models \<and> ''BranchSite_A'' \<in> set selected_models)
           \<or> (''Branch-site_null'' \<in> set selected_models \<and> ''Branch-site'' \<in> set selected_models)
        then (if ''Branch-site_null'' \<in> set selected_models \<and> ''Branch-site'' \<in> set selected_models
              then [(''Branch-site_null'', ''Branch-site'', ''lrt_Branch-site_null_vs_Branch-site'')]
              else [(''BranchSite_A_null'', ''BranchSite_A'',
                     ''lrt_BranchSite_A_null_vs_BranchSite_A'')])
        else [])"

definition model_columns :: "string \<Rightarrow> string list" where
  "model_columns model =
     [model @ ''_lnL'', model @ ''_np'', model @ ''_omega'', model @ ''_time'', model @ ''_stops'']"

definition summary_header :: "string list \<Rightarrow> string list" where
  "summary_header selected_models =
     ''Gene'' # concat (map model_columns selected_models)
     @ map (\<lambda>(null_model, alt_model, column). column) (summary_lrt_columns selected_models)"

text \<open>\<^verbatim>\<open>str(v).replace('\n', '').replace('\r', '')\<close>.\<close>

definition clean_cell :: "string \<Rightarrow> string" where
  "clean_cell s = filter (\<lambda>c. c \<noteq> CHR 0x0D) (filter (\<lambda>c. c \<noteq> CHR 0x0A) s)"

text \<open>
  The five cells of one (gene, model) pair. \<open>read_file\<close> gives the text of a results
  file, which the writer reads again when the result holds no ratio.
\<close>

definition model_cells :: "(string \<Rightarrow> text_file) \<Rightarrow> gene_results \<Rightarrow> string \<Rightarrow> string list" where
  "model_cells read_file gene_res model =
     (case dict_get gene_res model of
        None \<Rightarrow> [''NA'', ''NA'', ''NA'', ''NA'', ''0'']
      | Some result \<Rightarrow>
          (let omega_value =
                 (case res_omega result of
                    Some w \<Rightarrow> Some w
                  | None \<Rightarrow>
                      (case res_output_file result of
                         None \<Rightarrow> None
                       | Some results_file \<Rightarrow>
                           if results_file \<noteq> [] then extract_omega_robust (read_file results_file)
                           else None))
           in [(case res_lnL result of
                  None \<Rightarrow> ''NA''
                | Some l \<Rightarrow> if l \<noteq> 0 then format_fixed 6 l else ''NA''),
               (case res_np result of None \<Rightarrow> ''None'' | Some n \<Rightarrow> str_int n),
               (case omega_value of None \<Rightarrow> ''NA'' | Some w \<Rightarrow> format_fixed 6 w),
               format_fixed 2 (res_execution_time result),
               str_nat (res_stop_count result)]))"

definition summary_lrt_cell :: "gene_results \<Rightarrow> string \<times> string \<times> string \<Rightarrow> string" where
  "summary_lrt_cell gene_res comparison =
     (case comparison of
        (null_model, alt_model, column) \<Rightarrow>
          (case (dict_get gene_res null_model, dict_get gene_res alt_model) of
             (Some null_res, Some alt_res) \<Rightarrow>
               (case (res_lnL null_res, res_lnL alt_res) of
                  (Some null_lnL, Some alt_lnL) \<Rightarrow> format_fixed 6 (2 * (alt_lnL - null_lnL))
                | _ \<Rightarrow> ''NA'')
           | _ \<Rightarrow> ''NA''))"

definition summary_row ::
  "(string \<Rightarrow> text_file) \<Rightarrow> string list \<Rightarrow> string \<Rightarrow> gene_results \<Rightarrow> string list" where
  "summary_row read_file selected_models gene_name gene_res =
     map clean_cell
       (clean_cell gene_name
        # concat (map (model_cells read_file gene_res) selected_models)
        @ map (summary_lrt_cell gene_res) (summary_lrt_columns selected_models))"

text \<open>The rows of \<^verbatim>\<open>analysis_summary.tsv\<close>: the header, then one row per gene in sorted order.\<close>

definition save_summary ::
  "(string \<Rightarrow> text_file) \<Rightarrow> batch_config \<Rightarrow> batch_results \<Rightarrow> string list list" where
  "save_summary read_file cfg results =
     summary_header (cfg_models cfg)
     # map (\<lambda>gene_name.
              summary_row read_file (cfg_models cfg) gene_name
                (case dict_get results gene_name of None \<Rightarrow> [] | Some gene_res \<Rightarrow> gene_res))
         (sort (map fst results))"

subsection \<open>Likelihood-ratio tests\<close>

text \<open>
  \<^verbatim>\<open>scipy.stats.chi2.cdf\<close> is a parameter \<open>cdf\<close> of the functions below. Each reported
  comparison is an entry; the tally of a comparison holds its entries and the three
  counters of the source.
\<close>

record lrt_entry =
  le_gene :: string
  le_lnL_null :: real
  le_lnL_alt :: real
  le_stat :: real
  le_df :: int
  le_p_value :: real

record lrt_tally =
  lt_entries :: "lrt_entry list"
  lt_total_valid :: nat
  lt_sig_count_05 :: nat
  lt_sig_count_01 :: nat

definition empty_tally :: lrt_tally where
  "empty_tally = \<lparr>lt_entries = [], lt_total_valid = 0, lt_sig_count_05 = 0, lt_sig_count_01 = 0\<rparr>"

text \<open>The statements after the validity test: count the gene and write its result.\<close>

definition tally_add :: "lrt_entry \<Rightarrow> lrt_tally \<Rightarrow> lrt_tally" where
  "tally_add e t =
     \<lparr>lt_entries = lt_entries t @ [e],
      lt_total_valid = lt_total_valid t + 1,
      lt_sig_count_05 = lt_sig_count_05 t + (if le_p_value e < 0.05 then 1 else 0),
      lt_sig_count_01 = lt_sig_count_01 t + (if le_p_value e < 0.01 then 1 else 0)\<rparr>"

text \<open>The line \<^verbatim>\<open>Result:\<close> written for an entry.\<close>

datatype verdict = Significant01 | Significant05 | NoSignificantDifference

definition entry_verdict :: "lrt_entry \<Rightarrow> verdict" where
  "entry_verdict e =
     (if le_p_value e < 0.01 then Significant01
      else if le_p_value e < 0.05 then Significant05
      else NoSignificantDifference)"

text \<open>\<^verbatim>\<open>_run_lrt_analysis\<close>, the live analysis over \<^verbatim>\<open>self.results\<close>.\<close>

definition live_comparisons :: "string list \<Rightarrow> (string \<times> string) list" where
  "live_comparisons selected_models =
     (if ''M0'' \<in> set selected_models \<and> ''M1a'' \<in> set selected_models
      then [(''M0'', ''M1a'')] else [])
     @ (if ''M1a'' \<in> set selected_models \<and> ''M2a'' \<in> set selected_models
        then [(''M1a'', ''M2a'')] else [])
     @ (if ''M7'' \<in> set selected_models \<and> ''M8'' \<in> set selected_models
        then [(''M7'', ''M8'')] else [])
     @ (if ''M0'' \<in> set selected_models \<and> ''Branch'' \<in> set selected_models
        then [(''M0'', ''Branch'')] else [])
     @ (if ''BranchSite_A_null'' \<in> set selected_models \<and> ''BranchSite_A'' \<in> set selected_models
        then [(''BranchSite_A_null'', ''BranchSite_A'')] else [])"

text \<open>
  One gene of one comparison. A parameter count that is \<^verbatim>\<open>None\<close> makes the subtraction
  raise \<^verbatim>\<open>TypeError\<close>, which nothing in the analysis catches.
\<close>

definition lrt_live_gene ::
  "(real \<Rightarrow> int \<Rightarrow> real) \<Rightarrow> string \<Rightarrow> string \<Rightarrow> string \<Rightarrow> gene_results \<Rightarrow> lrt_tally
   \<Rightarrow> py_error + lrt_tally" where
  "lrt_live_gene cdf null_model alt_model gene_name gene_res tally =
     (case (dict_get gene_res null_model, dict_get gene_res alt_model) of
        (Some null_res, Some alt_res) \<Rightarrow>
          (case (res_lnL null_res, res_lnL alt_res) of
             (Some lnL_null, Some lnL_alt) \<Rightarrow>
               (let lrt_stat = 2 * (lnL_alt - lnL_null)
                in case (res_np alt_res, res_np null_res) of
                     (Some np_alt, Some np_null) \<Rightarrow>
                       (let df = \<bar>np_alt - np_null\<bar>
                        in if df = 0 \<or> lrt_stat < 0 then Inr tally
                           else (let p_value = 1 - cdf lrt_stat df
                                 in Inr (tally_add
                                           \<lparr>le_gene = gene_name, le_lnL_null = lnL_null,
                                            le_lnL_alt = lnL_alt, le_stat = lrt_stat, le_df = df,
                                            le_p_value = p_value\<rparr> tally)))
                   | _ \<Rightarrow> Inl TypeError)
           | _ \<Rightarrow> Inr tally)
      | _ \<Rightarrow> Inr tally)"

fun lrt_live_genes ::
  "(real \<Rightarrow> int \<Rightarrow> real) \<Rightarrow> string \<Rightarrow> string \<Rightarrow> batch_results \<Rightarrow> string list \<Rightarrow> lrt_tally
   \<Rightarrow> py_error + lrt_tally" where
  "lrt_live_genes cdf null_model alt_model results [] tally = Inr tally"
| "lrt_live_genes cdf null_model alt_model results (gene_name # rest) tally =
     (case lrt_live_gene cdf null_model alt_model gene_name
             (case dict_get results gene_name of None \<Rightarrow> [] | Some gene_res \<Rightarrow> gene_res) tally of
        Inl e \<Rightarrow> Inl e
      | Inr tally' \<Rightarrow> lrt_live_genes cdf null_model alt_model results rest tally')"

text \<open>
  After the genes of a comparison its summary divides by \<^verbatim>\<open>total_valid\<close>; with no valid
  gene that raises \<^verbatim>\<open>ZeroDivisionError\<close>.
\<close>

definition lrt_live_comparison ::
  "(real \<Rightarrow> int \<Rightarrow> real) \<Rightarrow> batch_results \<Rightarrow> string \<times> string \<Rightarrow> py_error + lrt_tally" where
  "lrt_live_comparison cdf results comparison =
     (case comparison of
        (null_model, alt_model) \<Rightarrow>
          (case lrt_live_genes cdf null_model alt_model results (sort (map fst results))
                  empty_tally of
             Inl e \<Rightarrow> Inl e
           | Inr tally \<Rightarrow> if lt_total_valid tally = 0 then Inl ZeroDivisionError else Inr tally))"

fun lrt_live_all ::
  "(real \<Rightarrow> int \<Rightarrow> real) \<Rightarrow> batch_results \<Rightarrow> (string \<times> string) list
   \<Rightarrow> py_error + ((string \<times> string) \<times> lrt_tally) list" where
  "lrt_live_all cdf results [] = Inr []"
| "lrt_live_all cdf results (comparison # rest) =
     (case lrt_live_comparison cdf results comparison of
        Inl e \<Rightarrow> Inl e
      | Inr tally \<Rightarrow>
          (case lrt_live_all cdf results rest of
             Inl e \<Rightarrow> Inl e
           | Inr reports \<Rightarrow> Inr ((comparison, tally) # reports)))"

definition run_lrt_analysis ::
  "(real \<Rightarrow> int \<Rightarrow> real) \<Rightarrow> batch_config \<Rightarrow> batch_results
   \<Rightarrow> py_error + ((string \<times> string) \<times> lrt_tally) list" where
  "run_lrt_analysis cdf cfg results =
     lrt_live_all cdf results (live_comparisons (cfg_models cfg))"

text \<open>
  \<^verbatim>\<open>run_batch_analysis\<close> after the set-up: the loop over the genes (the sorted \<^verbatim>\<open>.fas\<close>
  files) and the models, then the summary table, then the likelihood-ratio tests when
  they are switched on and more than one model is selected. An exception of the last
  step is not caught: it ends the batch.
\<close>

definition run_batch_analysis ::
  "(real \<Rightarrow> int \<Rightarrow> real) \<Rightarrow> (string \<Rightarrow> text_file) \<Rightarrow> batch_config
   \<Rightarrow> (string \<Rightarrow> string \<Rightarrow> process_run) \<Rightarrow> gene_file list
   \<Rightarrow> py_error + (batch_results \<times> string list list \<times> ((string \<times> string) \<times> lrt_tally) list)" where
  "run_batch_analysis cdf read_file cfg world fas_files =
     (case run_genes cfg world fas_files ([], []) of
        (results, logf) \<Rightarrow>
          (let summary = save_summary read_file cfg results
           in if cfg_run_lrt cfg \<and> length (cfg_models cfg) > 1
              then (case run_lrt_analysis cdf cfg results of
                      Inl e \<Rightarrow> Inl e
                    | Inr reports \<Rightarrow> Inr (results, summary, reports))
              else Inr (results, summary, [])))"

text \<open>
  \<^verbatim>\<open>_regenerate_lrt_results\<close>, the report rebuilt from a results folder. The scan of the
  folder gives the models and the genes found; \<open>read\<close> gives the text of a file of a model
  folder, \<^term>\<open>None\<close> when there is no such file. The degrees of freedom are constants of
  the comparison table.
\<close>

definition regen_comparisons :: "string list \<Rightarrow> (string \<times> string \<times> int) list" where
  "regen_comparisons models =
     (if ''M0'' \<in> set models \<and> ''M1a'' \<in> set models then [(''M0'', ''M1a'', 1)] else [])
     @ (if ''M1a'' \<in> set models \<and> ''M2a'' \<in> set models then [(''M1a'', ''M2a'', 1)] else [])
     @ (if ''M7'' \<in> set models \<and> ''M8'' \<in> set models then [(''M7'', ''M8'', 1)] else [])
     @ (if ''M0'' \<in> set models \<and> ''Branch'' \<in> set models then [(''M0'', ''Branch'', 1)] else [])
     @ (if ''Branch-site_null'' \<in> set models \<and> ''Branch-site'' \<in> set models
        then [(''Branch-site_null'', ''Branch-site'', 2)] else [])"

definition reverse_mapping :: "(string \<times> string) list" where
  "reverse_mapping =
     [(''Branch-site'', ''BranchSite_A''), (''Branch-site_null'', ''BranchSite_A_null'')]"

definition folder_of :: "string \<Rightarrow> string" where
  "folder_of model = (case map_of reverse_mapping model of None \<Rightarrow> model | Some folder \<Rightarrow> folder)"

definition lnL_regen_pattern :: "rx_item list" where
  "lnL_regen_pattern =
     lit ''lnL('' @ [Rep AnyChar 0 False] @ lit ''):''
     @ [Rep Space 1 True, GroupOpen, Rep MinusDigitDot 1 True, GroupClose]"

text \<open>
  One gene of one comparison. A captured text that \<^verbatim>\<open>float\<close> rejects raises inside the
  \<^verbatim>\<open>try\<close>, and the gene is passed over.
\<close>

definition regen_lrt_gene ::
  "(real \<Rightarrow> int \<Rightarrow> real) \<Rightarrow> (string \<Rightarrow> string \<Rightarrow> text_file) \<Rightarrow> string \<times> string \<times> int
   \<Rightarrow> string \<Rightarrow> lrt_tally \<Rightarrow> lrt_tally" where
  "regen_lrt_gene cdf read comparison gene tally =
     (case comparison of
        (null_model, alt_model, df) \<Rightarrow>
          (let null_folder = folder_of null_model;
               alt_folder = folder_of alt_model
           in case (read null_folder (gene @ ''_'' @ null_folder @ ''_results.txt''),
                    read alt_folder (gene @ ''_'' @ alt_folder @ ''_results.txt'')) of
                (Some null_content, Some alt_content) \<Rightarrow>
                  (case (re_search lnL_regen_pattern null_content,
                         re_search lnL_regen_pattern alt_content) of
                     (Some null_text, Some alt_text) \<Rightarrow>
                       (case (py_float null_text, py_float alt_text) of
                          (Some (Number lnL_null), Some (Number lnL_alt)) \<Rightarrow>
                            (let lrt_stat = 2 * (lnL_alt - lnL_null);
                                 p_value = 1 - cdf lrt_stat df
                             in tally_add
                                  \<lparr>le_gene = gene, le_lnL_null = lnL_null, le_lnL_alt = lnL_alt,
                                   le_stat = lrt_stat, le_df = df, le_p_value = p_value\<rparr> tally)
                        | _ \<Rightarrow> tally)
                   | _ \<Rightarrow> tally)
              | _ \<Rightarrow> tally))"

definition regenerate_lrt_results ::
  "(real \<Rightarrow> int \<Rightarrow> real) \<Rightarrow> (string \<Rightarrow> string \<Rightarrow> text_file) \<Rightarrow> string list \<Rightarrow> string list
   \<Rightarrow> ((string \<times> string \<times> int) \<times> lrt_tally) list" where
  "regenerate_lrt_results cdf read models genes =
     map (\<lambda>comparison.
            (comparison,
             fold (regen_lrt_gene cdf read comparison) (sort genes) empty_tally))
         (regen_comparisons models)"

text \<open>
  The likelihood-ratio columns of \<^verbatim>\<open>_regenerate_analysis_summary\<close>, computed on the row of
  one gene: a dictionary from column names to values. Arithmetic on values that are not
  numbers raises \<^verbatim>\<open>TypeError\<close>.
\<close>

definition regen_lrt_pairs :: "(string \<times> string \<times> string) list" where
  "regen_lrt_pairs =
     [(''M0'', ''M1a'', ''lrt_M0_vs_M1a''),
      (''M1a'', ''M2a'', ''lrt_M1a_vs_M2a''),
      (''M7'', ''M8'', ''lrt_M7_vs_M8''),
      (''M0'', ''Branch'', ''lrt_M0_vs_Branch''),
      (''Branch-site_null'', ''Branch-site'', ''lrt_Branch-site_null_vs_Branch-site'')]"

fun twice_difference :: "pyval \<Rightarrow> pyval \<Rightarrow> py_error + pyval" where
  "twice_difference (PyInt a) (PyInt b) = Inr (PyInt (2 * (a - b)))"
| "twice_difference (PyInt a) (PyFloat b) = Inr (PyFloat (2 * (of_int a - b)))"
| "twice_difference (PyFloat a) (PyInt b) = Inr (PyFloat (2 * (a - of_int b)))"
| "twice_difference (PyFloat a) (PyFloat b) = Inr (PyFloat (2 * (a - b)))"
| "twice_difference _ _ = Inl TypeError"

definition regen_lrt_column ::
  "string \<times> string \<times> string \<Rightarrow> (string \<times> pyval) list \<Rightarrow> py_error + (string \<times> pyval) list" where
  "regen_lrt_column comparison row =
     (case comparison of
        (null_model, alt_model, column) \<Rightarrow>
          (case (dict_get row (null_model @ ''_lnL''), dict_get row (alt_model @ ''_lnL'')) of
             (Some null_lnL, Some alt_lnL) \<Rightarrow>
               if py_truthy null_lnL \<and> py_truthy alt_lnL
               then (case twice_difference alt_lnL null_lnL of
                       Inl e \<Rightarrow> Inl e
                     | Inr lrt \<Rightarrow> Inr (dict_set column lrt row))
               else Inr row
           | _ \<Rightarrow> Inr row))"

fun regen_lrt_columns ::
  "(string \<times> string \<times> string) list \<Rightarrow> (string \<times> pyval) list
   \<Rightarrow> py_error + (string \<times> pyval) list" where
  "regen_lrt_columns [] row = Inr row"
| "regen_lrt_columns (comparison # rest) row =
     (case regen_lrt_column comparison row of
        Inl e \<Rightarrow> Inl e
      | Inr row' \<Rightarrow> regen_lrt_columns rest row')"

subsection \<open>Sample batch inputs\<close>

text \<open>
  A configuration as the graphical front end builds it, one gene, a run whose wait times
  out, and a results folder with the reports of two nested models.
\<close>

definition sample_config :: batch_config where
  "sample_config =
     \<lparr>cfg_models = [''M0'', ''M1a''], cfg_custom_model_params = [], cfg_omega = Some 0.5,
      cfg_cleandata = 1, cfg_timeout = 1600, cfg_run_lrt = True, cfg_tree_file = ''tree.nwk'',
      cfg_labeled_tree_content = None, cfg_labeled_tree_branchsite = None,
      cfg_provided_ctl = []\<rparr>"

definition sample_gene :: gene_file where
  "sample_gene = \<lparr>gene_stem = ''g1'', gene_path = ''/data/g1.fas''\<rparr>"

definition timed_out_run :: process_run where
  "timed_out_run =
     \<lparr>pr_outcome = TimeoutExpired, pr_stdout = [''CODONML in paml'', ''Iterating''],
      pr_stderr = [], pr_output = None, pr_elapsed = 1600,
      pr_command = ''codeml'', pr_temp_dir = ''temp_g1''\<rparr>"

definition sample_report :: "string \<Rightarrow> string \<Rightarrow> string" where
  "sample_report np_text lnL_text =
     ''lnL(ntime: 10  np: '' @ np_text @ ''):   '' @ lnL_text @ ''      +0.000000'' @ [CHR 0x0A]"

definition sample_disk :: "string \<Rightarrow> string \<Rightarrow> text_file" where
  "sample_disk folder name =
     (if folder = ''M0'' \<and> name = ''g1_M0_results.txt''
      then Some (sample_report ''12'' ''-100.000000'')
      else if folder = ''M1a'' \<and> name = ''g1_M1a_results.txt''
      then Some (sample_report ''13'' ''-105.000000'')
      else None)"

definition sample_result :: "real \<Rightarrow> int \<Rightarrow> run_result" where
  "sample_result l n =
     \<lparr>res_output_file = Some ''out.txt'', res_lnL = Some l, res_np = Some n, res_omega = Some 0.5,
      res_execution_time = 12.5, res_status = ''success'', res_stop_count = 0\<rparr>"

text \<open>A run that ends normally and leaves the report of \<^verbatim>\<open>M0\<close>.\<close>

definition finished_run :: process_run where
  "finished_run =
     \<lparr>pr_outcome = Exited 0, pr_stdout = [''CODONML in paml''], pr_stderr = [],
      pr_output = Some (sample_report ''12'' ''-100.000000''), pr_elapsed = 12.5,
      pr_command = ''codeml'', pr_temp_dir = ''temp_g1''\<rparr>"

subsection \<open>Rows of the rebuilt summary\<close>

text \<open>
  \<^verbatim>\<open>_regenerate_analysis_summary\<close> builds the row of a gene from the result files of its
  models. What it stores for one model: the log-likelihood, the parameter count, the
  ratio and the time, each \<^verbatim>\<open>None\<close> when not found, and the count of \<^verbatim>\<open>***\<close>. A file
  whose reading raises stores nothing. The site-class data of a branch-site model, which
  the likelihood-ratio columns do not read, are left out.
\<close>

record model_scan =
  ms_lnL :: "real option"
  ms_np :: "int option"
  ms_omega :: "real option"
  ms_time :: "int option"
  ms_stops :: nat

definition store_scan ::
  "string \<Rightarrow> model_scan \<Rightarrow> (string \<times> pyval) list \<Rightarrow> (string \<times> pyval) list" where
  "store_scan model s row =
     dict_set (model @ ''_stops'') (PyInt (int (ms_stops s)))
       (dict_set (model @ ''_time'') (case ms_time s of None \<Rightarrow> PyNone | Some t \<Rightarrow> PyInt t)
          (dict_set (model @ ''_omega'') (case ms_omega s of None \<Rightarrow> PyNone | Some w \<Rightarrow> PyFloat w)
             (dict_set (model @ ''_np'') (case ms_np s of None \<Rightarrow> PyNone | Some n \<Rightarrow> PyInt n)
                (dict_set (model @ ''_lnL'')
                   (case ms_lnL s of None \<Rightarrow> PyNone | Some l \<Rightarrow> PyFloat l) row))))"

text \<open>
  The row of a gene: it starts as \<^verbatim>\<open>{'Gene': gene_name}\<close> and receives the scans of the
  gene's models in the order of the model loop.
\<close>

definition scanned_row :: "string \<Rightarrow> (string \<times> model_scan) list \<Rightarrow> (string \<times> pyval) list" where
  "scanned_row gene_name scans =
     fold (\<lambda>(model, s). store_scan model s) scans [(''Gene'', PyStr gene_name)]"

text \<open>The names of the likelihood-ratio columns that a list of comparisons writes.\<close>

definition regen_columns :: "(string \<times> string \<times> string) list \<Rightarrow> string list" where
  "regen_columns cs = map (\<lambda>(null_model, alt_model, column). column) cs"

text \<open>
  The property of a row on which the likelihood-ratio columns rely: a key that ends in
  \<^verbatim>\<open>_lnL\<close> holds a float or \<^verbatim>\<open>None\<close>.
\<close>

fun is_float_or_none :: "pyval \<Rightarrow> bool" where
  "is_float_or_none (PyFloat x) = True"
| "is_float_or_none PyNone = True"
| "is_float_or_none _ = False"

definition endswith :: "string \<Rightarrow> string \<Rightarrow> bool" where
  "endswith s suffix = (length suffix \<le> length s \<and> drop (length s - length suffix) s = suffix)"

definition lnL_values_numeric :: "(string \<times> pyval) list \<Rightarrow> bool" where
  "lnL_values_numeric row =
     list_all (\<lambda>(k, v). endswith k ''_lnL'' \<longrightarrow> is_float_or_none v) row"

text \<open>The keys that the scan of one model writes.\<close>

definition scan_keys :: "string \<Rightarrow> string set" where
  "scan_keys model =
     {model @ ''_lnL'', model @ ''_np'', model @ ''_omega'', model @ ''_time'', model @ ''_stops''}"

text \<open>
  The scans of a gene whose report of \<^verbatim>\<open>M0\<close> holds the log-likelihood 0.0.
\<close>

definition sample_scans :: "(string \<times> model_scan) list" where
  "sample_scans =
     [(''M0'', \<lparr>ms_lnL = Some 0, ms_np = Some 12, ms_omega = Some 0.5, ms_time = Some 75,
               ms_stops = 0\<rparr>),
      (''M1a'', \<lparr>ms_lnL = Some (- 105), ms_np = Some 13, ms_omega = None, ms_time = None,
                ms_stops = 0\<rparr>)]"

section \<open>Verification\<close>

subsection \<open>Properties of \<^verbatim>\<open>auto_complete_null_models\<close>\<close>

lemma set_set_add [simp]: "set (set_add x s) = insert x (set s)"
  by (auto simp: set_add_def)

lemma distinct_set_add [simp]: "distinct (set_add x s) = distinct s"
  by (auto simp: set_add_def)

lemma set_first_occurrences [simp]: "set (first_occurrences xs) = set xs"
  by (induction xs) auto

lemma distinct_first_occurrences [simp]: "distinct (first_occurrences xs)"
  by (induction xs) auto

lemma first_occurrences_distinct: "distinct xs \<Longrightarrow> first_occurrences xs = xs"
  by (induction xs) (auto simp: filter_id_conv)

lemma fold_set_add:
  "fold set_add xs acc = acc @ filter (\<lambda>x. x \<notin> set acc) (first_occurrences xs)"
proof (induction xs arbitrary: acc)
  case Nil
  then show ?case by simp
next
  case (Cons x xs)
  show ?case
  proof (cases "x \<in> set acc")
    case True
    have "filter (\<lambda>y. y \<notin> set acc) (filter (\<lambda>y. y \<noteq> x) (first_occurrences xs))
        = filter (\<lambda>y. y \<notin> set acc) (first_occurrences xs)"
      using True by (auto intro: filter_cong)
    with True Cons show ?thesis by (simp add: set_add_def)
  next
    case False
    have "filter (\<lambda>y. y \<notin> set (acc @ [x])) (first_occurrences xs)
        = filter (\<lambda>y. y \<notin> set acc) (filter (\<lambda>y. y \<noteq> x) (first_occurrences xs))"
      by (auto intro: filter_cong)
    with False Cons show ?thesis by (simp add: set_add_def)
  qed
qed

lemma py_set_eq: "py_set xs = first_occurrences xs"
  by (simp add: py_set_def fold_set_add)

lemma fold_null_add:
  "fold (\<lambda>model c. case f model of Some n \<Rightarrow> set_add n c | None \<Rightarrow> c) xs acc
     = fold set_add (List.map_filter f xs) acc"
  by (induction xs arbitrary: acc) (auto simp: List.map_filter_simps split: option.splits)

lemma set_map_filter: "set (List.map_filter f xs) = {y. \<exists>x\<in>set xs. f x = Some y}"
  by (induction xs) (auto simp: List.map_filter_simps split: option.splits)

lemma add_null_models_eq:
  "add_null_models S (py_set S) = first_occurrences S @ new_nulls S"
  by (simp add: add_null_models_def fold_null_add fold_set_add py_set_eq new_nulls_def)

lemma set_new_nulls:
  "set (new_nulls S) = {n. \<exists>a\<in>set S. map_of NULL_MODEL_PAIRS a = Some n} - set S"
  by (auto simp: new_nulls_def set_map_filter)

lemma distinct_new_nulls: "distinct (new_nulls S)"
  by (simp add: new_nulls_def)

lemma null_M2a: "map_of NULL_MODEL_PAIRS ''M2a'' = Some ''M1a''"
  by (simp add: NULL_MODEL_PAIRS_def)

lemma null_Branch_site: "map_of NULL_MODEL_PAIRS ''Branch-site'' = Some ''Branch-site_null''"
  by (simp add: NULL_MODEL_PAIRS_def)

lemma add_neutral_models_closed:
  assumes "\<And>a n. a \<in> set S \<Longrightarrow> map_of NULL_MODEL_PAIRS a = Some n \<Longrightarrow> n \<in> set c"
  shows "add_neutral_models S c = c"
  using assms[OF _ null_M2a] assms[OF _ null_Branch_site]
  by (auto simp: add_neutral_models_def Let_def)

lemma completed_eq:
  "(let completed_models = py_set S;
        completed_models = add_null_models S completed_models;
        completed_models = (if inc then add_neutral_models S completed_models else completed_models)
    in completed_models) = first_occurrences S @ new_nulls S"
proof -
  have "add_neutral_models S (first_occurrences S @ new_nulls S) = first_occurrences S @ new_nulls S"
    by (rule add_neutral_models_closed) (auto simp: set_new_nulls)
  then show ?thesis by (simp add: add_null_models_eq Let_def)
qed

lemma auto_complete_eq:
  "auto_complete_null_models iter S inc
     = sort_key (sort_position S) (iter (first_occurrences S @ new_nulls S))"
  using completed_eq[of S inc] by (simp add: auto_complete_null_models_def Let_def)


lemma index_of_less: "x \<in> set S \<Longrightarrow> index_of S x < length S"
  by (induction S) auto

lemma nth_index_of: "x \<in> set S \<Longrightarrow> S ! index_of S x = x"
  by (induction S) auto

lemma index_of_inj:
  "x \<in> set S \<Longrightarrow> y \<in> set S \<Longrightarrow> index_of S x = index_of S y \<Longrightarrow> x = y"
  by (metis nth_index_of)

lemma sorted_index_first_occurrences:
  "sorted (map (index_of S) (first_occurrences S))"
proof (induction S)
  case Nil
  then show ?case by simp
next
  case (Cons a S)
  let ?R = "filter (\<lambda>y. y \<noteq> a) (first_occurrences S)"
  have eq: "map (index_of (a # S)) ?R = map (Suc \<circ> index_of S) ?R"
    by (rule map_cong) auto
  have "sorted (map (index_of S) ?R)"
    using Cons by (rule sorted_filter)
  then have "sorted (map Suc (map (index_of S) ?R))"
    by (simp add: sorted_map o_def)
  then have srt: "sorted (map (Suc \<circ> index_of S) ?R)"
    by simp
  have "map (index_of (a # S)) (first_occurrences (a # S)) = 0 # map (index_of (a # S)) ?R"
    by simp
  also have "\<dots> = 0 # map (Suc \<circ> index_of S) ?R"
    by (simp only: eq)
  finally have e: "map (index_of (a # S)) (first_occurrences (a # S))
      = 0 # map (Suc \<circ> index_of S) ?R" .
  show ?case unfolding e using srt by simp
qed

lemma sorted_map_const: "sorted (map (\<lambda>_. c::nat) xs)"
  by (induction xs) auto

lemma filter_eq_singleton:
  "distinct zs \<Longrightarrow> k \<in> set zs \<Longrightarrow> filter (\<lambda>x. x = k) zs = [k]"
  by (induction zs) (auto simp: filter_empty_conv)

lemma sort_position_sorted:
  assumes perm: "mset xs = mset (first_occurrences S @ N)"
    and disj: "set N \<inter> set S = {}"
    and dist: "distinct N"
    and small: "N = [] \<or> length S \<le> 999"
  shows "sort_key (sort_position S) xs = first_occurrences S @ filter (\<lambda>x. x \<notin> set S) xs"
proof (rule properties_for_sort_key)
  let ?F = "first_occurrences S"
  let ?A = "filter (\<lambda>x. x \<notin> set S) xs"
  have setxs: "set xs = set S \<union> set N"
    using perm by (metis mset_eq_setD set_append set_first_occurrences)
  have distxs: "distinct xs"
  proof -
    have "distinct (?F @ N)" using disj dist by auto
    then show ?thesis using perm by (metis mset_eq_imp_distinct_iff)
  qed
  have msetA: "mset ?A = mset N"
  proof -
    have "mset ?A = filter_mset (\<lambda>x. x \<notin> set S) (mset (?F @ N))"
      using perm by (metis mset_filter)
    also have "\<dots> = filter_mset (\<lambda>x. x \<notin> set S) (mset ?F) + filter_mset (\<lambda>x. x \<notin> set S) (mset N)"
      by simp
    also have "filter_mset (\<lambda>x. x \<notin> set S) (mset ?F) = {#}"
      by simp
    also have "filter_mset (\<lambda>x. x \<notin> set S) (mset N) = mset N"
      using disj by (auto simp: filter_mset_eq_conv)
    finally show ?thesis by simp
  qed
  show "mset (?F @ ?A) = mset xs"
    using msetA perm by simp
  have key_in: "sort_position S x = index_of S x" if "x \<in> set S" for x
    using that by (simp add: sort_position_def)
  have key_out: "sort_position S x = 999" if "x \<notin> set S" for x
    using that by (simp add: sort_position_def)
  have lt: "index_of S x < 999" if "x \<in> set S" "N \<noteq> []" for x
    using index_of_less[OF that(1)] small that(2) by simp
  have Aempty: "?A = []" if "N = []"
    using that setxs by (auto simp: filter_empty_conv)
  have distFA: "distinct (?F @ ?A)"
    using distxs by auto
  show "sorted (map (sort_position S) (?F @ ?A))"
  proof -
    have 1: "map (sort_position S) ?F = map (index_of S) ?F"
      by (rule map_cong) (auto simp: key_in)
    have 2: "sorted (map (sort_position S) ?A)"
    proof -
      have e: "map (sort_position S) ?A = map (\<lambda>_. 999) ?A"
        by (rule map_cong) (auto simp: key_out)
      show ?thesis unfolding e by (rule sorted_map_const)
    qed
    have 3: "sort_position S x \<le> sort_position S y" if "x \<in> set ?F" "y \<in> set ?A" for x y
    proof -
      from that(2) have "N \<noteq> []" using Aempty by fastforce
      with that lt[of x] show ?thesis by (auto simp: key_in key_out)
    qed
    have 4: "sorted (map (sort_position S) ?F)"
      unfolding 1 by (rule sorted_index_first_occurrences)
    show ?thesis
      unfolding map_append sorted_append using 2 3 4 by auto
  qed
  fix k assume k: "k \<in> set (?F @ ?A)"
  show "filter (\<lambda>x. sort_position S k = sort_position S x) (?F @ ?A)
      = filter (\<lambda>x. sort_position S k = sort_position S x) xs"
  proof (cases "k \<in> set S")
    case True
    have kxs: "k \<in> set xs" using True setxs by simp
    have eq: "(sort_position S k = sort_position S x) = (x = k)" if "x \<in> set xs" for x
    proof (cases "x \<in> set S")
      case xin: True
      then show ?thesis using True index_of_inj[of x S k] by (auto simp: key_in)
    next
      case xout: False
      then have "N \<noteq> []" using that setxs by auto
      then show ?thesis using True xout lt[of k] by (auto simp: key_in key_out)
    qed
    have "filter (\<lambda>x. sort_position S k = sort_position S x) xs = filter (\<lambda>x. x = k) xs"
      by (rule filter_cong) (auto simp: eq)
    moreover have "filter (\<lambda>x. sort_position S k = sort_position S x) (?F @ ?A)
        = filter (\<lambda>x. x = k) (?F @ ?A)"
      by (rule filter_cong) (use eq setxs in auto)
    moreover have "k \<in> set (?F @ ?A)" using True by simp
    ultimately show ?thesis
      using filter_eq_singleton[OF distxs kxs] filter_eq_singleton[OF distFA]
      by simp
  next
    case False
    then have kA: "k \<in> set ?A" using k by auto
    then have N: "N \<noteq> []" using Aempty by fastforce
    have eq: "(sort_position S k = sort_position S x) = (x \<notin> set S)" for x
      using False lt[of x] N by (cases "x \<in> set S") (auto simp: key_in key_out)
    show ?thesis by (simp add: eq)
  qed
qed


lemma null_of_null:
  "map_of NULL_MODEL_PAIRS a = Some n \<Longrightarrow> map_of NULL_MODEL_PAIRS n = None"
  by (auto simp: NULL_MODEL_PAIRS_def split: if_splits)

lemma null_pairs_map_of:
  "(a, n) \<in> set NULL_MODEL_PAIRS \<Longrightarrow> map_of NULL_MODEL_PAIRS a = Some n"
  by (rule map_of_is_SomeI) (simp_all add: NULL_MODEL_PAIRS_def)

lemma map_of_null_pairs:
  "map_of NULL_MODEL_PAIRS a = Some n \<Longrightarrow> (a, n) \<in> set NULL_MODEL_PAIRS"
  by (rule map_of_SomeD)

text \<open>
  Claim C3. Whatever order the set of completed models is enumerated in,
  \<^verbatim>\<open>auto_complete_null_models\<close> is idempotent and its output contains the null
  counterpart of every alternative model of the selection. For a selection of at most
  999 entries the output is the selection (its distinct entries, in order of first
  occurrence) followed by the null models that were added. The bound comes from the sort
  key, which places every added model at position 999.
\<close>

theorem auto_complete_null_models_expansion:
  assumes iter: "\<forall>xs. mset (iter xs) = mset xs"
      and iter': "\<forall>xs. mset (iter' xs) = mset xs"
  shows "auto_complete_null_models iter' (auto_complete_null_models iter S inc) inc'
           = auto_complete_null_models iter S inc
       \<and> (\<forall>(alt, null) \<in> set NULL_MODEL_PAIRS.
             alt \<in> set S \<longrightarrow> null \<in> set (auto_complete_null_models iter S inc))
       \<and> (length S \<le> 999 \<longrightarrow>
            (\<exists>added. auto_complete_null_models iter S inc = first_occurrences S @ added
                  \<and> distinct added
                  \<and> set added = {null. \<exists>alt \<in> set S. (alt, null) \<in> set NULL_MODEL_PAIRS} - set S))"
proof -
  let ?F = "first_occurrences S"
  let ?N = "new_nulls S"
  let ?R = "auto_complete_null_models iter S inc"
  have R: "?R = sort_key (sort_position S) (iter (?F @ ?N))"
    by (rule auto_complete_eq)
  have msetR: "mset ?R = mset (?F @ ?N)"
    using iter by (simp add: R)
  have setR: "set ?R = set S \<union> set ?N"
    using msetR by (metis mset_eq_setD set_append set_first_occurrences)
  have "distinct (?F @ ?N)"
    by (auto simp: distinct_new_nulls set_new_nulls)
  then have distR: "distinct ?R"
    using msetR by (metis mset_eq_imp_distinct_iff)
  have nulls: "{null. \<exists>alt \<in> set S. (alt, null) \<in> set NULL_MODEL_PAIRS}
             = {n. \<exists>a\<in>set S. map_of NULL_MODEL_PAIRS a = Some n}"
    using null_pairs_map_of map_of_null_pairs by blast
  have part_b: "\<forall>(alt, null) \<in> set NULL_MODEL_PAIRS. alt \<in> set S \<longrightarrow> null \<in> set ?R"
    using null_pairs_map_of by (fastforce simp: setR set_new_nulls)
  have part_c: "length S \<le> 999 \<longrightarrow>
      (\<exists>added. ?R = ?F @ added \<and> distinct added
         \<and> set added = {null. \<exists>alt \<in> set S. (alt, null) \<in> set NULL_MODEL_PAIRS} - set S)"
  proof
    assume len: "length S \<le> 999"
    let ?xs = "iter (?F @ ?N)"
    let ?A = "filter (\<lambda>x. x \<notin> set S) ?xs"
    have "sort_key (sort_position S) ?xs = ?F @ ?A"
    proof (rule sort_position_sorted)
      show "mset ?xs = mset (?F @ ?N)" using iter by simp
      show "set ?N \<inter> set S = {}" by (auto simp: set_new_nulls)
      show "distinct ?N" by (rule distinct_new_nulls)
      show "?N = [] \<or> length S \<le> 999" using len by simp
    qed
    then have 1: "?R = ?F @ ?A" by (simp add: R)
    have "distinct ?xs"
      using \<open>distinct (?F @ ?N)\<close> iter by (metis mset_eq_imp_distinct_iff)
    then have 2: "distinct ?A" by simp
    have "set ?xs = set S \<union> set ?N"
      using iter by (metis mset_eq_setD set_append set_first_occurrences)
    then have 3: "set ?A = {null. \<exists>alt \<in> set S. (alt, null) \<in> set NULL_MODEL_PAIRS} - set S"
      unfolding nulls by (auto simp: set_new_nulls)
    from 1 2 3 show "\<exists>added. ?R = ?F @ added \<and> distinct added
         \<and> set added = {null. \<exists>alt \<in> set S. (alt, null) \<in> set NULL_MODEL_PAIRS} - set S"
      by blast
  qed
  have part_a: "auto_complete_null_models iter' ?R inc' = ?R"
  proof -
    have "set (new_nulls ?R) = {}"
    proof -
      have "n \<in> set ?R" if "a \<in> set ?R" "map_of NULL_MODEL_PAIRS a = Some n" for a n
      proof (cases "a \<in> set S")
        case True
        then show ?thesis using that(2) by (auto simp: setR set_new_nulls)
      next
        case False
        then have "a \<in> set ?N" using that(1) setR by auto
        then obtain b where "map_of NULL_MODEL_PAIRS b = Some a"
          by (auto simp: set_new_nulls)
        then have "map_of NULL_MODEL_PAIRS a = None" by (rule null_of_null)
        with that(2) show ?thesis by simp
      qed
      then show ?thesis unfolding set_new_nulls by blast
    qed
    then have nn: "new_nulls ?R = []" by simp
    have fo: "first_occurrences ?R = ?R"
      using distR by (rule first_occurrences_distinct)
    have "sort_key (sort_position ?R) (iter' ?R)
            = first_occurrences ?R @ filter (\<lambda>x. x \<notin> set ?R) (iter' ?R)"
    proof (rule sort_position_sorted)
      show "mset (iter' ?R) = mset (first_occurrences ?R @ [])"
        using iter' by (simp add: fo)
    qed simp_all
    moreover have "set (iter' ?R) = set ?R"
      using iter' by (metis mset_eq_setD)
    then have "filter (\<lambda>x. x \<notin> set ?R) (iter' ?R) = []"
      by (simp add: filter_empty_conv)
    ultimately have "sort_key (sort_position ?R) (iter' ?R) = ?R"
      by (simp add: fo)
    then show ?thesis
      using auto_complete_eq[of iter' ?R inc'] by (simp add: fo nn)
  qed
  from part_a part_b part_c show ?thesis by blast
qed

theorem auto_complete_null_models_expansion_witness:
  "(\<forall>xs::string list. mset (rev xs) = mset xs)
   \<and> length [''M8'', ''M2a''] \<le> 999
   \<and> auto_complete_null_models rev (auto_complete_null_models rev [''M8'', ''M2a''] True) False
           = auto_complete_null_models rev [''M8'', ''M2a''] True
   \<and> auto_complete_null_models rev [''M8'', ''M2a''] True = [''M8'', ''M2a'', ''M1a'', ''M7'']"
proof -
  have p: "\<forall>xs::string list. mset (rev xs) = mset xs" by simp
  have e: "auto_complete_null_models rev [''M8'', ''M2a''] True = [''M8'', ''M2a'', ''M1a'', ''M7'']"
    by code_simp
  from auto_complete_null_models_expansion[OF p p, of "[''M8'', ''M2a'']" True False] e p
  show ?thesis by simp
qed

lemma first_occurrences_replicate_append:
  "first_occurrences (replicate (Suc n) a @ xs) = a # filter (\<lambda>y. y \<noteq> a) (first_occurrences xs)"
  by (induction n) auto

lemma index_of_replicate_append:
  "b \<noteq> a \<Longrightarrow> index_of (replicate n a @ xs) b = n + index_of xs b"
  by (induction n) auto

lemma map_filter_replicate_None:
  "f a = None \<Longrightarrow> List.map_filter f (replicate n a @ xs) = List.map_filter f xs"
  by (induction n) (auto simp: List.map_filter_simps)

text \<open>
  With 1000 copies of \<^verbatim>\<open>M0\<close> in front, \<^verbatim>\<open>M2a\<close> sits at index 1000, and the
  added \<^verbatim>\<open>M1a\<close> (key 999) is sorted in front of it.
\<close>

theorem auto_complete_null_models_order_counterexample:
  "auto_complete_null_models (\<lambda>xs. xs) (replicate 1000 ''M0'' @ [''M2a'']) True
     = [''M0'', ''M1a'', ''M2a'']"
proof -
  let ?S = "replicate 1000 ''M0'' @ [''M2a'']"
  have S: "?S = replicate (Suc 999) ''M0'' @ [''M2a'']" by simp
  have fo: "first_occurrences ?S = [''M0'', ''M2a'']"
    unfolding S first_occurrences_replicate_append by simp
  have "map_of NULL_MODEL_PAIRS ''M0'' = None" by (simp add: NULL_MODEL_PAIRS_def)
  then have mf: "List.map_filter (map_of NULL_MODEL_PAIRS) ?S = [''M1a'']"
    by (simp add: map_filter_replicate_None List.map_filter_simps NULL_MODEL_PAIRS_def)
  have setS: "set ?S = {''M0'', ''M2a''}" by auto
  have nn: "new_nulls ?S = [''M1a'']"
    unfolding new_nulls_def mf setS by simp
  have i0: "index_of ?S ''M0'' = 0"
    unfolding S replicate_Suc by simp
  have k0: "sort_position ?S ''M0'' = 0"
    unfolding sort_position_def i0 setS by simp
  have "index_of ?S ''M2a'' = 1000 + index_of [''M2a''] ''M2a''"
    by (rule index_of_replicate_append) simp
  then have k2: "sort_position ?S ''M2a'' = 1000"
    unfolding sort_position_def setS by simp
  have k1: "sort_position ?S ''M1a'' = 999"
    unfolding sort_position_def setS by simp
  show ?thesis
    unfolding auto_complete_eq fo nn by (simp add: k0 k1 k2)
qed

subsection \<open>Character tests, bit by bit\<close>

text \<open>
  The character tests are defined by code-point ranges. For running the extractors on
  sample texts they are restated on the eight bits of a character, least significant
  first; each restatement is checked on all 256 characters.
\<close>

lemma py_isspace_code [code]:
  "py_isspace (Char b0 b1 b2 b3 b4 b5 b6 b7) =
     ((\<not> b7 \<and> \<not> b6 \<and> \<not> b5 \<and> \<not> b4 \<and> b3 \<and> ((\<not> b2 \<and> (b1 \<or> b0)) \<or> (b2 \<and> \<not> b1)))
      \<or> (\<not> b7 \<and> \<not> b6 \<and> \<not> b5 \<and> b4 \<and> b3 \<and> b2)
      \<or> (\<not> b6 \<and> b5 \<and> \<not> b4 \<and> \<not> b3 \<and> \<not> b2 \<and> \<not> b1 \<and> \<not> b0)
      \<or> (b7 \<and> \<not> b6 \<and> \<not> b5 \<and> \<not> b4 \<and> \<not> b3 \<and> b2 \<and> \<not> b1 \<and> b0))"
  by (cases b0; cases b1; cases b2; cases b3; cases b4; cases b5; cases b6; cases b7;
      simp add: py_isspace_def)

lemma py_lower_char_code [code]:
  "py_lower_char (Char b0 b1 b2 b3 b4 b5 b6 b7) =
     (if b6 \<and> \<not> b5
         \<and> (if b7 then \<not> (b0 \<and> b1 \<and> b2 \<and> b4) else (b0 \<or> b1 \<or> b2 \<or> b3 \<or> b4) \<and> \<not> (b4 \<and> b3 \<and> (b2 \<or> (b1 \<and> b0))))
      then Char b0 b1 b2 b3 b4 True b6 b7
      else Char b0 b1 b2 b3 b4 b5 b6 b7)"
  by (cases b0; cases b1; cases b2; cases b3; cases b4; cases b5; cases b6; cases b7;
      simp add: py_lower_char_def char_of_def bit_iff_odd)

lemma is_digit_code [code]:
  "is_digit (Char b0 b1 b2 b3 b4 b5 b6 b7) =
     (\<not> b7 \<and> \<not> b6 \<and> b5 \<and> b4 \<and> (\<not> b3 \<or> (\<not> b2 \<and> \<not> b1)))"
  by (cases b0; cases b1; cases b2; cases b3; cases b4; cases b5; cases b6; cases b7;
      simp add: is_digit_def)

lemma digit_val_code [code]:
  "digit_val (Char b0 b1 b2 b3 True True False False) =
     of_bool b0 + 2 * of_bool b1 + 4 * of_bool b2 + 8 * of_bool b3"
  by (simp add: digit_val_def)

subsection \<open>Substring tests and prompt detection\<close>

lemma startswith_iff: "startswith s p \<longleftrightarrow> (\<exists>post. s = p @ post)"
  by (induction s p rule: startswith.induct) auto

lemma py_in_iff: "py_in sub s \<longleftrightarrow> (\<exists>pre post. s = pre @ sub @ post)"
proof (induction s)
  case Nil
  then show ?case by auto
next
  case (Cons c cs)
  show ?case
  proof
    assume "py_in sub (c # cs)"
    then consider "startswith (c # cs) sub" | "py_in sub cs" by auto
    then show "\<exists>pre post. c # cs = pre @ sub @ post"
    proof cases
      case 1
      then obtain post where "c # cs = sub @ post" by (auto simp: startswith_iff)
      then have "c # cs = [] @ sub @ post" by simp
      then show ?thesis by blast
    next
      case 2
      then obtain pre post where "cs = pre @ sub @ post" using Cons by auto
      then have "c # cs = (c # pre) @ sub @ post" by simp
      then show ?thesis by blast
    qed
  next
    assume "\<exists>pre post. c # cs = pre @ sub @ post"
    then obtain pre post where e: "c # cs = pre @ sub @ post" by auto
    show "py_in sub (c # cs)"
    proof (cases pre)
      case Nil
      then have "startswith (c # cs) sub"
        unfolding startswith_iff using e by auto
      then show ?thesis by simp
    next
      case (Cons a pre')
      then have "cs = pre' @ sub @ post" using e by simp
      then show ?thesis using Cons.IH by auto
    qed
  qed
qed

lemma map_eq_append3:
  assumes "map f xs = a @ b @ c"
  shows "\<exists>a' b' c'. xs = a' @ b' @ c' \<and> map f a' = a \<and> map f b' = b \<and> map f c' = c"
proof -
  from assms obtain a' r where 1: "xs = a' @ r" "a = map f a'" "b @ c = map f r"
    unfolding map_eq_append_conv by blast
  from 1(3)[symmetric] obtain b' c' where 2: "r = b' @ c'" "b = map f b'" "c = map f c'"
    unfolding map_eq_append_conv by blast
  from 1 2 show ?thesis by blast
qed

lemma py_lower_space: "py_isspace c \<Longrightarrow> py_lower_char c = c"
  by (auto simp: py_isspace_def py_lower_char_def Let_def)

lemma py_lower_append [simp]: "py_lower (xs @ ys) = py_lower xs @ py_lower ys"
  by (simp add: py_lower_def)

lemma py_rstrip_decomp: "\<exists>ws. line = py_rstrip line @ ws"
proof -
  have "rev line = takeWhile py_isspace (rev line) @ dropWhile py_isspace (rev line)"
    by simp
  then have "line = rev (dropWhile py_isspace (rev line)) @ rev (takeWhile py_isspace (rev line))"
    by (metis rev_append rev_rev_ident)
  then show ?thesis unfolding py_rstrip_def by blast
qed

lemma py_rstrip_keeps:
  assumes "u \<noteq> []" and "\<not> py_isspace (last u)"
  shows "\<exists>post'. py_rstrip (pre @ u @ post) = pre @ u @ post'"
proof -
  let ?rest = "rev u @ rev pre"
  have hd: "\<not> py_isspace (hd ?rest)"
    using assms by (simp add: hd_rev)
  have ne: "?rest \<noteq> []" using assms by simp
  have "\<exists>zs. dropWhile py_isspace (rev post @ ?rest) = zs @ ?rest"
  proof (cases "\<forall>x\<in>set (rev post). py_isspace x")
    case True
    then have "dropWhile py_isspace (rev post @ ?rest) = dropWhile py_isspace ?rest"
      by (intro dropWhile_append2) simp
    also have "\<dots> = ?rest" using hd ne by (cases ?rest) auto
    finally have "dropWhile py_isspace (rev post @ ?rest) = [] @ ?rest" by simp
    then show ?thesis by blast
  next
    case False
    then obtain x where "x \<in> set (rev post)" "\<not> py_isspace x" by blast
    then have "dropWhile py_isspace (rev post @ ?rest) = dropWhile py_isspace (rev post) @ ?rest"
      by (rule dropWhile_append1)
    then show ?thesis by blast
  qed
  then obtain zs where "dropWhile py_isspace (rev post @ ?rest) = zs @ ?rest" by blast
  then have "py_rstrip (pre @ u @ post) = pre @ u @ rev zs"
    by (simp add: py_rstrip_def)
  then show ?thesis by blast
qed

lemma py_in_lower_rstrip:
  assumes w: "py_lower w = w" and ne: "w \<noteq> []" and nosp: "\<forall>c\<in>set w. \<not> py_isspace c"
  shows "py_in w (py_lower (py_rstrip line)) \<longleftrightarrow> occurs_ci w line"
proof
  assume "py_in w (py_lower (py_rstrip line))"
  then obtain pre post where "py_lower (py_rstrip line) = pre @ w @ post"
    by (auto simp: py_in_iff)
  then obtain pre' u post' where r: "py_rstrip line = pre' @ u @ post'" and u: "py_lower u = w"
    unfolding py_lower_def using map_eq_append3 by metis
  obtain ws where "line = py_rstrip line @ ws" using py_rstrip_decomp by blast
  then have "line = pre' @ u @ (post' @ ws)" using r by simp
  then show "occurs_ci w line"
    unfolding occurs_ci_def using u w by metis
next
  assume "occurs_ci w line"
  then obtain pre u post where l: "line = pre @ u @ post" and u: "py_lower u = w"
    using w by (auto simp: occurs_ci_def)
  have une: "u \<noteq> []" using u ne by (auto simp: py_lower_def)
  have "\<not> py_isspace c" if "c \<in> set u" for c
  proof
    assume sp: "py_isspace c"
    then have "py_lower_char c = c" by (rule py_lower_space)
    moreover have "py_lower_char c \<in> set w" using that u by (auto simp: py_lower_def)
    ultimately show False using nosp sp by auto
  qed
  then have "\<not> py_isspace (last u)" using une by simp
  then obtain post' where "py_rstrip line = pre @ u @ post'"
    using py_rstrip_keeps[OF une] l by blast
  then have "py_lower (py_rstrip line) = py_lower pre @ w @ py_lower post'"
    using u by simp
  then show "py_in w (py_lower (py_rstrip line))"
    unfolding py_in_iff by blast
qed

lemma word_stop: "py_lower ''stop'' = ''stop'' \<and> ''stop'' \<noteq> [] \<and> (\<forall>c\<in>set ''stop''. \<not> py_isspace c)"
  by (simp add: py_lower_def py_lower_char_def py_isspace_def)
lemma word_codon: "py_lower ''codon'' = ''codon'' \<and> ''codon'' \<noteq> [] \<and> (\<forall>c\<in>set ''codon''. \<not> py_isspace c)"
  by (simp add: py_lower_def py_lower_char_def py_isspace_def)
lemma word_press: "py_lower ''press'' = ''press'' \<and> ''press'' \<noteq> [] \<and> (\<forall>c\<in>set ''press''. \<not> py_isspace c)"
  by (simp add: py_lower_def py_lower_char_def py_isspace_def)
lemma word_enter: "py_lower ''enter'' = ''enter'' \<and> ''enter'' \<noteq> [] \<and> (\<forall>c\<in>set ''enter''. \<not> py_isspace c)"
  by (simp add: py_lower_def py_lower_char_def py_isspace_def)

text \<open>
  Claim C8. A line read from the external process is handled as a blocking prompt exactly
  when, ignoring case, it contains both \<^verbatim>\<open>stop\<close> and \<^verbatim>\<open>codon\<close> (anywhere in the line)
  or both \<^verbatim>\<open>press\<close> and \<^verbatim>\<open>enter\<close>. In particular a line with \<^verbatim>\<open>codon\<close> but without
  \<^verbatim>\<open>stop\<close> is not detected by the stop-codon rule, and is not detected at all unless
  the press-enter rule applies to it.
\<close>

theorem detected_prompt_iff:
  "(detected_prompt line \<longleftrightarrow>
      (occurs_ci ''stop'' line \<and> occurs_ci ''codon'' line)
      \<or> (occurs_ci ''press'' line \<and> occurs_ci ''enter'' line))
   \<and> (occurs_ci ''codon'' line \<and> \<not> occurs_ci ''stop'' line
        \<and> \<not> (occurs_ci ''press'' line \<and> occurs_ci ''enter'' line)
        \<longrightarrow> \<not> detected_prompt line)"
proof -
  have s: "py_in ''stop'' (py_lower (py_rstrip line)) \<longleftrightarrow> occurs_ci ''stop'' line"
    using word_stop by (intro py_in_lower_rstrip) blast+
  have c: "py_in ''codon'' (py_lower (py_rstrip line)) \<longleftrightarrow> occurs_ci ''codon'' line"
    using word_codon by (intro py_in_lower_rstrip) blast+
  have p: "py_in ''press'' (py_lower (py_rstrip line)) \<longleftrightarrow> occurs_ci ''press'' line"
    using word_press by (intro py_in_lower_rstrip) blast+
  have e: "py_in ''enter'' (py_lower (py_rstrip line)) \<longleftrightarrow> occurs_ci ''enter'' line"
    using word_enter by (intro py_in_lower_rstrip) blast+
  show ?thesis
    unfolding detected_prompt_def is_stop_codon_def is_press_enter_def Let_def s c p e
    by blast
qed

lemma occurs_ci_py_in: "occurs_ci w line \<longleftrightarrow> py_in (py_lower w) (py_lower line)"
proof
  assume "occurs_ci w line"
  then show "py_in (py_lower w) (py_lower line)"
    unfolding occurs_ci_def py_in_iff by (metis py_lower_append)
next
  assume "py_in (py_lower w) (py_lower line)"
  then obtain pre post where "py_lower line = pre @ py_lower w @ post"
    by (auto simp: py_in_iff)
  then obtain pre' u post' where "line = pre' @ u @ post'" "py_lower u = py_lower w"
    unfolding py_lower_def using map_eq_append3 by metis
  then show "occurs_ci w line" unfolding occurs_ci_def by blast
qed

theorem detected_prompt_iff_witness:
  "occurs_ci ''codon'' ''Codon usage table'' \<and> \<not> occurs_ci ''stop'' ''Codon usage table''
   \<and> \<not> (occurs_ci ''press'' ''Codon usage table'' \<and> occurs_ci ''enter'' ''Codon usage table'')
   \<and> \<not> detected_prompt ''Codon usage table''
   \<and> detected_prompt ''Error: STOP codon TAG in seq. #   1, nucleotide site 214''"
proof -
  have 1: "occurs_ci ''codon'' ''Codon usage table''"
    unfolding occurs_ci_py_in by code_simp
  have 2: "\<not> occurs_ci ''stop'' ''Codon usage table''"
    unfolding occurs_ci_py_in by code_simp
  have 3: "\<not> occurs_ci ''press'' ''Codon usage table''"
    unfolding occurs_ci_py_in by code_simp
  have 4: "occurs_ci ''stop'' ''Error: STOP codon TAG in seq. #   1, nucleotide site 214''"
    unfolding occurs_ci_py_in by code_simp
  have 5: "occurs_ci ''codon'' ''Error: STOP codon TAG in seq. #   1, nucleotide site 214''"
    unfolding occurs_ci_py_in by code_simp
  from detected_prompt_iff[of "''Codon usage table''"]
       detected_prompt_iff[of "''Error: STOP codon TAG in seq. #   1, nucleotide site 214''"]
       1 2 3 4 5
  show ?thesis by blast
qed

subsection \<open>The branch-table extractor\<close>






subsection \<open>The median\<close>







subsection \<open>The robust extractor\<close>

text \<open>
  Claim C4. A text that contains the labels \<^verbatim>\<open>site class\<close>, \<^verbatim>\<open>background w\<close> and
  \<^verbatim>\<open>foreground w\<close> makes \<^verbatim>\<open>extract_omega_robust\<close> return \<^verbatim>\<open>None\<close>, whatever the branch
  table and the labelled ratio lines of the same text would give.
\<close>

theorem extract_omega_robust_branch_site:
  assumes "py_in ''site class'' content"
      and "py_in ''background w'' content"
      and "py_in ''foreground w'' content"
  shows "extract_omega_robust (Some content) = None"
  using assms by (simp add: extract_omega_robust_def)

text \<open>
  The sample report has a parseable branch table and a labelled ratio; both extractors
  find a value in it, and the robust extractor still returns nothing.
\<close>

theorem extract_omega_robust_branch_site_witness:
  "py_in ''site class'' branch_site_text
   \<and> py_in ''background w'' branch_site_text
   \<and> py_in ''foreground w'' branch_site_text
   \<and> extract_omega_global (Some branch_site_text) = Some 0.42
   \<and> extract_omega_values_from_model_params (Some branch_site_text) = Some 0.35052
   \<and> extract_omega_robust (Some branch_site_text) = None"
proof -
  have 1: "py_in ''site class'' branch_site_text" by code_simp
  have 2: "py_in ''background w'' branch_site_text" by code_simp
  have 3: "py_in ''foreground w'' branch_site_text" by code_simp
  have 4: "extract_omega_global (Some branch_site_text) = Some 0.42" by code_simp
  have 5: "extract_omega_values_from_model_params (Some branch_site_text) = Some 0.35052"
    by code_simp
  from extract_omega_robust_branch_site[OF 1 2 3] 1 2 3 4 5 show ?thesis by simp
qed

subsection \<open>The per-tag extractor\<close>

lemma digit_char_props:
  "d < 10 \<Longrightarrow> is_digit (digit_char d) \<and> digit_val (digit_char d) = d"
  by (simp add: is_digit_def digit_val_def digit_char_def)

lemma digits_val_snoc:
  "is_digit c \<Longrightarrow> digits_val (s @ [c]) = 10 * digits_val s + digit_val c"
  by (simp add: digits_val_def)

lemma digits_val_str_nat: "digits_val (str_nat n) = n"
proof (induction n rule: str_nat.induct)
  case (1 n)
  show ?case
  proof (cases "n < 10")
    case True
    then show ?thesis
      using digit_char_props[of n] by (subst str_nat.simps) (simp add: digits_val_def)
  next
    case False
    have d: "is_digit (digit_char (n mod 10))" "digit_val (digit_char (n mod 10)) = n mod 10"
      using digit_char_props[of "n mod 10"] by simp_all
    have "digits_val (str_nat n) = digits_val (str_nat (n div 10) @ [digit_char (n mod 10)])"
      using False by (subst str_nat.simps) simp
    also have "\<dots> = 10 * digits_val (str_nat (n div 10)) + n mod 10"
      using d by (simp add: digits_val_snoc)
    also have "\<dots> = n" using 1 False by simp
    finally show ?thesis .
  qed
qed

lemma str_nat_inj: "str_nat m = str_nat n \<Longrightarrow> m = n"
  by (metis digits_val_str_nat)

lemma dict_set_fresh: "k \<notin> fst ` set d \<Longrightarrow> dict_set k v d = d @ [(k, v)]"
  by (induction d) auto

lemma number_tags_fresh:
  assumes "\<forall>j\<ge>i. (CHR ''#'' # str_nat j) \<notin> fst ` set d"
  shows "number_tags i vs d
         = d @ zip (map (\<lambda>j. CHR ''#'' # str_nat j) [i..<i + length vs]) vs"
  using assms
proof (induction vs arbitrary: i d)
  case Nil
  then show ?case by simp
next
  case (Cons v vs)
  let ?tag = "\<lambda>j. CHR ''#'' # str_nat j"
  have 1: "dict_set (?tag i) v d = d @ [(?tag i, v)]"
    using Cons.prems by (intro dict_set_fresh) simp
  have 2: "\<forall>j\<ge>Suc i. ?tag j \<notin> fst ` set (d @ [(?tag i, v)])"
  proof (intro allI impI)
    fix j assume j: "Suc i \<le> j"
    then have "?tag j \<notin> fst ` set d" using Cons.prems by simp
    moreover have "?tag j \<noteq> ?tag i" using j str_nat_inj[of j i] by auto
    ultimately show "?tag j \<notin> fst ` set (d @ [(?tag i, v)])" by auto
  qed
  have 3: "[i..<i + length (v # vs)] = i # [Suc i..<Suc i + length vs]"
    using upt_conv_Cons[of i "i + length (v # vs)"] by simp
  show ?case
    unfolding number_tags.simps 1 3 using Cons.IH[OF 2] by simp
qed

lemma multi_values_all:
  assumes "map py_float toks = map (\<lambda>v. Some (Number v)) vs"
      and "\<forall>v\<in>set vs. in_bounds v \<or> v = 999"
  shows "multi_values toks = vs"
  using assms
proof (induction toks arbitrary: vs)
  case Nil
  then show ?case by simp
next
  case (Cons t toks)
  then obtain v vs' where vs: "vs = v # vs'" by (cases vs) auto
  with Cons.prems have "py_float t = Some (Number v)"
    and "map py_float toks = map (\<lambda>v. Some (Number v)) vs'"
    and "in_bounds v \<or> v = 999" and "\<forall>v\<in>set vs'. in_bounds v \<or> v = 999"
    by auto
  then show ?case using Cons.IH[of vs'] vs by simp
qed

lemma zip_tags_nth:
  "zip (map f [Suc 0..<length vs]) (tl vs) = map (\<lambda>i. (f i, vs ! i)) [Suc 0..<length vs]"
  by (rule nth_equalityI) (auto simp: nth_tl)

lemma multi_tags_values:
  assumes g: "re_search multi_omega_pattern content = Some g"
      and toks: "map py_float (py_split (py_strip g)) = map (\<lambda>v. Some (Number v)) vs"
      and ok: "\<forall>v\<in>set vs. in_bounds v \<or> v = 999"
      and len: "2 \<le> length vs"
  shows "multi_tags content
         = Some ((''background'', vs ! 0)
                 # map (\<lambda>i. (CHR ''#'' # str_nat i, vs ! i)) [1..<length vs])"
proof -
  have mv: "multi_values (py_split (py_strip g)) = vs"
    using toks ok by (rule multi_values_all)
  have hd: "hd vs = vs ! 0" using len by (cases vs) auto
  have "number_tags 1 (tl vs) [(''background'', vs ! 0)]
        = [(''background'', vs ! 0)]
          @ zip (map (\<lambda>j. CHR ''#'' # str_nat j) [1..<1 + length (tl vs)]) (tl vs)"
    by (rule number_tags_fresh) simp
  also have "1 + length (tl vs) = length vs" using len by simp
  finally have "number_tags 1 (tl vs) [(''background'', vs ! 0)]
        = (''background'', vs ! 0) # map (\<lambda>i. (CHR ''#'' # str_nat i, vs ! i)) [1..<length vs]"
    by (simp add: zip_tags_nth)
  then show ?thesis
    using len by (simp add: multi_tags_def g mv hd)
qed

text \<open>A text without the word \<^verbatim>\<open>background\<close> never enters the BranchSite block.\<close>

lemma rx_match_lit:
  "rx_match (lit w @ its) prev s cap = Some r \<Longrightarrow> \<exists>post. s = w @ post"
proof (induction w arbitrary: prev s cap)
  case Nil
  then show ?case by simp
next
  case (Cons c w)
  then obtain d ds where s: "s = d # ds" by (cases s) (auto simp: lit_def)
  with Cons.prems have "d = c" and "rx_match (lit w @ its) (Some d) ds (take_char d cap) = Some r"
    by (auto simp: lit_def split: if_splits)
  with Cons.IH s show ?case by fastforce
qed

lemma rx_search_from_Some:
  "rx_search_from p prev s = Some g
   \<Longrightarrow> \<exists>pre post prev'. s = pre @ post \<and> rx_match p prev' post Before = Some g"
proof (induction s arbitrary: prev)
  case Nil
  then show ?case by auto
next
  case (Cons c cs)
  show ?case
  proof (cases "rx_match p prev (c # cs) Before")
    case None
    with Cons.prems have "rx_search_from p (Some c) cs = Some g" by simp
    then obtain pre post prev' where "cs = pre @ post" "rx_match p prev' post Before = Some g"
      using Cons.IH by blast
    then have "c # cs = (c # pre) @ post \<and> rx_match p prev' post Before = Some g" by simp
    then show ?thesis by blast
  next
    case (Some r)
    with Cons.prems have "c # cs = [] @ (c # cs) \<and> rx_match p prev (c # cs) Before = Some g"
      by simp
    then show ?thesis by blast
  qed
qed

lemma re_search_lit_in:
  assumes "re_search (lit w @ its) s = Some g"
  shows "py_in w s"
proof -
  from assms obtain pre post prev' where
    "s = pre @ post" "rx_match (lit w @ its) prev' post Before = Some g"
    unfolding re_search_def using rx_search_from_Some by blast
  moreover then obtain post' where "post = w @ post'" using rx_match_lit by blast
  ultimately show ?thesis unfolding py_in_iff by blast
qed

lemma branchsite_tags_no_background:
  assumes "\<not> py_in ''background'' content"
  shows "branchsite_tags content = None"
proof -
  have "re_search branchsite_bg_pattern content = None"
  proof (cases "re_search branchsite_bg_pattern content")
    case (Some g)
    then have "py_in ''background'' content"
      unfolding branchsite_bg_pattern_def by (rule re_search_lit_in)
    with assms show ?thesis by simp
  qed simp
  then show ?thesis by (simp add: branchsite_tags_def)
qed

subsection \<open>The pattern of the listing line\<close>

text \<open>The lazy group takes a run of listing characters up to the end of the line.\<close>

lemma rx_match_lazy_listing:
  assumes "\<forall>c \<in> set body. in_class DigitDotSpace c \<and> c \<noteq> CHR 0x0A"
      and "tail = [] \<or> hd tail = CHR 0x0A"
  shows "rx_match [Rep DigitDotSpace 0 False, GroupClose, NewlineOrEnd] prev (body @ tail)
           (During g) = Some (g @ body)"
  using assms(1)
proof (induction body arbitrary: prev g)
  case Nil
  show ?case
  proof (cases tail)
    case Nil
    then show ?thesis by simp
  next
    case (Cons c cs)
    with assms(2) have "c = CHR 0x0A" by simp
    then show ?thesis by (simp add: Cons)
  qed
next
  case (Cons c cs)
  then have c: "in_class DigitDotSpace c" "c \<noteq> CHR 0x0A"
    and cs: "\<forall>c \<in> set cs. in_class DigitDotSpace c \<and> c \<noteq> CHR 0x0A" by simp_all
  from Cons.IH[OF cs, of "Some c" "g @ [c]"] c show ?case by simp
qed

lemma rx_match_group_listing:
  assumes "body \<noteq> []"
      and "\<forall>c \<in> set body. in_class DigitDotSpace c \<and> c \<noteq> CHR 0x0A"
      and "tail = [] \<or> hd tail = CHR 0x0A"
  shows "rx_match [GroupOpen, Rep DigitDotSpace (Suc 0) False, GroupClose, NewlineOrEnd] prev
           (body @ tail) cap = Some body"
proof -
  from assms(1) obtain c cs where b: "body = c # cs" by (cases body) auto
  with assms(2) have c: "in_class DigitDotSpace c"
    and cs: "\<forall>c \<in> set cs. in_class DigitDotSpace c \<and> c \<noteq> CHR 0x0A" by simp_all
  from rx_match_lazy_listing[OF cs assms(3), of "Some c" "[c]"] c
  show ?thesis by (simp add: b)
qed

text \<open>Greedy white space before a part of the pattern that matches what follows it.\<close>

lemma rx_match_spaces:
  assumes "\<forall>c \<in> set sp. py_isspace c"
      and "rest = [] \<or> \<not> py_isspace (hd rest)"
      and "\<And>pv. rx_match its pv rest Before = Some r"
  shows "rx_match (Rep Space 0 True # its) prev (sp @ rest) Before = Some r"
  using assms(1)
proof (induction sp arbitrary: prev)
  case Nil
  show ?case
  proof (cases rest)
    case Nil
    then show ?thesis using assms(3)[of prev] by simp
  next
    case (Cons c cs)
    with assms(2) have "\<not> py_isspace c" by simp
    then show ?thesis using assms(3)[of prev] by (simp add: Cons)
  qed
next
  case (Cons c cs)
  then have "py_isspace c" and "\<forall>c \<in> set cs. py_isspace c" by simp_all
  with Cons.IH[of "Some c"] show ?case by simp
qed

lemma rx_match_listing_tail:
  assumes "\<forall>c \<in> set sp. py_isspace c"
      and "body \<noteq> []" and "\<not> py_isspace (hd body)"
      and "\<forall>c \<in> set body. in_class DigitDotSpace c \<and> c \<noteq> CHR 0x0A"
      and "tail = [] \<or> hd tail = CHR 0x0A"
  shows "rx_match [Rep Space 0 True, GroupOpen, Rep DigitDotSpace (Suc 0) False, GroupClose,
                   NewlineOrEnd] prev (sp @ body @ tail) Before = Some body"
proof (rule rx_match_spaces[OF assms(1)])
  show "body @ tail = [] \<or> \<not> py_isspace (hd (body @ tail))"
    using assms(2,3) by simp
  show "rx_match [GroupOpen, Rep DigitDotSpace (Suc 0) False, GroupClose, NewlineOrEnd] pv
          (body @ tail) Before = Some body" for pv
    by (rule rx_match_group_listing[OF assms(2,4,5)])
qed

lemma header_spaces:
  "py_isspace CHR '' ''" "\<not> py_isspace CHR ''(''" "\<not> py_isspace CHR ''f''"
  "\<not> py_isspace CHR ''b''" "\<not> py_isspace CHR '':''" "\<not> py_isspace CHR ''w''"
  by code_simp+

lemma rx_match_header_line:
  assumes "\<forall>c \<in> set sp. py_isspace c"
      and "body \<noteq> []" and "\<not> py_isspace (hd body)"
      and "\<forall>c \<in> set body. in_class DigitDotSpace c \<and> c \<noteq> CHR 0x0A"
      and "tail = [] \<or> hd tail = CHR 0x0A"
  shows "rx_match multi_omega_pattern prev (''w (dN/dS) for branches:'' @ sp @ body @ tail)
           Before = Some body"
  unfolding multi_omega_pattern_def liti_def
  by (simp add: header_spaces rx_match_listing_tail[OF assms])

text \<open>Where the pattern matches, the text has \<^verbatim>\<open>(dN/dS)\<close> after one character and white space.\<close>

lemma rep_space_step:
  "rx_match (Rep Space 0 True # its) prev (c # cs) cap
   = (if py_isspace c
      then (case rx_match (Rep Space 0 True # its) (Some c) cs (take_char c cap) of
              Some r \<Rightarrow> Some r
            | None \<Rightarrow> rx_match its prev (c # cs) cap)
      else rx_match its prev (c # cs) cap)"
  by (simp only: rx_match.simps in_class.simps)

lemma spaces_splitI:
  assumes "s = ws @ rest" and "\<forall>c \<in> set ws. py_isspace c"
      and "rx_match its pv rest cap' = Some r"
  shows "\<exists>ws rest pv cap'. s = ws @ rest \<and> (\<forall>c \<in> set ws. py_isspace c)
           \<and> rx_match its pv rest cap' = Some r"
  by (rule exI[of _ ws], rule exI[of _ rest], rule exI[of _ pv], rule exI[of _ cap'])
     (simp add: assms)

lemma rx_match_spaces_split:
  "rx_match (Rep Space 0 True # its) prev s cap = Some r
   \<Longrightarrow> \<exists>ws rest pv cap'. s = ws @ rest \<and> (\<forall>c \<in> set ws. py_isspace c)
         \<and> rx_match its pv rest cap' = Some r"
proof (induction s arbitrary: prev cap)
  case Nil
  then have "rx_match its prev [] cap = Some r" by (simp only: rx_match.simps)
  then show ?case by (intro spaces_splitI[where ws = "[]" and rest = "[]"]) simp_all
next
  case (Cons c cs)
  show ?case
  proof (cases "py_isspace c")
    case True
    show ?thesis
    proof (cases "rx_match (Rep Space 0 True # its) (Some c) cs (take_char c cap)")
      case None
      with Cons.prems True have "rx_match its prev (c # cs) cap = Some r"
        by (simp only: rep_space_step if_True option.case)
      then show ?thesis by (intro spaces_splitI[where ws = "[]" and rest = "c # cs"]) simp_all
    next
      case (Some r')
      with Cons.prems True have "r' = r"
        by (simp only: rep_space_step if_True option.case option.inject)
      with Some have "rx_match (Rep Space 0 True # its) (Some c) cs (take_char c cap) = Some r"
        by simp
      from Cons.IH[OF this] obtain ws rest pv cap' where
        w: "cs = ws @ rest" "\<forall>c \<in> set ws. py_isspace c" "rx_match its pv rest cap' = Some r"
        by (elim exE conjE)
      show ?thesis
        using True w by (intro spaces_splitI[where ws = "c # ws" and rest = rest and pv = pv and cap' = cap']) simp_all
    qed
  next
    case False
    with Cons.prems have "rx_match its prev (c # cs) cap = Some r"
      by (simp only: rep_space_step if_False)
    then show ?thesis by (intro spaces_splitI[where ws = "[]" and rest = "c # cs"]) simp_all
  qed
qed

lemma rx_match_liti:
  "rx_match (liti w @ its) prev s cap = Some r
   \<Longrightarrow> \<exists>u post. s = u @ post \<and> py_lower u = py_lower w"
proof (induction w arbitrary: prev s cap)
  case Nil
  then show ?case by (simp add: py_lower_def)
next
  case (Cons c w)
  then obtain d ds where s: "s = d # ds" by (cases s) (auto simp: liti_def)
  with Cons.prems have d: "py_lower_char d = py_lower_char c"
    and "rx_match (liti w @ its) (Some d) ds (take_char d cap) = Some r"
    by (auto simp: liti_def split: if_splits)
  from Cons.IH[OF this(2)] obtain u post where "ds = u @ post" "py_lower u = py_lower w"
    by blast
  with s d have "s = (d # u) @ post \<and> py_lower (d # u) = py_lower (c # w)"
    by (simp add: py_lower_def)
  then show ?case by blast
qed

lemma multi_omega_pattern_shape:
  assumes "rx_match multi_omega_pattern prev s Before = Some r"
  shows "\<exists>a ws u rest. s = a # ws @ u @ rest \<and> (\<forall>c \<in> set ws. py_isspace c)
           \<and> py_lower u = py_lower ''(dN/dS)''"
proof -
  define its where "its = [Rep Space 0 True] @ liti ''for''
     @ [Rep Space 1 True] @ liti ''branche'' @ [Opt (LitI CHR ''s''), Rep Space 0 True]
     @ liti '':''
     @ [Rep Space 0 True, GroupOpen, Rep DigitDotSpace 1 False, GroupClose, NewlineOrEnd]"
  have p: "multi_omega_pattern = One (LitI CHR ''w'') # Rep Space 0 True # liti ''(dN/dS)'' @ its"
    by (simp add: multi_omega_pattern_def its_def liti_def)
  from assms obtain a s1 where s: "s = a # s1" unfolding p by (cases s) auto
  with assms have "rx_match (Rep Space 0 True # liti ''(dN/dS)'' @ its) (Some a) s1 Before = Some r"
    unfolding p by (auto split: if_splits)
  from rx_match_spaces_split[OF this] obtain ws rest pv cap' where
    w: "s1 = ws @ rest" "\<forall>c \<in> set ws. py_isspace c"
    and m: "rx_match (liti ''(dN/dS)'' @ its) pv rest cap' = Some r"
    by (elim exE conjE)
  from rx_match_liti[OF m] obtain u post where
    u: "rest = u @ post" "py_lower u = py_lower ''(dN/dS)''" by (elim exE conjE)
  show ?thesis
    by (rule exI[of _ a], rule exI[of _ ws], rule exI[of _ u], rule exI[of _ post])
       (simp add: s w u)
qed

text \<open>
  A list that starts inside \<open>p\<close> and has the form \<open>a # ws @ u\<close>, where neither \<open>ws\<close> nor
  \<open>u\<close> holds the character that follows \<open>p\<close>, lies within \<open>p\<close>.
\<close>

lemma shape_inside_prefix:
  assumes e: "p @ w0 # h' = (a # ws) @ u @ rest"
      and p: "p \<noteq> []" and ws: "w0 \<notin> set ws" and u: "w0 \<notin> set u"
  shows "\<exists>t'. p = (a # ws) @ u @ t'"
proof -
  from e have "(\<exists>t. p = (a # ws) @ t \<and> t @ w0 # h' = u @ rest)
               \<or> (\<exists>t. p @ t = a # ws \<and> w0 # h' = t @ u @ rest)"
    unfolding append_eq_append_conv2[of p "w0 # h'" "a # ws" "u @ rest"] by blast
  then show ?thesis
  proof
    assume "\<exists>t. p = (a # ws) @ t \<and> t @ w0 # h' = u @ rest"
    then obtain t where t: "p = (a # ws) @ t" "t @ w0 # h' = u @ rest" by blast
    from t(2) have "(\<exists>v. t = u @ v \<and> v @ w0 # h' = rest)
                    \<or> (\<exists>v. t @ v = u \<and> w0 # h' = v @ rest)"
      unfolding append_eq_append_conv2[of t "w0 # h'" u rest] by blast
    then show ?thesis
    proof
      assume "\<exists>v. t = u @ v \<and> v @ w0 # h' = rest"
      then obtain v where "t = u @ v" by blast
      with t(1) show ?thesis by simp
    next
      assume "\<exists>v. t @ v = u \<and> w0 # h' = v @ rest"
      then obtain v where v: "t @ v = u" "w0 # h' = v @ rest" by blast
      show ?thesis
      proof (cases v)
        case Nil
        with v(1) t(1) have "p = (a # ws) @ u @ []" by simp
        then show ?thesis by (rule exI)
      next
        case (Cons c cs)
        with v(2) have "c = w0" by simp
        with Cons v(1) have "w0 \<in> set u" by auto
        with u show ?thesis by simp
      qed
    qed
  next
    assume "\<exists>t. p @ t = a # ws \<and> w0 # h' = t @ u @ rest"
    then obtain t where t: "p @ t = a # ws" "w0 # h' = t @ u @ rest" by blast
    show ?thesis
    proof (cases t)
      case Nil
      show ?thesis
      proof (cases u)
        case Nil
        with \<open>t = []\<close> t(1) have "p = (a # ws) @ u @ []" by simp
        then show ?thesis by (rule exI)
      next
        case (Cons c cs)
        with \<open>t = []\<close> t(2) have "c = w0" by simp
        with Cons have "w0 \<in> set u" by simp
        with u show ?thesis by simp
      qed
    next
      case (Cons c cs)
      with t(2) have c: "c = w0" by simp
      from p obtain q qs where "p = q # qs" by (cases p) auto
      with t(1) Cons have "ws = qs @ c # cs" by simp
      with c have "w0 \<in> set ws" by simp
      with ws show ?thesis by simp
    qed
  qed
qed

text \<open>
  Before a header that holds the first \<^verbatim>\<open>(dN/dS)\<close> of the text, the pattern matches
  nowhere.
\<close>

lemma no_match_before_header:
  assumes pre: "\<not> occurs_ci ''(dN/dS)'' pre" and i: "i < length pre"
  shows "rx_match multi_omega_pattern pv (drop i pre @ ''w (dN/dS) for branches:'' @ x) Before
         = None"
proof (rule ccontr)
  assume "rx_match multi_omega_pattern pv (drop i pre @ ''w (dN/dS) for branches:'' @ x) Before
          \<noteq> None"
  then obtain r where
    "rx_match multi_omega_pattern pv (drop i pre @ ''w (dN/dS) for branches:'' @ x) Before
     = Some r"
    by (cases "rx_match multi_omega_pattern pv
                 (drop i pre @ ''w (dN/dS) for branches:'' @ x) Before") simp_all
  from multi_omega_pattern_shape[OF this] obtain a ws u rest where
    e0: "drop i pre @ ''w (dN/dS) for branches:'' @ x = a # ws @ u @ rest"
    and ws: "\<forall>c \<in> set ws. py_isspace c"
    and u: "py_lower u = py_lower ''(dN/dS)''"
    by (elim exE conjE)
  have h: "''w (dN/dS) for branches:'' @ x = CHR ''w'' # ('' (dN/dS) for branches:'' @ x)"
    by simp
  from e0 have e: "drop i pre @ CHR ''w'' # ('' (dN/dS) for branches:'' @ x)
                   = (a # ws) @ u @ rest"
    unfolding h by simp
  have lw: "py_lower_char CHR ''w'' \<notin> set (py_lower ''(dN/dS)'')" by code_simp
  have uw: "CHR ''w'' \<notin> set u"
  proof
    assume "CHR ''w'' \<in> set u"
    then have "py_lower_char CHR ''w'' \<in> set (py_lower u)" by (simp add: py_lower_def)
    with u lw show False by simp
  qed
  have ww: "CHR ''w'' \<notin> set ws" using ws header_spaces(6) by blast
  from i have ne: "drop i pre \<noteq> []" by simp
  from shape_inside_prefix[OF e ne ww uw] obtain t' where
    "drop i pre = (a # ws) @ u @ t'" by blast
  then have "pre = (take i pre @ a # ws) @ u @ t'"
    by (metis append.assoc append_take_drop_id)
  with u have "occurs_ci ''(dN/dS)'' pre" unfolding occurs_ci_def by blast
  with pre show False by simp
qed

lemma rx_search_from_skip:
  assumes "\<And>i pv. i < length pre \<Longrightarrow> rx_match p pv (drop i pre @ s) Before = None"
      and "\<And>pv. rx_match p pv s Before = Some g"
  shows "rx_search_from p prev (pre @ s) = Some g"
  using assms(1)
proof (induction pre arbitrary: prev)
  case Nil
  show ?case using assms(2)[of prev] by (cases s) simp_all
next
  case (Cons c cs)
  from Cons.prems[of 0 prev] have "rx_match p prev (c # cs @ s) Before = None" by simp
  moreover have "rx_search_from p (Some c) (cs @ s) = Some g"
  proof (rule Cons.IH)
    fix i pv assume "i < length cs"
    then show "rx_match p pv (drop i cs @ s) Before = None"
      using Cons.prems[of "Suc i" pv] by simp
  qed
  ultimately show ?case by simp
qed

text \<open>The listing that the search captures.\<close>

lemma re_search_listing:
  assumes "\<not> occurs_ci ''(dN/dS)'' pre"
      and "\<forall>c \<in> set sp. py_isspace c"
      and "body \<noteq> []" and "\<not> py_isspace (hd body)"
      and "\<forall>c \<in> set body. in_class DigitDotSpace c \<and> c \<noteq> CHR 0x0A"
      and "tail = [] \<or> hd tail = CHR 0x0A"
  shows "re_search multi_omega_pattern
           (pre @ ''w (dN/dS) for branches:'' @ sp @ body @ tail) = Some body"
  unfolding re_search_def
proof (rule rx_search_from_skip)
  fix i pv assume "i < length pre"
  then show "rx_match multi_omega_pattern pv
               (drop i pre @ ''w (dN/dS) for branches:'' @ sp @ body @ tail) Before = None"
    by (rule no_match_before_header[OF assms(1)])
next
  fix pv
  show "rx_match multi_omega_pattern pv (''w (dN/dS) for branches:'' @ sp @ body @ tail) Before
        = Some body"
    by (rule rx_match_header_line[OF assms(2-6)])
qed

text \<open>
  Claim C5. Take a text in which the first \<^verbatim>\<open>(dN/dS)\<close>, in any letter case, is that of a
  header \<^verbatim>\<open>w (dN/dS) for branches:\<close>, and in which the header is followed by white space
  and then, up to the end of its line, by a listing made of digits, dots and blanks only.
  When the BranchSite block of \<^verbatim>\<open>extract_omega_by_tags\<close> returns nothing (as for every
  text without a background/foreground pair) and the listing holds two or more tokens,
  all read by \<^verbatim>\<open>float\<close> and each within \<open>-10..100\<close> or equal to 999, the first value is
  stored under \<^verbatim>\<open>background\<close> and the \<open>i\<close>-th further value under \<^verbatim>\<open>#i\<close>, in that order;
  999 is kept under its tag. The line \<^verbatim>\<open>w (dN/dS) for branches: 0.35 0.06 999.00\<close>
  gives background 0.35, \<^verbatim>\<open>#1\<close> 0.06 and \<^verbatim>\<open>#2\<close> 999.
\<close>

theorem extract_omega_by_tags_multi:
  "(content = pre @ ''w (dN/dS) for branches:'' @ sp @ body @ tail
    \<and> \<not> occurs_ci ''(dN/dS)'' pre
    \<and> (\<forall>c \<in> set sp. py_isspace c)
    \<and> body \<noteq> [] \<and> \<not> py_isspace (hd body)
    \<and> (\<forall>c \<in> set body. (is_digit c \<or> c = CHR ''.'' \<or> py_isspace c) \<and> c \<noteq> CHR 0x0A)
    \<and> (tail = [] \<or> hd tail = CHR 0x0A)
    \<and> branchsite_tags content = None
    \<and> map py_float (py_split (py_strip body)) = map (\<lambda>v. Some (Number v)) vs
    \<and> (\<forall>v\<in>set vs. in_bounds v \<or> v = 999)
    \<and> 2 \<le> length vs
    \<longrightarrow> extract_omega_by_tags (Some content)
         = (''background'', vs ! 0)
           # map (\<lambda>i. (CHR ''#'' # str_nat i, vs ! i)) [1..<length vs])
   \<and> extract_omega_by_tags (Some ''w (dN/dS) for branches: 0.35 0.06 999.00'')
       = [(''background'', 0.35), (''#1'', 0.06), (''#2'', 999)]"
proof -
  have general: "extract_omega_by_tags (Some content)
         = (''background'', vs ! 0)
           # map (\<lambda>i. (CHR ''#'' # str_nat i, vs ! i)) [1..<length vs]"
    if c: "content = pre @ ''w (dN/dS) for branches:'' @ sp @ body @ tail"
      and p: "\<not> occurs_ci ''(dN/dS)'' pre"
      and s: "\<forall>c \<in> set sp. py_isspace c"
      and b: "body \<noteq> []" "\<not> py_isspace (hd body)"
        "\<forall>c \<in> set body. (is_digit c \<or> c = CHR ''.'' \<or> py_isspace c) \<and> c \<noteq> CHR 0x0A"
      and t: "tail = [] \<or> hd tail = CHR 0x0A"
      and bs: "branchsite_tags content = None"
      and toks: "map py_float (py_split (py_strip body)) = map (\<lambda>v. Some (Number v)) vs"
      and ok: "\<forall>v\<in>set vs. in_bounds v \<or> v = 999"
      and len: "2 \<le> length vs"
  proof -
    from b(3) have b': "\<forall>c \<in> set body. in_class DigitDotSpace c \<and> c \<noteq> CHR 0x0A"
      by simp
    have g: "re_search multi_omega_pattern content = Some body"
      unfolding c by (rule re_search_listing[OF p s b(1,2) b' t])
    from multi_tags_values[OF g toks ok len] bs show ?thesis
      by (simp add: extract_omega_by_tags_def)
  qed
  have example: "extract_omega_by_tags (Some ''w (dN/dS) for branches: 0.35 0.06 999.00'')
       = [(''background'', 0.35), (''#1'', 0.06), (''#2'', 999)]"
    by code_simp
  from general example show ?thesis by blast
qed

theorem extract_omega_by_tags_multi_witness:
  "\<not> occurs_ci ''(dN/dS)'' (''kappa (ts/tv) =  2.10000'' @ [CHR 0x0A, CHR 0x0A])
   \<and> list_all py_isspace ''  ''
   \<and> list_all (\<lambda>c. (is_digit c \<or> c = CHR ''.'' \<or> py_isspace c) \<and> c \<noteq> CHR 0x0A)
        ''0.35 0.06 999.00''
   \<and> branchsite_tags
        ((''kappa (ts/tv) =  2.10000'' @ [CHR 0x0A, CHR 0x0A]) @ ''w (dN/dS) for branches:''
         @ ''  '' @ ''0.35 0.06 999.00'' @ [CHR 0x0A]) = None
   \<and> map py_float (py_split (py_strip ''0.35 0.06 999.00''))
       = map (\<lambda>v. Some (Number v)) [0.35, 0.06, 999]
   \<and> in_bounds 0.35 \<and> in_bounds 0.06
   \<and> extract_omega_by_tags
        (Some ((''kappa (ts/tv) =  2.10000'' @ [CHR 0x0A, CHR 0x0A]) @ ''w (dN/dS) for branches:''
               @ ''  '' @ ''0.35 0.06 999.00'' @ [CHR 0x0A]))
       = [(''background'', 0.35), (''#1'', 0.06), (''#2'', 999)]"
proof -
  let ?pre = "''kappa (ts/tv) =  2.10000'' @ [CHR 0x0A, CHR 0x0A]"
  let ?content = "?pre @ ''w (dN/dS) for branches:'' @ ''  '' @ ''0.35 0.06 999.00'' @ [CHR 0x0A]"
  have 1: "\<not> occurs_ci ''(dN/dS)'' ?pre" unfolding occurs_ci_py_in by code_simp
  have 2: "list_all py_isspace ''  ''" by code_simp
  have 3: "list_all (\<lambda>c. (is_digit c \<or> c = CHR ''.'' \<or> py_isspace c) \<and> c \<noteq> CHR 0x0A)
             ''0.35 0.06 999.00''"
    by code_simp
  have 4: "\<not> py_isspace (hd ''0.35 0.06 999.00'')" by code_simp
  have "\<not> py_in ''background'' ?content" by code_simp
  then have 5: "branchsite_tags ?content = None" by (rule branchsite_tags_no_background)
  have 6: "map py_float (py_split (py_strip ''0.35 0.06 999.00''))
       = map (\<lambda>v. Some (Number v)) [0.35, 0.06, 999]"
    by code_simp
  have 7: "in_bounds 0.35 \<and> in_bounds 0.06" by (simp add: in_bounds_def)
  then have 8: "\<forall>v\<in>set [0.35, 0.06, 999 :: real]. in_bounds v \<or> v = 999" by simp
  have 9: "(''background'', [0.35, 0.06, 999 :: real] ! 0)
           # map (\<lambda>i. (CHR ''#'' # str_nat i, [0.35, 0.06, 999 :: real] ! i))
               [1..<length [0.35, 0.06, 999 :: real]]
           = [(''background'', 0.35), (''#1'', 0.06), (''#2'', 999)]"
    by code_simp
  from extract_omega_by_tags_multi[of ?content ?pre "''  ''" "''0.35 0.06 999.00''"
         "[CHR 0x0A]" "[0.35, 0.06, 999]"]
  have "extract_omega_by_tags (Some ?content)
        = (''background'', [0.35, 0.06, 999 :: real] ! 0)
          # map (\<lambda>i. (CHR ''#'' # str_nat i, [0.35, 0.06, 999 :: real] ! i))
              [1..<length [0.35, 0.06, 999 :: real]]"
    using 1 2 3 4 5 6 8 by (simp add: list_all_iff)
  then have "extract_omega_by_tags (Some ?content)
             = [(''background'', 0.35), (''#1'', 0.06), (''#2'', 999)]"
    unfolding 9 .
  with 1 2 3 5 6 7 show ?thesis by blast
qed

text \<open>
  A value outside the bound is dropped, and the values after it move up by one tag:
  here the third value, 0.06, is stored under \<^verbatim>\<open>#1\<close>.
\<close>

theorem extract_omega_by_tags_out_of_bounds_counterexample:
  "extract_omega_by_tags (Some ''w (dN/dS) for branches: 0.35 500 0.06'')
     = [(''background'', 0.35), (''#1'', 0.06)]"
  by code_simp

text \<open>
  A listing with a sign is outside the pattern: nothing is captured, and without a branch
  table the result is empty.
\<close>

lemma extract_omega_by_tags_signed_listing:
  "re_search multi_omega_pattern ''w (dN/dS) for branches: 0.35 -0.5 0.06'' = None
   \<and> extract_omega_by_tags (Some ''w (dN/dS) for branches: 0.35 -0.5 0.06'') = []"
  by code_simp

subsection \<open>The control file\<close>

text \<open>A text without a newline occurs in a list of joined lines exactly when it occurs in one of the lines.\<close>

lemma py_in_line_split:
  assumes nl: "CHR 0x0A \<notin> set sub" and ne: "sub \<noteq> []"
  shows "py_in sub (l @ CHR 0x0A # rest) \<longleftrightarrow> py_in sub l \<or> py_in sub rest"
proof
  assume "py_in sub (l @ CHR 0x0A # rest)"
  then obtain pre post where e: "l @ CHR 0x0A # rest = pre @ sub @ post"
    by (auto simp: py_in_iff)
  then consider us where "l = pre @ us" "us @ CHR 0x0A # rest = sub @ post"
    | us where "l @ us = pre" "CHR 0x0A # rest = us @ sub @ post"
    by (auto simp: append_eq_append_conv2)
  then show "py_in sub l \<or> py_in sub rest"
  proof cases
    case 1
    from 1(2) consider vs where "us = sub @ vs"
      | vs where "us @ vs = sub" "CHR 0x0A # rest = vs @ post"
      by (auto simp: append_eq_append_conv2)
    then show ?thesis
    proof cases
      case 1
      with \<open>l = pre @ us\<close> have "l = pre @ sub @ vs" by simp
      then show ?thesis unfolding py_in_iff by blast
    next
      case 2
      show ?thesis
      proof (cases vs)
        case Nil
        with 2 \<open>l = pre @ us\<close> have "l = pre @ sub @ []" by simp
        then show ?thesis unfolding py_in_iff by blast
      next
        case (Cons v vs')
        with 2 have "v = CHR 0x0A" by simp
        with Cons 2(1) nl show ?thesis by auto
      qed
    qed
  next
    case 2
    show ?thesis
    proof (cases us)
      case Nil
      with 2(2) ne nl show ?thesis by (cases sub) auto
    next
      case (Cons u us')
      with 2(2) have "rest = us' @ sub @ post" by simp
      then show ?thesis unfolding py_in_iff by blast
    qed
  qed
next
  assume "py_in sub l \<or> py_in sub rest"
  then show "py_in sub (l @ CHR 0x0A # rest)"
  proof
    assume "py_in sub l"
    then obtain pre post where "l = pre @ sub @ post" by (auto simp: py_in_iff)
    then have "l @ CHR 0x0A # rest = pre @ sub @ (post @ CHR 0x0A # rest)" by simp
    then show ?thesis unfolding py_in_iff by blast
  next
    assume "py_in sub rest"
    then obtain pre post where "rest = pre @ sub @ post" by (auto simp: py_in_iff)
    then have "l @ CHR 0x0A # rest = (l @ CHR 0x0A # pre) @ sub @ post" by simp
    then show ?thesis unfolding py_in_iff by blast
  qed
qed

lemma py_in_unlines:
  assumes "CHR 0x0A \<notin> set sub" and "sub \<noteq> []"
  shows "py_in sub (unlines ls) \<longleftrightarrow> list_ex (py_in sub) ls"
proof (induction ls)
  case Nil
  then show ?case using assms by (simp add: unlines_def)
next
  case (Cons l ls)
  have "unlines (l # ls) = l @ CHR 0x0A # unlines ls" by (simp add: unlines_def)
  then show ?case using Cons py_in_line_split[OF assms] by simp
qed

text \<open>
  For a model name that is a key of \<^verbatim>\<open>NEUTRAL_MODELS\<close> (\<^verbatim>\<open>M0\<close>, \<^verbatim>\<open>M1a\<close>,
  \<^verbatim>\<open>BranchSite_A_null\<close>) the generated text has \<^verbatim>\<open>fix_omega = 1\<close> and \<^verbatim>\<open>omega = 1.0\<close>,
  whatever the configuration and the initial ratio.
\<close>

lemma fix_omega_line_neutral:
  "py_in ''fix_omega = 1'' (''    fix_omega = '' @ py_str (PyInt 1) @ ''         * Estimate or fix omega'')"
  by code_simp

lemma omega_line_neutral:
  "py_in ''omega = 1.0'' (''        omega = '' @ py_str (PyFloat 1.0) @ ''        * Initial or fixed omega'')"
  by code_simp

lemma generate_ctl_content_neutral:
  assumes "n \<in> set NEUTRAL_MODELS"
      and "generate_ctl_content seqfile treefile outfile cfg omega cleandata (Some n) = Inr ctl"
  shows "py_in ''fix_omega = 1'' ctl \<and> py_in ''omega = 1.0'' ctl"
proof -
  from assms obtain m ns cf where
    ctl: "ctl = ctl_template seqfile treefile outfile cleandata m ns cf (PyInt 1) (PyFloat 1.0)"
    by (auto simp: generate_ctl_content_def Let_def split: option.splits)
  have u1: "py_in ''fix_omega = 1'' (unlines ls) \<longleftrightarrow> list_ex (py_in ''fix_omega = 1'') ls" for ls
    by (rule py_in_unlines) simp_all
  have u2: "py_in ''omega = 1.0'' (unlines ls) \<longleftrightarrow> list_ex (py_in ''omega = 1.0'') ls" for ls
    by (rule py_in_unlines) simp_all
  have 1: "py_in ''fix_omega = 1'' ctl"
    unfolding ctl ctl_template_def u1 list_ex_iff
    by (rule bexI[where P = "py_in ''fix_omega = 1''", OF fix_omega_line_neutral]) simp
  have 2: "py_in ''omega = 1.0'' ctl"
    unfolding ctl ctl_template_def u2 list_ex_iff
    by (rule bexI[where P = "py_in ''omega = 1.0''", OF omega_line_neutral]) simp
  from 1 2 show ?thesis ..
qed

text \<open>
  Claim C1, at \<^verbatim>\<open>Branch-site_null\<close>. The docstring of \<^verbatim>\<open>generate_ctl_content\<close> names
  \<^verbatim>\<open>M1a\<close> and \<^verbatim>\<open>Branch-site_null\<close> as the neutral models whose ratio is forced to 1.0 with
  \<^verbatim>\<open>fix_omega = 1\<close>; the table \<^verbatim>\<open>NEUTRAL_MODELS\<close> that the function consults holds the
  former name \<^verbatim>\<open>BranchSite_A_null\<close> instead. With the override \<^verbatim>\<open>fix_omega = 0\<close> for
  \<^verbatim>\<open>Branch-site_null\<close> and the initial ratio 0.5, the generated control file has
  \<^verbatim>\<open>fix_omega = 0\<close> and \<^verbatim>\<open>omega = 0.5\<close>, and neither \<^verbatim>\<open>fix_omega = 1\<close> nor
  \<^verbatim>\<open>omega = 1.0\<close>.
\<close>

theorem generate_ctl_content_branch_site_null:
  "generate_ctl_content ''g1.fas'' ''tree.nwk'' ''g1_Branch-site_null_results.txt''
     (merged_config [(''Branch-site_null'', [(''fix_omega'', PyInt 0)])] ''Branch-site_null'')
     0.5 1 (Some ''Branch-site_null'')
   = Inr (ctl_template ''g1.fas'' ''tree.nwk'' ''g1_Branch-site_null_results.txt''
            1 (PyInt 2) (PyInt 2) (PyInt 7) (PyInt 0) (PyFloat 0.5))
   \<and> py_in ''fix_omega = 0''
        (ctl_template ''g1.fas'' ''tree.nwk'' ''g1_Branch-site_null_results.txt''
            1 (PyInt 2) (PyInt 2) (PyInt 7) (PyInt 0) (PyFloat 0.5))
   \<and> py_in ''omega = 0.5''
        (ctl_template ''g1.fas'' ''tree.nwk'' ''g1_Branch-site_null_results.txt''
            1 (PyInt 2) (PyInt 2) (PyInt 7) (PyInt 0) (PyFloat 0.5))
   \<and> \<not> py_in ''fix_omega = 1''
        (ctl_template ''g1.fas'' ''tree.nwk'' ''g1_Branch-site_null_results.txt''
            1 (PyInt 2) (PyInt 2) (PyInt 7) (PyInt 0) (PyFloat 0.5))
   \<and> \<not> py_in ''omega = 1.0''
        (ctl_template ''g1.fas'' ''tree.nwk'' ''g1_Branch-site_null_results.txt''
            1 (PyInt 2) (PyInt 2) (PyInt 7) (PyInt 0) (PyFloat 0.5))"
proof -
  let ?text = "ctl_template ''g1.fas'' ''tree.nwk'' ''g1_Branch-site_null_results.txt''
            1 (PyInt 2) (PyInt 2) (PyInt 7) (PyInt 0) (PyFloat 0.5)"
  have 0: "generate_ctl_content ''g1.fas'' ''tree.nwk'' ''g1_Branch-site_null_results.txt''
     (merged_config [(''Branch-site_null'', [(''fix_omega'', PyInt 0)])] ''Branch-site_null'')
     0.5 1 (Some ''Branch-site_null'') = Inr ?text"
    by code_simp
  have 1: "py_in ''fix_omega = 0'' ?text"
    unfolding ctl_template_def by (subst py_in_unlines) code_simp+
  have 2: "py_in ''omega = 0.5'' ?text"
    unfolding ctl_template_def by (subst py_in_unlines) code_simp+
  have 3: "\<not> py_in ''fix_omega = 1'' ?text"
    unfolding ctl_template_def by (subst py_in_unlines) code_simp+
  have 4: "\<not> py_in ''omega = 1.0'' ?text"
    unfolding ctl_template_def by (subst py_in_unlines) code_simp+
  from 0 1 2 3 4 show ?thesis by blast
qed

subsection \<open>The log of a run\<close>

text \<open>A run that ends normally: its result and the lines it appends to the log.\<close>

lemma run_single_analysis_finished:
  "run_single_analysis sample_config finished_run sample_gene ''M0''
   = (Some \<lparr>res_output_file = Some ''results/M0/g1_M0_results.txt'', res_lnL = Some (- 100),
            res_np = Some 12, res_omega = None, res_execution_time = 12.5,
            res_status = ''success'', res_stop_count = 0\<rparr>,
      [''[M0] g1: Running command: codeml in temp_g1'', ''[M0] g1: process returncode=0'',
       ''  stdout (last 200 lines):'', ''CODONML in paml'',
       ''[M0] g1: FINISHED (lnL=-100.0, np=12, '' @ [CHR 0xCF, CHR 0x89]
       @ ''=None, time=12.5s, stop_count=0)''])"
  by code_simp

subsection \<open>Timeouts in the batch loop\<close>

lemma run_single_analysis_timeout:
  assumes "make_ctl cfg fas_file model_name = Inr ()"
      and "pr_outcome run = TimeoutExpired"
  shows "run_single_analysis cfg run fas_file model_name
         = (None,
            [run_tag model_name (gene_stem fas_file) @ ''Running command: '' @ pr_command run
               @ '' in '' @ pr_temp_dir run]
            @ timeout_log cfg model_name (gene_stem fas_file) run)"
  using assms by (simp add: run_single_analysis_def Let_def)

text \<open>A run that times out gives no result, whether or not its control file was written.\<close>

lemma run_single_analysis_timeout_None:
  assumes "pr_outcome run = TimeoutExpired"
  shows "fst (run_single_analysis cfg run fas_file model_name) = None"
  using assms by (simp add: run_single_analysis_def Let_def split: sum.splits)

lemma run_models_no_result:
  assumes "fst (run_single_analysis cfg (world (gene_stem fas_file) model_name) fas_file model_name)
           = None"
  shows "run_models cfg world fas_file (model_name # rest) (gene_res, logf)
         = run_models cfg world fas_file rest
             (gene_res,
              logf @ snd (run_single_analysis cfg (world (gene_stem fas_file) model_name)
                            fas_file model_name))"
  using assms
  by (cases "run_single_analysis cfg (world (gene_stem fas_file) model_name) fas_file model_name")
     simp

text \<open>
  The results of the model loop are those of the loop over the models whose run did not
  time out.
\<close>

lemma run_models_skips_timeouts:
  "fst (run_models cfg world fas_file models (gene_res, logf))
   = fst (run_models cfg world fas_file
            (filter (\<lambda>model_name.
                       pr_outcome (world (gene_stem fas_file) model_name) \<noteq> TimeoutExpired)
               models)
            (gene_res, logf'))"
proof (induction models arbitrary: gene_res logf logf')
  case Nil
  then show ?case by simp
next
  case (Cons model_name models)
  let ?r = "run_single_analysis cfg (world (gene_stem fas_file) model_name) fas_file model_name"
  show ?case
  proof (cases "pr_outcome (world (gene_stem fas_file) model_name) = TimeoutExpired")
    case True
    then have "fst ?r = None" by (rule run_single_analysis_timeout_None)
    from run_models_no_result[of cfg world fas_file model_name, OF this] True Cons.IH
    show ?thesis by simp
  next
    case False
    obtain res lines where r: "?r = (res, lines)" by (cases ?r)
    show ?thesis
      using False Cons.IH[of _ "logf @ lines" "logf' @ lines"]
      by (cases res) (simp_all add: r)
  qed
qed

text \<open>Every gene of the batch gets its entry in the results, in the order of the files.\<close>

lemma dict_set_keys: "fst ` set (dict_set k v d) = insert k (fst ` set d)"
proof (induction d)
  case Nil
  then show ?case by simp
next
  case (Cons a d)
  obtain k' v' where a: "a = (k', v')" by (cases a)
  show ?case using Cons.IH by (cases "k' = k") (simp_all add: a insert_commute)
qed

lemma run_genes_keys:
  "fst ` set (fst (run_genes cfg world fas_files (results, logf)))
   = fst ` set results \<union> gene_stem ` set fas_files"
proof (induction fas_files arbitrary: results logf)
  case Nil
  then show ?case by simp
next
  case (Cons fas_file rest)
  obtain gene_res logf' where
    m: "run_models cfg world fas_file (cfg_models cfg) ([], logf) = (gene_res, logf')"
    by (cases "run_models cfg world fas_file (cfg_models cfg) ([], logf)")
  show ?case using Cons.IH[of "dict_set (gene_stem fas_file) gene_res results" logf']
    by (simp add: m dict_set_keys)
qed

text \<open>
  Claim C6. A run whose wait for the external process times out returns no result:
  nothing is stored for its (gene, model) pair, and there is no status value for it.
  The log receives the \<^verbatim>\<open>TIMEOUT\<close> line and the last 200 lines of both streams. The loop
  goes on with the next model of the gene, the stored results unchanged; the results of
  the model loop are those of the loop without the timed-out runs, and every gene of the
  batch gets its entry.
\<close>

theorem timeout_yields_no_result:
  "(make_ctl cfg fas_file model_name = Inr ()
    \<and> pr_outcome (world (gene_stem fas_file) model_name) = TimeoutExpired
    \<longrightarrow> run_single_analysis cfg (world (gene_stem fas_file) model_name) fas_file model_name
          = (None,
             [run_tag model_name (gene_stem fas_file) @ ''Running command: ''
                @ pr_command (world (gene_stem fas_file) model_name) @ '' in ''
                @ pr_temp_dir (world (gene_stem fas_file) model_name),
              run_tag model_name (gene_stem fas_file) @ ''TIMEOUT after ''
                @ str_int (cfg_timeout cfg) @ ''s'',
              ''  Captured stdout (last 200 lines):'']
             @ last_lines 200 (pr_stdout (world (gene_stem fas_file) model_name))
             @ [''  Captured stderr (last 200 lines):'']
             @ last_lines 200 (pr_stderr (world (gene_stem fas_file) model_name))))
   \<and> (pr_outcome (world (gene_stem fas_file) model_name) = TimeoutExpired
      \<longrightarrow> run_models cfg world fas_file (model_name # rest) (gene_res, logf)
          = run_models cfg world fas_file rest
              (gene_res,
               logf @ snd (run_single_analysis cfg (world (gene_stem fas_file) model_name)
                             fas_file model_name)))
   \<and> fst (run_models cfg world fas_file models (gene_res, logf))
     = fst (run_models cfg world fas_file
              (filter (\<lambda>model_name.
                         pr_outcome (world (gene_stem fas_file) model_name) \<noteq> TimeoutExpired)
                 models)
              (gene_res, logf))
   \<and> fst ` set (fst (run_genes cfg world fas_files ([], [])))
     = gene_stem ` set fas_files"
proof (intro conjI impI)
  let ?run = "world (gene_stem fas_file) model_name"
  assume a: "make_ctl cfg fas_file model_name = Inr () \<and> pr_outcome ?run = TimeoutExpired"
  then have "run_single_analysis cfg ?run fas_file model_name
         = (None,
            [run_tag model_name (gene_stem fas_file) @ ''Running command: '' @ pr_command ?run
               @ '' in '' @ pr_temp_dir ?run]
            @ timeout_log cfg model_name (gene_stem fas_file) ?run)"
    by (intro run_single_analysis_timeout) simp_all
  then show "run_single_analysis cfg ?run fas_file model_name
          = (None,
             [run_tag model_name (gene_stem fas_file) @ ''Running command: ''
                @ pr_command ?run @ '' in '' @ pr_temp_dir ?run,
              run_tag model_name (gene_stem fas_file) @ ''TIMEOUT after ''
                @ str_int (cfg_timeout cfg) @ ''s'',
              ''  Captured stdout (last 200 lines):'']
             @ last_lines 200 (pr_stdout ?run)
             @ [''  Captured stderr (last 200 lines):'']
             @ last_lines 200 (pr_stderr ?run))"
    by (simp add: timeout_log_def)
next
  let ?run = "world (gene_stem fas_file) model_name"
  assume "pr_outcome ?run = TimeoutExpired"
  then have "fst (run_single_analysis cfg ?run fas_file model_name) = None"
    by (rule run_single_analysis_timeout_None)
  then show "run_models cfg world fas_file (model_name # rest) (gene_res, logf)
          = run_models cfg world fas_file rest
              (gene_res, logf @ snd (run_single_analysis cfg ?run fas_file model_name))"
    by (rule run_models_no_result)
next
  show "fst (run_models cfg world fas_file models (gene_res, logf))
     = fst (run_models cfg world fas_file
              (filter (\<lambda>model_name.
                         pr_outcome (world (gene_stem fas_file) model_name) \<noteq> TimeoutExpired)
                 models)
              (gene_res, logf))"
    by (rule run_models_skips_timeouts)
next
  show "fst ` set (fst (run_genes cfg world fas_files ([], []))) = gene_stem ` set fas_files"
    using run_genes_keys[of cfg world fas_files "[]" "[]"] by simp
qed

theorem timeout_yields_no_result_witness:
  "make_ctl sample_config sample_gene ''M0'' = Inr ()
   \<and> pr_outcome timed_out_run = TimeoutExpired
   \<and> run_single_analysis sample_config timed_out_run sample_gene ''M0''
     = (None,
        [run_tag ''M0'' (gene_stem sample_gene) @ ''Running command: ''
           @ pr_command timed_out_run @ '' in '' @ pr_temp_dir timed_out_run,
         run_tag ''M0'' (gene_stem sample_gene) @ ''TIMEOUT after ''
           @ str_int (cfg_timeout sample_config) @ ''s'',
         ''  Captured stdout (last 200 lines):'']
        @ last_lines 200 (pr_stdout timed_out_run)
        @ [''  Captured stderr (last 200 lines):'']
        @ last_lines 200 (pr_stderr timed_out_run))
   \<and> run_models sample_config (\<lambda>gene model. timed_out_run) sample_gene [''M0'', ''M1a'']
        ([], [])
      = run_models sample_config (\<lambda>gene model. timed_out_run) sample_gene [''M1a'']
          ([], [] @ snd (run_single_analysis sample_config timed_out_run sample_gene ''M0''))"
proof -
  have 1: "make_ctl sample_config sample_gene ''M0'' = Inr ()" by code_simp
  have 2: "pr_outcome timed_out_run = TimeoutExpired" by (simp add: timed_out_run_def)
  note t = timeout_yields_no_result[of sample_config sample_gene "''M0''"
         "\<lambda>gene model. timed_out_run" "[''M1a'']" "[]" "[]"]
  from t 1 2 show ?thesis by blast
qed

text \<open>
  With every run timing out, the batch stores an empty dictionary for the gene: there is
  no outcome for (\<^verbatim>\<open>g1\<close>, \<^verbatim>\<open>M0\<close>) that could carry a status. The likelihood-ratio step
  that follows the loop then finds no valid gene for its one comparison and ends the
  batch with \<^verbatim>\<open>ZeroDivisionError\<close>.
\<close>

theorem timeout_status_counterexample:
  "run_single_analysis sample_config timed_out_run sample_gene ''M0''
     = (None,
        [''[M0] g1: Running command: codeml in temp_g1'', ''[M0] g1: TIMEOUT after 1600s'',
         ''  Captured stdout (last 200 lines):'', ''CODONML in paml'', ''Iterating'',
         ''  Captured stderr (last 200 lines):''])
   \<and> fst (run_genes sample_config (\<lambda>gene model. timed_out_run) [sample_gene] ([], []))
       = [(''g1'', [])]
   \<and> run_batch_analysis (\<lambda>statistic df. 0) (\<lambda>path. None) sample_config
         (\<lambda>gene model. timed_out_run)
         [sample_gene]
       = Inl ZeroDivisionError"
proof -
  have 1: "run_single_analysis sample_config timed_out_run sample_gene ''M0''
     = (None,
        [''[M0] g1: Running command: codeml in temp_g1'', ''[M0] g1: TIMEOUT after 1600s'',
         ''  Captured stdout (last 200 lines):'', ''CODONML in paml'', ''Iterating'',
         ''  Captured stderr (last 200 lines):''])"
    by code_simp
  have 2: "fst (run_genes sample_config (\<lambda>gene model. timed_out_run) [sample_gene] ([], []))
       = [(''g1'', [])]"
    by code_simp
  have 3: "run_batch_analysis (\<lambda>statistic df. 0) (\<lambda>path. None) sample_config
         (\<lambda>gene model. timed_out_run)
         [sample_gene] = Inl ZeroDivisionError"
    by code_simp
  from 1 2 3 show ?thesis by blast
qed

subsection \<open>The summary table\<close>

lemma length_model_cells: "length (model_cells read_file gene_res model) = 5"
  by (simp add: model_cells_def Let_def split: option.splits)

lemma length_model_columns: "length (model_columns model) = 5"
  by (simp add: model_columns_def)

lemma concat_block:
  assumes "\<And>x. length (f x) = n" and "i < length xs"
  shows "take n (drop (n * i) (concat (map f xs) @ rest)) = f (xs ! i)"
  using assms(2)
proof (induction xs arbitrary: i)
  case Nil
  then show ?case by simp
next
  case (Cons x xs)
  show ?case
  proof (cases i)
    case 0
    then show ?thesis by (simp add: assms(1))
  next
    case (Suc j)
    with Cons.prems have "j < length xs" by simp
    from Cons.IH[OF this] show ?thesis by (simp add: Suc assms(1))
  qed
qed

lemma take_drop_nth:
  assumes "take n (drop k xs) = ys" and "j < length ys"
  shows "xs ! (k + j) = ys ! j"
proof -
  from assms have "j < n" and "k + j < length xs" by auto
  then show ?thesis using assms(1) by (metis nth_take nth_drop less_imp_le_nat le_add1 order.strict_trans1)
qed

lemma summary_row_block:
  assumes "i < length models"
  shows "take 5 (drop (1 + 5 * i) (summary_row read_file models gene_name gene_res))
         = map clean_cell (model_cells read_file gene_res (models ! i))"
proof -
  have "take 5 (drop (5 * i)
          (concat (map (model_cells read_file gene_res) models)
           @ map (summary_lrt_cell gene_res) (summary_lrt_columns models)))
        = model_cells read_file gene_res (models ! i)"
    using assms by (intro concat_block length_model_cells)
  then have "map clean_cell (model_cells read_file gene_res (models ! i))
        = take 5 (drop (5 * i)
            (map clean_cell
               (concat (map (model_cells read_file gene_res) models)
                @ map (summary_lrt_cell gene_res) (summary_lrt_columns models))))"
    by (simp only: take_map drop_map)
  then show ?thesis by (simp add: summary_row_def)
qed

lemma summary_header_block:
  assumes "i < length models"
  shows "take 5 (drop (1 + 5 * i) (summary_header models)) = model_columns (models ! i)"
proof -
  have "take 5 (drop (5 * i)
          (concat (map model_columns models)
           @ map (\<lambda>(null_model, alt_model, column). column) (summary_lrt_columns models)))
        = model_columns (models ! i)"
    using assms by (intro concat_block length_model_columns)
  then show ?thesis by (simp add: summary_header_def)
qed

lemma length_concat_blocks:
  assumes "\<And>x. length (f x) = n"
  shows "length (concat (map f xs)) = n * length xs"
  by (induction xs) (simp_all add: assms)

lemma length_summary_row:
  "length (summary_row read_file models gene_name gene_res) = length (summary_header models)"
  by (simp add: summary_row_def summary_header_def
        length_concat_blocks[where n = 5, OF length_model_cells]
        length_concat_blocks[where n = 5, OF length_model_columns])

lemma summary_row_present:
  assumes "dict_get results gene_name = Some gene_res"
  shows "summary_row read_file (cfg_models cfg) gene_name gene_res
         \<in> set (tl (save_summary read_file cfg results))"
proof -
  from assms have "gene_name \<in> set (sort (map fst results))"
    by (auto simp: dict_get_def dest: map_of_SomeD intro: rev_image_eqI)
  then show ?thesis using assms by (force simp: save_summary_def)
qed

text \<open>
  Claim C7. In the table of \<^verbatim>\<open>_save_summary\<close> every gene of the results has its row and
  every selected model has its five columns. For a (gene, model) pair without a result
  the cells of lnL, np, omega and time are \<^verbatim>\<open>NA\<close>; the cell of stops is \<^verbatim>\<open>0\<close>.
\<close>

theorem save_summary_missing_cell:
  "i < length (cfg_models cfg) \<and> dict_get results gene_name = Some gene_res
   \<and> dict_get gene_res (cfg_models cfg ! i) = None
   \<longrightarrow> summary_row read_file (cfg_models cfg) gene_name gene_res
         \<in> set (tl (save_summary read_file cfg results))
       \<and> length (summary_row read_file (cfg_models cfg) gene_name gene_res)
         = length (hd (save_summary read_file cfg results))
       \<and> take 5 (drop (1 + 5 * i) (hd (save_summary read_file cfg results)))
         = model_columns (cfg_models cfg ! i)
       \<and> take 5 (drop (1 + 5 * i) (summary_row read_file (cfg_models cfg) gene_name gene_res))
         = [''NA'', ''NA'', ''NA'', ''NA'', ''0'']"
proof (intro impI conjI)
  assume a: "i < length (cfg_models cfg) \<and> dict_get results gene_name = Some gene_res
             \<and> dict_get gene_res (cfg_models cfg ! i) = None"
  show "summary_row read_file (cfg_models cfg) gene_name gene_res
          \<in> set (tl (save_summary read_file cfg results))"
    using a by (intro summary_row_present) simp
  show "length (summary_row read_file (cfg_models cfg) gene_name gene_res)
          = length (hd (save_summary read_file cfg results))"
    by (simp add: save_summary_def length_summary_row)
  show "take 5 (drop (1 + 5 * i) (hd (save_summary read_file cfg results)))
          = model_columns (cfg_models cfg ! i)"
    using a summary_header_block[of i "cfg_models cfg"] by (simp add: save_summary_def)
  have "model_cells read_file gene_res (cfg_models cfg ! i) = [''NA'', ''NA'', ''NA'', ''NA'', ''0'']"
    using a by (simp add: model_cells_def)
  moreover have "map clean_cell [''NA'', ''NA'', ''NA'', ''NA'', ''0'']
                 = [''NA'', ''NA'', ''NA'', ''NA'', ''0'']"
    by (simp add: clean_cell_def)
  ultimately show "take 5 (drop (1 + 5 * i)
                     (summary_row read_file (cfg_models cfg) gene_name gene_res))
                   = [''NA'', ''NA'', ''NA'', ''NA'', ''0'']"
    using a summary_row_block[of i "cfg_models cfg" read_file gene_name gene_res] by simp
qed

theorem save_summary_missing_cell_witness:
  "(1::nat) < length (cfg_models sample_config)
   \<and> dict_get [(''g1'', [(''M0'', sample_result (- 100) 12)])] ''g1''
       = Some [(''M0'', sample_result (- 100) 12)]
   \<and> dict_get [(''M0'', sample_result (- 100) 12)] (cfg_models sample_config ! 1) = None
   \<and> take 5 (drop (1 + 5 * 1)
        (summary_row (\<lambda>path. None) (cfg_models sample_config) ''g1''
           [(''M0'', sample_result (- 100) 12)]))
      = [''NA'', ''NA'', ''NA'', ''NA'', ''0'']"
proof -
  have 1: "(1::nat) < length (cfg_models sample_config)" by (simp add: sample_config_def)
  have 2: "dict_get [(''g1'', [(''M0'', sample_result (- 100) 12)])] ''g1''
             = Some [(''M0'', sample_result (- 100) 12)]"
    by (simp add: dict_get_def)
  have 3: "dict_get [(''M0'', sample_result (- 100) 12)] (cfg_models sample_config ! 1) = None"
    by (simp add: dict_get_def sample_config_def)
  from save_summary_missing_cell[of 1 sample_config
         "[(''g1'', [(''M0'', sample_result (- 100) 12)])]" "''g1''"
         "[(''M0'', sample_result (- 100) 12)]" "\<lambda>path. None"] 1 2 3
  have "take 5 (drop (1 + 5 * 1)
        (summary_row (\<lambda>path. None) (cfg_models sample_config) ''g1''
           [(''M0'', sample_result (- 100) 12)]))
      = [''NA'', ''NA'', ''NA'', ''NA'', ''0'']"
    by blast
  with 1 2 3 show ?thesis by blast
qed

text \<open>
  A gene whose runs all failed: its row is written, and the stops cell of each model is
  \<^verbatim>\<open>0\<close>, not \<^verbatim>\<open>NA\<close>.
\<close>

theorem save_summary_stops_counterexample:
  "save_summary (\<lambda>path. None) sample_config [(''g1'', [])]
   = [[''Gene'', ''M0_lnL'', ''M0_np'', ''M0_omega'', ''M0_time'', ''M0_stops'',
       ''M1a_lnL'', ''M1a_np'', ''M1a_omega'', ''M1a_time'', ''M1a_stops'', ''lrt_M0_vs_M1a''],
      [''g1'', ''NA'', ''NA'', ''NA'', ''NA'', ''0'', ''NA'', ''NA'', ''NA'', ''NA'', ''0'', ''NA'']]"
  by code_simp

subsection \<open>A log-likelihood of zero\<close>

lemma dict_get_dict_set:
  "dict_get (dict_set k v d) k' = (if k' = k then Some v else dict_get d k')"
  by (induction d) (auto simp: dict_get_def)

lemma dict_set_key_set: "fst ` set (dict_set k v d) = insert k (fst ` set d)"
proof (induction d)
  case Nil
  then show ?case by simp
next
  case (Cons a d)
  obtain k' v' where a: "a = (k', v')" by (cases a)
  show ?case using Cons.IH by (cases "k' = k") (simp_all add: a insert_commute)
qed

lemma endswith_append: "endswith (m @ suffix) suffix"
  by (simp add: endswith_def)

lemma endswith_last:
  assumes "endswith s suffix" and "suffix \<noteq> []"
  shows "last s = last suffix"
proof -
  from assms(1) have "s = take (length s - length suffix) s @ suffix"
    unfolding endswith_def by (metis append_take_drop_id)
  then show ?thesis using assms(2) by (metis last_appendR)
qed

text \<open>Rows built by the scan hold a float or \<^verbatim>\<open>None\<close> under every key that ends in \<^verbatim>\<open>_lnL\<close>.\<close>

lemma lnL_values_numeric_dict_set:
  assumes "lnL_values_numeric row" and "endswith k ''_lnL'' \<longrightarrow> is_float_or_none v"
  shows "lnL_values_numeric (dict_set k v row)"
  using assms by (induction row) (auto simp: lnL_values_numeric_def)

lemma lnL_values_numeric_dict_get:
  assumes "lnL_values_numeric row" and "dict_get row (model @ ''_lnL'') = Some v"
  shows "is_float_or_none v"
proof -
  from assms(2) have "(model @ ''_lnL'', v) \<in> set row"
    by (auto simp: dict_get_def dest: map_of_SomeD)
  with assms(1) show ?thesis
    using endswith_append[of model "''_lnL''"]
    by (auto simp: lnL_values_numeric_def list_all_iff)
qed

lemma lnL_values_numeric_store_scan:
  assumes "lnL_values_numeric row"
  shows "lnL_values_numeric (store_scan model s row)"
proof -
  have n: "\<not> endswith (model @ ''_np'') ''_lnL''" "\<not> endswith (model @ ''_omega'') ''_lnL''"
    "\<not> endswith (model @ ''_time'') ''_lnL''" "\<not> endswith (model @ ''_stops'') ''_lnL''"
    using endswith_last[of "model @ ''_np''" "''_lnL''"]
      endswith_last[of "model @ ''_omega''" "''_lnL''"]
      endswith_last[of "model @ ''_time''" "''_lnL''"]
      endswith_last[of "model @ ''_stops''" "''_lnL''"]
    by auto
  have l: "is_float_or_none (case ms_lnL s of None \<Rightarrow> PyNone | Some l \<Rightarrow> PyFloat l)"
    by (cases "ms_lnL s") simp_all
  show ?thesis
    unfolding store_scan_def
    by (intro lnL_values_numeric_dict_set assms) (simp_all add: n l)
qed

lemma lnL_values_numeric_fold:
  assumes "lnL_values_numeric row"
  shows "lnL_values_numeric (fold (\<lambda>(model, s). store_scan model s) scans row)"
  using assms
  by (induction scans arbitrary: row) (auto simp: lnL_values_numeric_store_scan)

lemma scanned_row_numeric: "lnL_values_numeric (scanned_row gene_name scans)"
  unfolding scanned_row_def
  by (rule lnL_values_numeric_fold) (simp add: lnL_values_numeric_def endswith_def)

text \<open>The keys of such a row: \<^verbatim>\<open>Gene\<close> and the five keys of each scanned model.\<close>

lemma store_scan_keys:
  "fst ` set (store_scan model s row) = scan_keys model \<union> fst ` set row"
  by (auto simp: store_scan_def dict_set_key_set scan_keys_def)

lemma fold_store_scan_keys:
  "fst ` set (fold (\<lambda>(model, s). store_scan model s) scans row)
   = (\<Union>(model, s) \<in> set scans. scan_keys model) \<union> fst ` set row"
proof (induction scans arbitrary: row)
  case Nil
  then show ?case by simp
next
  case (Cons a scans)
  obtain model s where a: "a = (model, s)" by (cases a)
  show ?case using Cons.IH[of "store_scan model s row"]
    by (simp add: a store_scan_keys Un_assoc Un_left_commute Un_commute)
qed

lemma scan_keys_no_column:
  assumes "column \<in> set (regen_columns regen_lrt_pairs)"
  shows "column \<notin> scan_keys model"
proof
  assume "column \<in> scan_keys model"
  then have "endswith column ''_lnL'' \<or> endswith column ''_np'' \<or> endswith column ''_omega''
             \<or> endswith column ''_time'' \<or> endswith column ''_stops''"
    using endswith_append[of model] by (auto simp: scan_keys_def)
  with assms show False
    by (auto simp: regen_columns_def regen_lrt_pairs_def endswith_def)
qed

lemma scanned_row_no_column:
  assumes "column \<in> set (regen_columns regen_lrt_pairs)"
  shows "dict_get (scanned_row gene_name scans) column = None"
proof -
  have "column \<noteq> ''Gene''"
    using assms by (auto simp: regen_columns_def regen_lrt_pairs_def)
  then have "column \<notin> fst ` set (scanned_row gene_name scans)"
    using scan_keys_no_column[OF assms]
    by (auto simp: scanned_row_def fold_store_scan_keys)
  then show ?thesis by (simp add: dict_get_def map_of_eq_None_iff)
qed

text \<open>The loop over the comparisons on such a row.\<close>

lemma twice_difference_floats:
  assumes "is_float_or_none a" "is_float_or_none b" "py_truthy a" "py_truthy b"
  shows "\<exists>x. twice_difference a b = Inr (PyFloat x)"
  using assms by (cases a; cases b) simp_all

lemma regen_lrt_column_total:
  assumes "lnL_values_numeric row"
  shows "\<exists>row'. regen_lrt_column c row = Inr row' \<and> lnL_values_numeric row'"
proof -
  obtain null_model alt_model column where c: "c = (null_model, alt_model, column)"
    by (cases c) auto
  show ?thesis
  proof (cases "dict_get row (null_model @ ''_lnL'')")
    case None
    then show ?thesis using assms by (simp add: c regen_lrt_column_def)
  next
    case n: (Some null_lnL)
    show ?thesis
    proof (cases "dict_get row (alt_model @ ''_lnL'')")
      case None
      then show ?thesis using assms n by (simp add: c regen_lrt_column_def)
    next
      case a: (Some alt_lnL)
      show ?thesis
      proof (cases "py_truthy null_lnL \<and> py_truthy alt_lnL")
        case False
        then show ?thesis using assms n a by (auto simp: c regen_lrt_column_def)
      next
        case True
        from lnL_values_numeric_dict_get[OF assms n] lnL_values_numeric_dict_get[OF assms a] True
        obtain x where x: "twice_difference alt_lnL null_lnL = Inr (PyFloat x)"
          using twice_difference_floats by blast
        have "lnL_values_numeric (dict_set column (PyFloat x) row)"
          using assms by (rule lnL_values_numeric_dict_set) simp
        then show ?thesis
          using n a True x by (simp add: c regen_lrt_column_def)
      qed
    qed
  qed
qed

lemma regen_lrt_column_keeps:
  assumes "regen_lrt_column (null_model, alt_model, column) row = Inr row'" and "k \<noteq> column"
  shows "dict_get row' k = dict_get row k"
  using assms
  by (auto simp: regen_lrt_column_def dict_get_dict_set split: option.splits if_splits sum.splits)

lemma regen_lrt_column_skips:
  assumes "dict_get row (null_model @ ''_lnL'') = Some (PyFloat 0)
           \<or> dict_get row (alt_model @ ''_lnL'') = Some (PyFloat 0)"
  shows "regen_lrt_column (null_model, alt_model, column) row = Inr row"
  using assms by (auto simp: regen_lrt_column_def split: option.splits)

lemma regen_lrt_columns_keeps:
  assumes "regen_lrt_columns cs row = Inr row'" and "k \<notin> set (regen_columns cs)"
  shows "dict_get row' k = dict_get row k"
  using assms
proof (induction cs arbitrary: row)
  case Nil
  then show ?case by simp
next
  case (Cons c cs)
  obtain null_model alt_model column where c: "c = (null_model, alt_model, column)"
    by (cases c) auto
  from Cons.prems(1) obtain row1 where
    1: "regen_lrt_column (null_model, alt_model, column) row = Inr row1"
    and 2: "regen_lrt_columns cs row1 = Inr row'"
    by (auto simp: c split: sum.splits)
  from Cons.prems(2) have k: "k \<noteq> column" "k \<notin> set (regen_columns cs)"
    by (auto simp: c regen_columns_def)
  from Cons.IH[OF 2 k(2)] regen_lrt_column_keeps[OF 1 k(1)] show ?case by simp
qed

lemma regen_lrt_columns_total:
  assumes "lnL_values_numeric row"
  shows "\<exists>row'. regen_lrt_columns cs row = Inr row'"
  using assms
proof (induction cs arbitrary: row)
  case Nil
  then show ?case by simp
next
  case (Cons c cs)
  from regen_lrt_column_total[OF Cons.prems] obtain row1 where
    "regen_lrt_column c row = Inr row1" "lnL_values_numeric row1" by blast
  with Cons.IH[of row1] show ?case by simp
qed

lemma regen_lrt_columns_skips:
  assumes "regen_lrt_columns cs row = Inr row'"
      and "distinct (regen_columns cs)"
      and "(null_model, alt_model, column) \<in> set cs"
      and "key \<in> {null_model @ ''_lnL'', alt_model @ ''_lnL''}"
      and "key \<notin> set (regen_columns cs)"
      and "dict_get row key = Some (PyFloat 0)"
  shows "dict_get row' column = dict_get row column"
  using assms(1,2,3,5,6)
proof (induction cs arbitrary: row)
  case Nil
  then show ?case by simp
next
  case (Cons c cs)
  obtain n a col where c: "c = (n, a, col)" by (cases c) auto
  from Cons.prems(1) obtain row1 where
    1: "regen_lrt_column (n, a, col) row = Inr row1"
    and 2: "regen_lrt_columns cs row1 = Inr row'"
    by (auto simp: c split: sum.splits)
  from Cons.prems(2) have d: "col \<notin> set (regen_columns cs)" "distinct (regen_columns cs)"
    by (simp_all add: c regen_columns_def)
  from Cons.prems(4) have k: "key \<noteq> col" "key \<notin> set (regen_columns cs)"
    by (auto simp: c regen_columns_def)
  show ?case
  proof (cases "c = (null_model, alt_model, column)")
    case True
    with c have e: "n = null_model" "a = alt_model" "col = column" by simp_all
    from assms(4) Cons.prems(5) have "regen_lrt_column (null_model, alt_model, column) row = Inr row"
      by (intro regen_lrt_column_skips) auto
    with 1 e have "row1 = row" by simp
    with regen_lrt_columns_keeps[OF 2] d(1) e show ?thesis by simp
  next
    case False
    with Cons.prems(3) have m: "(null_model, alt_model, column) \<in> set cs" by simp
    then have "column \<in> set (regen_columns cs)" by (force simp: regen_columns_def)
    with d(1) have ne: "column \<noteq> col" by auto
    from regen_lrt_column_keeps[OF 1 k(1)] Cons.prems(5)
    have z: "dict_get row1 key = Some (PyFloat 0)" by simp
    from Cons.IH[OF 2 d(2) m k(2) z] regen_lrt_column_keeps[OF 1 ne] show ?thesis by simp
  qed
qed

lemma regen_lrt_pairs_keys:
  assumes "(null_model, alt_model, column) \<in> set regen_lrt_pairs"
  shows "null_model @ ''_lnL'' \<notin> set (regen_columns regen_lrt_pairs)"
    and "alt_model @ ''_lnL'' \<notin> set (regen_columns regen_lrt_pairs)"
  using assms by (auto simp: regen_lrt_pairs_def regen_columns_def)

lemma regen_lrt_pairs_distinct: "distinct (regen_columns regen_lrt_pairs)"
  by (simp add: regen_lrt_pairs_def regen_columns_def)

lemma summary_row_lnL_cell:
  assumes "i < length models"
  shows "summary_row read_file models gene_name gene_res ! (1 + 5 * i)
         = clean_cell (model_cells read_file gene_res (models ! i) ! 0)"
proof -
  have b: "take 5 (drop (1 + 5 * i) (summary_row read_file models gene_name gene_res))
           = map clean_cell (model_cells read_file gene_res (models ! i))"
    by (rule summary_row_block[OF assms])
  have "summary_row read_file models gene_name gene_res ! ((1 + 5 * i) + 0)
        = map clean_cell (model_cells read_file gene_res (models ! i)) ! 0"
    by (rule take_drop_nth[OF b]) (simp add: length_model_cells)
  then show ?thesis by (simp add: length_model_cells)
qed

text \<open>
  Claim C10. A result whose log-likelihood is exactly 0 has \<^verbatim>\<open>NA\<close> in its lnL cell of the
  summary. In the summary rebuilt from a folder, the row of a gene for which the
  log-likelihood of a model is 0.0 gets no value in any likelihood-ratio column of a
  comparison with that model: the statement of the comparison leaves the row as it is,
  the loop over the comparisons ends without an exception, and the column is absent
  afterwards.
\<close>

theorem zero_lnL_counts_as_missing:
  "(i < length models \<and> dict_get gene_res (models ! i) = Some result \<and> res_lnL result = Some 0
    \<longrightarrow> summary_row read_file models gene_name gene_res ! (1 + 5 * i) = ''NA'')
   \<and> ((null_model, alt_model, column) \<in> set regen_lrt_pairs
      \<and> (model = null_model \<or> model = alt_model)
      \<and> dict_get (scanned_row gene scans) (model @ ''_lnL'') = Some (PyFloat 0)
      \<longrightarrow> regen_lrt_column (null_model, alt_model, column) (scanned_row gene scans)
            = Inr (scanned_row gene scans)
          \<and> (\<exists>row'. regen_lrt_columns regen_lrt_pairs (scanned_row gene scans) = Inr row'
                    \<and> dict_get row' column = None))"
proof (intro conjI impI)
  assume a: "i < length models \<and> dict_get gene_res (models ! i) = Some result
             \<and> res_lnL result = Some 0"
  then have "model_cells read_file gene_res (models ! i) ! 0 = ''NA''"
    by (simp add: model_cells_def Let_def)
  moreover have "clean_cell ''NA'' = ''NA''" by (simp add: clean_cell_def)
  ultimately show "summary_row read_file models gene_name gene_res ! (1 + 5 * i) = ''NA''"
    using a summary_row_lnL_cell[of i models read_file gene_name gene_res] by simp
next
  let ?row = "scanned_row gene scans"
  assume b: "(null_model, alt_model, column) \<in> set regen_lrt_pairs
      \<and> (model = null_model \<or> model = alt_model)
      \<and> dict_get ?row (model @ ''_lnL'') = Some (PyFloat 0)"
  then show "regen_lrt_column (null_model, alt_model, column) ?row = Inr ?row"
    by (intro regen_lrt_column_skips) auto
next
  let ?row = "scanned_row gene scans"
  assume b: "(null_model, alt_model, column) \<in> set regen_lrt_pairs
      \<and> (model = null_model \<or> model = alt_model)
      \<and> dict_get ?row (model @ ''_lnL'') = Some (PyFloat 0)"
  obtain row' where r: "regen_lrt_columns regen_lrt_pairs ?row = Inr row'"
    using regen_lrt_columns_total[OF scanned_row_numeric] by blast
  from b have k: "model @ ''_lnL'' \<in> {null_model @ ''_lnL'', alt_model @ ''_lnL''}" by auto
  from b regen_lrt_pairs_keys[of null_model alt_model column]
  have f: "model @ ''_lnL'' \<notin> set (regen_columns regen_lrt_pairs)" by auto
  from b have c: "column \<in> set (regen_columns regen_lrt_pairs)"
    by (force simp: regen_columns_def)
  from b have "dict_get row' column = dict_get ?row column"
    by (intro regen_lrt_columns_skips[OF r regen_lrt_pairs_distinct _ k f]) simp_all
  with scanned_row_no_column[OF c] have "dict_get row' column = None" by simp
  with r show "\<exists>row'. regen_lrt_columns regen_lrt_pairs ?row = Inr row'
                    \<and> dict_get row' column = None"
    by blast
qed

theorem zero_lnL_counts_as_missing_witness:
  "(0::nat) < length [''M0'']
   \<and> dict_get [(''M0'', sample_result 0 12)] ([''M0''] ! 0) = Some (sample_result 0 12)
   \<and> res_lnL (sample_result 0 12) = Some 0
   \<and> summary_row (\<lambda>path. None) [''M0''] ''g1'' [(''M0'', sample_result 0 12)] ! (1 + 5 * 0)
       = ''NA''
   \<and> (''M0'', ''M1a'', ''lrt_M0_vs_M1a'') \<in> set regen_lrt_pairs
   \<and> dict_get (scanned_row ''g1'' sample_scans) ''Gene'' = Some (PyStr ''g1'')
   \<and> dict_get (scanned_row ''g1'' sample_scans) (''M0'' @ ''_lnL'') = Some (PyFloat 0)
   \<and> dict_get (scanned_row ''g1'' sample_scans) (''M1a'' @ ''_lnL'') = Some (PyFloat (- 105))
   \<and> regen_lrt_column (''M0'', ''M1a'', ''lrt_M0_vs_M1a'') (scanned_row ''g1'' sample_scans)
       = Inr (scanned_row ''g1'' sample_scans)
   \<and> (\<exists>row'. regen_lrt_columns regen_lrt_pairs (scanned_row ''g1'' sample_scans) = Inr row'
             \<and> dict_get row' ''lrt_M0_vs_M1a'' = None)"
proof -
  let ?row = "scanned_row ''g1'' sample_scans"
  have 1: "(0::nat) < length [''M0'']" by simp
  have 2: "dict_get [(''M0'', sample_result 0 12)] ([''M0''] ! 0) = Some (sample_result 0 12)"
    by (simp add: dict_get_def)
  have 3: "res_lnL (sample_result 0 12) = Some 0" by (simp add: sample_result_def)
  have 4: "(''M0'', ''M1a'', ''lrt_M0_vs_M1a'') \<in> set regen_lrt_pairs"
    by (simp add: regen_lrt_pairs_def)
  have 5: "dict_get ?row ''Gene'' = Some (PyStr ''g1'')" by code_simp
  have 6: "dict_get ?row (''M0'' @ ''_lnL'') = Some (PyFloat 0)" by code_simp
  have 7: "dict_get ?row (''M1a'' @ ''_lnL'') = Some (PyFloat (- 105))" by code_simp
  note t = zero_lnL_counts_as_missing[of 0 "[''M0'']" "[(''M0'', sample_result 0 12)]"
             "sample_result 0 12" "\<lambda>path. None" "''g1''" "''M0''" "''M1a''"
             "''lrt_M0_vs_M1a''" "''M0''" "''g1''" sample_scans]
  from t 1 2 3 have 8:
    "summary_row (\<lambda>path. None) [''M0''] ''g1'' [(''M0'', sample_result 0 12)] ! (1 + 5 * 0)
       = ''NA''"
    by blast
  from t 4 6 have 9:
    "regen_lrt_column (''M0'', ''M1a'', ''lrt_M0_vs_M1a'') ?row = Inr ?row
     \<and> (\<exists>row'. regen_lrt_columns regen_lrt_pairs ?row = Inr row'
             \<and> dict_get row' ''lrt_M0_vs_M1a'' = None)"
    by blast
  from 1 2 3 8 4 5 6 7 9 show ?thesis by blast
qed

text \<open>
  On the same row with the log-likelihood -100 in place of 0.0 the column is computed,
  so it is the zero that is passed over.
\<close>

lemma regen_lrt_column_computed:
  "dict_get (scanned_row ''g1''
               [(''M0'', \<lparr>ms_lnL = Some (- 100), ms_np = Some 12, ms_omega = Some 0.5,
                         ms_time = Some 75, ms_stops = 0\<rparr>),
                (''M1a'', \<lparr>ms_lnL = Some (- 105), ms_np = Some 13, ms_omega = None,
                          ms_time = None, ms_stops = 0\<rparr>)]) ''lrt_M0_vs_M1a'' = None
   \<and> map_sum id (\<lambda>row'. dict_get row' ''lrt_M0_vs_M1a'')
       (regen_lrt_columns regen_lrt_pairs
          (scanned_row ''g1''
             [(''M0'', \<lparr>ms_lnL = Some (- 100), ms_np = Some 12, ms_omega = Some 0.5,
                       ms_time = Some 75, ms_stops = 0\<rparr>),
              (''M1a'', \<lparr>ms_lnL = Some (- 105), ms_np = Some 13, ms_omega = None,
                        ms_time = None, ms_stops = 0\<rparr>)]))
     = Inr (Some (PyFloat (- 10)))"
  by code_simp

subsection \<open>Likelihood-ratio tests with a negative statistic\<close>

text \<open>The live analysis passes over a gene whose degrees of freedom are 0 or whose statistic is negative.\<close>

lemma lrt_live_gene_excludes:
  assumes "dict_get gene_res null_model = Some null_res"
      and "dict_get gene_res alt_model = Some alt_res"
      and "res_lnL null_res = Some lnL_null" and "res_lnL alt_res = Some lnL_alt"
      and "res_np null_res = Some np_null" and "res_np alt_res = Some np_alt"
      and "\<bar>np_alt - np_null\<bar> = 0 \<or> 2 * (lnL_alt - lnL_null) < 0"
  shows "lrt_live_gene cdf null_model alt_model gene_name gene_res tally = Inr tally"
  using assms by (auto simp: lrt_live_gene_def Let_def)

text \<open>
  The report rebuilt from a folder adds an entry for every gene whose two files hold a
  log-likelihood, whatever the sign of the statistic.
\<close>

lemma regen_lrt_gene_counts:
  assumes "read (folder_of null_model) (gene @ ''_'' @ folder_of null_model @ ''_results.txt'')
           = Some null_content"
      and "read (folder_of alt_model) (gene @ ''_'' @ folder_of alt_model @ ''_results.txt'')
           = Some alt_content"
      and "re_search lnL_regen_pattern null_content = Some null_text"
      and "re_search lnL_regen_pattern alt_content = Some alt_text"
      and "py_float null_text = Some (Number lnL_null)"
      and "py_float alt_text = Some (Number lnL_alt)"
  shows "regen_lrt_gene cdf read (null_model, alt_model, df) gene tally
         = tally_add \<lparr>le_gene = gene, le_lnL_null = lnL_null, le_lnL_alt = lnL_alt,
                      le_stat = 2 * (lnL_alt - lnL_null), le_df = df,
                      le_p_value = 1 - cdf (2 * (lnL_alt - lnL_null)) df\<rparr> tally"
  using assms by (simp add: regen_lrt_gene_def Let_def)

text \<open>
  Claim C2, for the report rebuilt from a folder. With the log-likelihoods -100 of
  \<^verbatim>\<open>M0\<close> and -105 of \<^verbatim>\<open>M1a\<close> the statistic is -10. The live analysis leaves the gene out
  of the tally; \<^verbatim>\<open>_regenerate_lrt_results\<close> reports it as an entry with the statistic -10
  and counts it among the valid genes.
\<close>

theorem regenerate_lrt_results_negative_statistic:
  "lrt_live_gene cdf ''M0'' ''M1a'' ''g1''
     [(''M0'', sample_result (- 100) 12), (''M1a'', sample_result (- 105) 13)] empty_tally
   = Inr empty_tally
   \<and> map (\<lambda>(c, t). (c, map le_stat (lt_entries t), lt_total_valid t))
       (regenerate_lrt_results cdf sample_disk [''M0'', ''M1a''] [''g1''])
     = [((''M0'', ''M1a'', 1), [- 10], 1)]"
proof -
  have 1: "lrt_live_gene cdf ''M0'' ''M1a'' ''g1''
     [(''M0'', sample_result (- 100) 12), (''M1a'', sample_result (- 105) 13)] empty_tally
   = Inr empty_tally"
    by code_simp
  have 2: "map (\<lambda>(c, t). (c, map le_stat (lt_entries t), lt_total_valid t))
       (regenerate_lrt_results cdf sample_disk [''M0'', ''M1a''] [''g1''])
     = [((''M0'', ''M1a'', 1), [- 10], 1)]"
    by code_simp
  from 1 2 show ?thesis ..
qed


end
